(* ===== verification/Prelude.thy ===== *)
theory Prelude
  imports Main "HOL-Library.Word"
begin

text \<open>
  Shared vocabulary of the development: the two build flavours of the C++ code, the ways a
  call can fail to return (\<open>fault\<close>), the error monad over them, the Windows integer types,
  the narrowing casts the code performs, and the time-out arithmetic that three components
  repeat.  No component of the repository is modelled here except that arithmetic.
\<close>

named_theorems exec_simps \<open>evaluation of the error monad and of assertions\<close>
named_theorems exec_elims \<open>inversion of a computation that returned\<close>

section \<open>Builds, faults and the error monad\<close>

text \<open>
  \<open>assert\<close> is compiled into a check in a debug build and into nothing when \<open>NDEBUG\<close> is
  defined.  The code relies on both readings (it tests \<open>ok\<close> again after \<open>assert(ok)\<close>), so
  every operation that asserts takes the build as an argument.
\<close>

datatype build = Debug | Release

text \<open>
  How a call can end other than by returning: a failed assertion, a null pointer that is
  dereferenced, a read past the end of a buffer, an exception that leaves a \<open>noexcept\<close> function
  (\<open>std::terminate\<close>), the read of a variable that was never initialised, a library call outside
  its precondition, or a wait for something that never happens.
\<close>

datatype fault =
    AssertionFailed string
  | OutOfBounds string
  | NullDereference string
  | Terminated string
  | Uninitialised string
  | Undefined string
  | Blocked string

type_synonym 'a exec = "fault + 'a"

fun ebind :: "'a exec \<Rightarrow> ('a \<Rightarrow> 'b exec) \<Rightarrow> 'b exec" where
  "ebind (Inl e) f = Inl e"
| "ebind (Inr x) f = f x"

definition cxx_assert :: "build \<Rightarrow> string \<Rightarrow> bool \<Rightarrow> unit exec" where
  "cxx_assert b what c = (if b = Debug \<and> \<not> c then Inl (AssertionFailed what) else Inr ())"

definition deref :: "string \<Rightarrow> 'a option \<Rightarrow> 'a exec" where
  "deref what p = (case p of None \<Rightarrow> Inl (NullDereference what) | Some x \<Rightarrow> Inr x)"

definition returns :: "'a exec \<Rightarrow> bool" where
  "returns m \<longleftrightarrow> (case m of Inl _ \<Rightarrow> False | Inr _ \<Rightarrow> True)"

lemma returns_simps [simp]: "returns (Inr x)" "\<not> returns (Inl e)"
  by (simp_all add: returns_def)

lemma returns_iff: "returns m \<longleftrightarrow> (\<exists>x. m = Inr x)"
  by (cases m) auto

lemma cxx_assert_True [simp, exec_simps]: "cxx_assert b w True = Inr ()"
  by (simp add: cxx_assert_def)

lemma cxx_assert_Release [simp, exec_simps]: "cxx_assert Release w c = Inr ()"
  by (simp add: cxx_assert_def)

lemma cxx_assert_Debug [exec_simps]:
  "cxx_assert Debug w c = (if c then Inr () else Inl (AssertionFailed w))"
  by (simp add: cxx_assert_def)

lemma cxx_assert_cong: "c \<Longrightarrow> cxx_assert b w c = Inr ()"
  by (simp add: cxx_assert_def)

lemma deref_simps [simp, exec_simps]:
  "deref w (Some x) = Inr x" "deref w None = Inl (NullDereference w)"
  by (simp_all add: deref_def)

lemma ebind_InrE [exec_elims]:
  assumes "ebind m f = Inr y"
  obtains x where "m = Inr x" and "f x = Inr y"
  using assms by (cases m) auto

lemma ebind_Inr_iff: "ebind m f = Inr y \<longleftrightarrow> (\<exists>x. m = Inr x \<and> f x = Inr y)"
  by (cases m) auto

lemma cxx_assert_Inr_iff: "cxx_assert b w c = Inr u \<longleftrightarrow> b = Release \<or> c"
  by (cases b) (auto simp: cxx_assert_def)

lemma deref_Inr_iff: "deref w p = Inr x \<longleftrightarrow> p = Some x"
  by (cases p) auto

lemma ebind_assoc: "ebind (ebind m f) g = ebind m (\<lambda>x. ebind (f x) g)"
  by (cases m) auto

lemma ebind_ret [simp]: "ebind m Inr = m"
  by (cases m) auto

section \<open>Windows integer types and narrowing casts\<close>

text \<open>
  \<open>DWORD\<close> and \<open>ULONG\<close> are 32-bit unsigned, \<open>HRESULT\<close> is 32-bit with the sign bit as the
  failure flag (\<open>FAILED(hr)\<close> is \<open>hr < 0\<close>).
\<close>

type_synonym DWORD = "32 word"
type_synonym ULONG = "32 word"
type_synonym HRESULT = "32 word"

definition S_OK :: HRESULT where
  "S_OK = 0"

definition FAILED :: "HRESULT \<Rightarrow> bool" where
  "FAILED hr \<longleftrightarrow> sint hr < 0"

lemma FAILED_S_OK [simp]: "\<not> FAILED S_OK"
  by (simp add: FAILED_def S_OK_def)

text \<open>\<open>static_cast<ULONG>(s.size())\<close> and \<open>static_cast<int>(s.size())\<close>.\<close>

definition ulong_of_size :: "nat \<Rightarrow> ULONG" where
  "ulong_of_size n = of_nat n"

definition int_of_size :: "nat \<Rightarrow> int" where
  "int_of_size n = sint (of_nat n :: 32 word)"

lemma unat_ulong_of_size: "unat (ulong_of_size n) = n mod 2 ^ 32"
  by (simp add: ulong_of_size_def unat_of_nat)

lemma unat_ulong_of_size_small [simp]: "n < 2 ^ 32 \<Longrightarrow> unat (ulong_of_size n) = n"
  by (simp add: unat_ulong_of_size)

lemma unat_ulong_of_size_le: "unat (ulong_of_size n) \<le> n"
  by (simp add: unat_ulong_of_size)

lemma int_of_size_small [simp]:
  assumes "n < 2 ^ 31"
  shows "int_of_size n = int n"
proof -
  have "int n < 2 ^ 31" using assms by (metis of_nat_less_numeral_power_cancel_iff)
  then have "signed_take_bit 31 (int n) = int n"
    by (intro signed_take_bit_int_eq_self) auto
  then show ?thesis by (simp add: int_of_size_def signed_of_nat)
qed

section \<open>Decimal text of integers\<close>

text \<open>\<open>std::to_string\<close> and \<open>std::to_wstring\<close> on integers.\<close>

definition digit_char :: "nat \<Rightarrow> char" where
  "digit_char d = char_of (48 + d)"

fun nat_digits :: "nat \<Rightarrow> string" where
  "nat_digits n = (if n < 10 then [digit_char n] else nat_digits (n div 10) @ [digit_char (n mod 10)])"

declare nat_digits.simps [simp del]

definition to_string :: "int \<Rightarrow> string" where
  "to_string i = (if i < 0 then CHR ''-'' # nat_digits (nat (- i)) else nat_digits (nat i))"

lemma nat_digits_nonempty [simp]: "nat_digits n \<noteq> ''''"
  by (subst nat_digits.simps) simp

lemma to_string_nonempty [simp]: "to_string i \<noteq> ''''"
  by (simp add: to_string_def)

section \<open>Prefixes of strings\<close>

text \<open>\<open>std::string_view::starts_with\<close>.\<close>

definition starts_with :: "string \<Rightarrow> string \<Rightarrow> bool" where
  "starts_with s p \<longleftrightarrow> take (length p) s = p"

lemma starts_with_append [simp]: "starts_with (p @ s) p"
  by (simp add: starts_with_def)

lemma starts_with_iff: "starts_with s p \<longleftrightarrow> (\<exists>t. s = p @ t)"
  unfolding starts_with_def by (metis append_eq_conv_conj append_take_drop_id)

lemma starts_with_trans: "starts_with s q \<Longrightarrow> starts_with q p \<Longrightarrow> starts_with s p"
  by (auto simp: starts_with_iff)

section \<open>What is left of a time-out\<close>

text \<open>
  \<open>ExecClientBegin\<close>, \<open>BeginOperation::Invoke\<close> and \<open>BeginProcessRequest\<close> each read
  \<open>steady_clock\<close> twice and subtract the elapsed milliseconds from the caller's time-out.
  The readings are in nanoseconds; \<open>duration_cast\<close> truncates towards zero; the comparison
  \<open>timeoutMilliseconds > ms\<close> converts the 32-bit unsigned operand to \<open>long long\<close>, so it is
  a comparison of integers; the subtraction is on 32-bit words.
\<close>

definition elapsed_ms :: "int \<Rightarrow> int \<Rightarrow> int" where
  "elapsed_ms starttime endtime =
     (if endtime < starttime then - ((starttime - endtime) div 1000000)
      else (endtime - starttime) div 1000000)"

definition remaining_timeout :: "DWORD \<Rightarrow> int \<times> int \<Rightarrow> DWORD" where
  "remaining_timeout timeoutMilliseconds clk =
     (let ms = elapsed_ms (fst clk) (snd clk)
      in if uint timeoutMilliseconds > ms then timeoutMilliseconds - word_of_int ms else 0)"

lemma elapsed_ms_mono_clock: "s \<le> e \<Longrightarrow> elapsed_ms s e = (e - s) div 1000000"
  by (simp add: elapsed_ms_def)

lemma uint_remaining_timeout:
  assumes "s \<le> e"
  shows "uint (remaining_timeout t (s, e)) = max 0 (uint t - (e - s) div 1000000)"
proof -
  define ms where "ms = (e - s) div 1000000"
  have ms0: "0 \<le> ms" using assms by (simp add: ms_def pos_imp_zdiv_nonneg_iff)
  have "uint t < 2 ^ 32" using uint_lt2p[of t] by simp
  then have range: "ms < uint t \<Longrightarrow> 0 \<le> uint t - ms \<and> uint t - ms < 2 ^ 32"
    using ms0 by linarith
  have "uint (t - word_of_int ms) = uint t - ms" if "ms < uint t"
  proof -
    have "t - word_of_int ms = word_of_int (uint t - ms)" by simp
    then have "uint (t - word_of_int ms) = (uint t - ms) mod 2 ^ 32"
      by (simp only: uint_word_of_int) simp
    then show ?thesis using range[OF that] by simp
  qed
  then show ?thesis
    using assms by (auto simp: remaining_timeout_def Let_def elapsed_ms_mono_clock ms_def[symmetric])
qed

end
