(* ===== verification/Status.thy ===== *)
theory Status
  imports Prelude
begin

text \<open>
  \<open>fabricrpc::Status\<close> and \<open>fabricrpc::StatusCode\<close> (src/fabric_rpc): the error value of the
  first RPC library.
\<close>

section \<open>StatusCode\<close>

text \<open>
  The enumerators of the unscoped enum \<open>StatusCode\<close> and their values.  A \<open>StatusCode\<close> object
  can hold other integers as well, because \<open>ExecClientEnd\<close> casts the number it reads from the
  wire, so \<open>Status\<close> keeps the value as an integer.
\<close>

datatype StatusCode =
    OK | UNKNOWN | INVALID_ARGUMENT | DEADLINE_EXCEEDED | NOT_FOUND | INTERNAL
  | FABRIC_TRANSPORT_ERROR | DO_NOT_USE

fun code_value :: "StatusCode \<Rightarrow> int" where
  "code_value OK = 0"
| "code_value UNKNOWN = 2"
| "code_value INVALID_ARGUMENT = 3"
| "code_value DEADLINE_EXCEEDED = 4"
| "code_value NOT_FOUND = 5"
| "code_value INTERNAL = 13"
| "code_value FABRIC_TRANSPORT_ERROR = 50"
| "code_value DO_NOT_USE = -1"

text \<open>An unscoped enum compares as the integer it holds.\<close>

lemma code_value_inject [simp]: "code_value c = code_value d \<longleftrightarrow> c = d"
  by (cases c; cases d) simp_all

instantiation StatusCode :: linorder
begin

definition less_eq_StatusCode :: "StatusCode \<Rightarrow> StatusCode \<Rightarrow> bool" where
  "less_eq_StatusCode c d \<longleftrightarrow> code_value c \<le> code_value d"

definition less_StatusCode :: "StatusCode \<Rightarrow> StatusCode \<Rightarrow> bool" where
  "less_StatusCode c d \<longleftrightarrow> code_value c < code_value d"

instance
  by standard (auto simp: less_eq_StatusCode_def less_StatusCode_def)

end

lemma code_value_0_iff [simp]: "code_value c = 0 \<longleftrightarrow> c = OK"
  by (cases c) simp_all

section \<open>Status\<close>

record Status =
  s_code :: int
  s_error_message :: string
  s_transportErrorCode :: HRESULT

text \<open>The three constructors: with a transport error, without one, and the default.\<close>

definition Status3 :: "int \<Rightarrow> string \<Rightarrow> HRESULT \<Rightarrow> Status" where
  "Status3 code error_message transportErrorCode =
     \<lparr>s_code = code, s_error_message = error_message, s_transportErrorCode = transportErrorCode\<rparr>"

definition Status2 :: "int \<Rightarrow> string \<Rightarrow> Status" where
  "Status2 code error_message = Status3 code error_message S_OK"

definition Status0 :: Status where
  "Status0 = Status2 (code_value OK) ''OK''"

definition GetErrorCode :: "Status \<Rightarrow> int" where
  "GetErrorCode s = s_code s"

definition GetErrorMessage :: "Status \<Rightarrow> string" where
  "GetErrorMessage s = s_error_message s"

text \<open>\<open>operator bool\<close>: true when the call failed.\<close>

definition failed :: "Status \<Rightarrow> bool" where
  "failed s \<longleftrightarrow> s_code s \<noteq> code_value OK"

definition IsTransportError :: "Status \<Rightarrow> bool" where
  "IsTransportError s \<longleftrightarrow> s_code s = code_value FABRIC_TRANSPORT_ERROR"

definition GetTransportErrorCode :: "Status \<Rightarrow> HRESULT" where
  "GetTransportErrorCode s = s_transportErrorCode s"

lemmas status_defs =
  Status3_def Status2_def Status0_def GetErrorCode_def GetErrorMessage_def failed_def
  IsTransportError_def GetTransportErrorCode_def

lemma Status0_simps [simp]:
  "\<not> failed Status0" "GetErrorCode Status0 = 0" "GetErrorMessage Status0 = ''OK''"
  "GetTransportErrorCode Status0 = S_OK"
  by (simp_all add: status_defs)

lemma Status2_simps [simp]:
  "failed (Status2 c m) \<longleftrightarrow> c \<noteq> 0" "GetErrorCode (Status2 c m) = c"
  "GetErrorMessage (Status2 c m) = m" "GetTransportErrorCode (Status2 c m) = S_OK"
  by (simp_all add: status_defs)

lemma Status3_simps [simp]:
  "failed (Status3 c m h) \<longleftrightarrow> c \<noteq> 0" "GetErrorCode (Status3 c m h) = c"
  "GetErrorMessage (Status3 c m h) = m" "GetTransportErrorCode (Status3 c m h) = h"
  by (simp_all add: status_defs)

lemma failed_iff_code: "failed s \<longleftrightarrow> GetErrorCode s \<noteq> 0"
  by (simp add: status_defs)

lemma transport_error_failed: "IsTransportError s \<Longrightarrow> failed s"
  by (simp add: status_defs)

lemma Status2_id: "GetTransportErrorCode s = S_OK \<Longrightarrow> Status2 (GetErrorCode s) (GetErrorMessage s) = s"
  by (simp add: status_defs)

lemma enumerator_failed: "failed (Status2 (code_value c) m) \<longleftrightarrow> c \<noteq> OK"
  by simp

end
