(* ===== verification/Foreign.thy ===== *)
theory Foreign
  imports Prelude "HOL-Library.List_Lexorder" "HOL-Library.Char_ord"
begin

text \<open>
  Interfaces of the libraries that the repository calls and does not contain: the protobuf
  runtime, \<open>absl::Status\<close> and the two Boost string algorithms of the generators.  Each is a
  record of functions that the definitions of the model take as an argument; what the code
  relies on is a predicate on that record stating documented behaviour.  The end of the theory
  gives one concrete instance of each, used only to show that the hypotheses can hold.
\<close>

section \<open>Protobuf messages\<close>

text \<open>
  What generated message classes offer: \<open>SerializeToString(&out)\<close> returns a flag and writes
  \<open>out\<close>; \<open>SerializeAsString()\<close> returns the bytes; \<open>ParseFromArray(data, size)\<close> and
  \<open>ParseFromString(data)\<close> either fill the message or fail.
\<close>

record 'm codec =
  SerializeToString :: "'m \<Rightarrow> bool \<times> string"
  SerializeAsString :: "'m \<Rightarrow> string"
  ParseFromArray :: "string \<Rightarrow> int \<Rightarrow> 'm option"
  ParseFromString :: "string \<Rightarrow> 'm option"

text \<open>Documented: the string and array variants read the same bytes the same way.\<close>

definition codec_laws :: "'m codec \<Rightarrow> bool" where
  "codec_laws C \<longleftrightarrow>
     (\<forall>d. ParseFromArray C d (int (length d)) = ParseFromString C d) \<and>
     (\<forall>m. fst (SerializeToString C m) \<longrightarrow> SerializeAsString C m = snd (SerializeToString C m))"

text \<open>
  A message survives the wire: it serializes, to fewer bytes than a signed 32-bit size can
  count, and those bytes parse back to it.
\<close>

definition roundtrips :: "'m codec \<Rightarrow> 'm \<Rightarrow> bool" where
  "roundtrips C m \<longleftrightarrow>
     fst (SerializeToString C m) \<and>
     length (snd (SerializeToString C m)) < 2 ^ 31 \<and>
     ParseFromString C (snd (SerializeToString C m)) = Some m"

definition wire :: "'m codec \<Rightarrow> 'm \<Rightarrow> string" where
  "wire C m = snd (SerializeToString C m)"

lemma roundtripsD:
  assumes "codec_laws C" and "roundtrips C m"
  shows "SerializeToString C m = (True, wire C m)"
    and "SerializeAsString C m = wire C m"
    and "ParseFromString C (wire C m) = Some m"
    and "ParseFromArray C (wire C m) (int_of_size (length (wire C m))) = Some m"
    and "length (wire C m) < 2 ^ 31"
  using assms by (auto simp: codec_laws_def roundtrips_def wire_def prod_eq_iff)

section \<open>absl::Status\<close>

text \<open>
  \<open>mk_status\<close> is the constructor \<open>absl::Status(code, message)\<close>, the named constructors are the
  free functions of the same name, \<open>int_alphanum\<close> is the decimal text that \<open>absl::StrCat\<close>
  inserts for an \<open>int\<close>, and \<open>kDoNotUse\<close> is the enumerator
  \<open>kDoNotUseReservedForFutureExpansionUseDefaultInSwitchInstead_\<close>.
\<close>

record 's absl_api =
  mk_status :: "int \<Rightarrow> string \<Rightarrow> 's"
  OkStatus :: 's
  InvalidArgumentError :: "string \<Rightarrow> 's"
  UnknownError :: "string \<Rightarrow> 's"
  UnimplementedError :: "string \<Rightarrow> 's"
  AbortedError :: "string \<Rightarrow> 's"
  st_ok :: "'s \<Rightarrow> bool"
  raw_code :: "'s \<Rightarrow> int"
  st_message :: "'s \<Rightarrow> string"
  int_alphanum :: "int \<Rightarrow> string"
  kDoNotUse :: int

text \<open>
  Documented: a status is its code and its message; an OK status carries no message; the named
  constructors use the canonical codes; \<open>ok()\<close> means code 0; integers are printed in decimal;
  the reserved enumerator lies above the canonical codes 0 to 16.
\<close>

definition absl_laws :: "'s absl_api \<Rightarrow> bool" where
  "absl_laws A \<longleftrightarrow>
     (\<forall>c m. raw_code A (mk_status A c m) = c) \<and>
     (\<forall>c m. st_message A (mk_status A c m) = (if c = 0 then '''' else m)) \<and>
     (\<forall>s. st_ok A s \<longleftrightarrow> raw_code A s = 0) \<and>
     (\<forall>s. raw_code A s = 0 \<longrightarrow> st_message A s = '''') \<and>
     (\<forall>m. mk_status A 0 m = OkStatus A) \<and>
     (\<forall>m. InvalidArgumentError A m = mk_status A 3 m) \<and>
     (\<forall>m. UnknownError A m = mk_status A 2 m) \<and>
     (\<forall>m. UnimplementedError A m = mk_status A 12 m) \<and>
     (\<forall>m. AbortedError A m = mk_status A 10 m) \<and>
     (\<forall>i. int_alphanum A i = to_string i) \<and>
     16 < kDoNotUse A"

lemma absl_lawsD:
  assumes "absl_laws A"
  shows "raw_code A (mk_status A c m) = c"
    and "st_message A (mk_status A c m) = (if c = 0 then '''' else m)"
    and "st_ok A s \<longleftrightarrow> raw_code A s = 0"
    and "raw_code A s = 0 \<Longrightarrow> st_message A s = ''''"
    and "mk_status A 0 m = OkStatus A"
    and "InvalidArgumentError A m = mk_status A 3 m"
    and "UnknownError A m = mk_status A 2 m"
    and "UnimplementedError A m = mk_status A 12 m"
    and "AbortedError A m = mk_status A 10 m"
    and "int_alphanum A i = to_string i"
    and "16 < kDoNotUse A"
  using assms by (auto simp: absl_laws_def)

lemma absl_OkStatus:
  assumes "absl_laws A"
  shows "raw_code A (OkStatus A) = 0" and "st_message A (OkStatus A) = ''''"
    and "st_ok A (OkStatus A)"
proof -
  show c: "raw_code A (OkStatus A) = 0"
    using absl_lawsD(1)[OF assms, of 0 "''''"] absl_lawsD(5)[OF assms, of "''''"] by simp
  then show "st_message A (OkStatus A) = ''''" and "st_ok A (OkStatus A)"
    using assms by (simp_all add: absl_lawsD)
qed

section \<open>Boost string algorithms\<close>

text \<open>
  \<open>split_any p s\<close> is \<open>boost::split\<close> at the characters that satisfy \<open>p\<close>, without token
  compression; \<open>replace_all s k v\<close> is \<open>boost::replace_all\<close> of the search string \<open>k\<close> by \<open>v\<close>.
\<close>

record boost_api =
  split_any :: "(char \<Rightarrow> bool) \<Rightarrow> string \<Rightarrow> string list"
  replace_all :: "string \<Rightarrow> string \<Rightarrow> string \<Rightarrow> string"

text \<open>
  Documented: a split cuts at every delimiter and keeps empty pieces; a replacement changes the
  occurrences of the search string from left to right without overlap and nothing else.
\<close>

definition first_occurrence :: "string \<Rightarrow> string \<Rightarrow> string \<Rightarrow> bool" where
  "first_occurrence k p s \<longleftrightarrow> (\<forall>p' s'. p @ k @ s = p' @ k @ s' \<longrightarrow> length p \<le> length p')"

definition boost_laws :: "boost_api \<Rightarrow> bool" where
  "boost_laws B \<longleftrightarrow>
     (\<forall>d s. (\<forall>c \<in> set s. \<not> d c) \<longrightarrow> split_any B d s = [s]) \<and>
     (\<forall>d p c s. (\<forall>x \<in> set p. \<not> d x) \<longrightarrow> d c \<longrightarrow> split_any B d (p @ c # s) = p # split_any B d s) \<and>
     (\<forall>k v s. k \<noteq> '''' \<longrightarrow> (\<nexists>p t. s = p @ k @ t) \<longrightarrow> replace_all B s k v = s) \<and>
     (\<forall>k v p s. k \<noteq> '''' \<longrightarrow> first_occurrence k p s \<longrightarrow>
        replace_all B (p @ k @ s) k v = p @ v @ replace_all B s k v)"

lemma boost_lawsD:
  assumes "boost_laws B"
  shows "(\<And>c. c \<in> set s \<Longrightarrow> \<not> d c) \<Longrightarrow> split_any B d s = [s]"
    and "(\<And>x. x \<in> set p \<Longrightarrow> \<not> d x) \<Longrightarrow> d c \<Longrightarrow> split_any B d (p @ c # s) = p # split_any B d s"
    and "k \<noteq> '''' \<Longrightarrow> (\<nexists>p t. s = p @ k @ t) \<Longrightarrow> replace_all B s k v = s"
    and "k \<noteq> '''' \<Longrightarrow> first_occurrence k p s \<Longrightarrow>
      replace_all B (p @ k @ s) k v = p @ v @ replace_all B s k v"
  using assms by (simp_all add: boost_laws_def del: append_assoc)

section \<open>Concrete instances\<close>

text \<open>
  A codec from an encoder and a decoder.  The header codecs below are the proto3 wire format
  for values whose varints fit one byte: a field with its default value is left out, so the
  default message is the empty string.
\<close>

definition codec_of :: "('m \<Rightarrow> string) \<Rightarrow> (string \<Rightarrow> 'm option) \<Rightarrow> 'm codec" where
  "codec_of enc dec =
     \<lparr>SerializeToString = (\<lambda>m. (True, enc m)),
      SerializeAsString = enc,
      ParseFromArray = (\<lambda>d n. if 0 \<le> n then dec (take (nat n) d) else None),
      ParseFromString = dec\<rparr>"

lemma codec_of_laws [simp]: "codec_laws (codec_of enc dec)"
  by (simp add: codec_laws_def codec_of_def)

lemma codec_of_roundtrips [simp]:
  "roundtrips (codec_of enc dec) m \<longleftrightarrow> length (enc m) < 2 ^ 31 \<and> dec (enc m) = Some m"
  by (simp add: roundtrips_def codec_of_def)

lemma codec_of_sel [simp]:
  "SerializeToString (codec_of enc dec) m = (True, enc m)"
  "SerializeAsString (codec_of enc dec) m = enc m"
  "ParseFromArray (codec_of enc dec) d n = (if 0 \<le> n then dec (take (nat n) d) else None)"
  "ParseFromString (codec_of enc dec) d = dec d"
  "wire (codec_of enc dec) m = enc m"
  by (simp_all add: codec_of_def wire_def)

definition string_field :: "char \<Rightarrow> string \<Rightarrow> string" where
  "string_field tag s = (if s = '''' then '''' else tag # char_of (length s) # s)"

definition read_string_field :: "char \<Rightarrow> string \<Rightarrow> string option" where
  "read_string_field tag d =
     (case d of
        [] \<Rightarrow> Some ''''
      | t # n # s \<Rightarrow> if t = tag \<and> of_char n = length s then Some s else None
      | _ \<Rightarrow> None)"

lemma read_string_field [simp]:
  assumes "length s < 128"
  shows "read_string_field tag (string_field tag s) = Some s"
  using assms by (simp add: read_string_field_def string_field_def)

definition text_codec :: "string codec" where
  "text_codec = codec_of (string_field (CHR 0x0A)) (read_string_field (CHR 0x0A))"

text \<open>A status as its code and message.\<close>

definition pair_absl :: "(int \<times> string) absl_api" where
  "pair_absl =
     \<lparr>mk_status = (\<lambda>c m. if c = 0 then (0, '''') else (c, m)),
      OkStatus = (0, ''''),
      InvalidArgumentError = (\<lambda>m. (3, m)),
      UnknownError = (\<lambda>m. (2, m)),
      UnimplementedError = (\<lambda>m. (12, m)),
      AbortedError = (\<lambda>m. (10, m)),
      st_ok = (\<lambda>s. fst s = 0),
      raw_code = fst,
      st_message = (\<lambda>s. if fst s = 0 then '''' else snd s),
      int_alphanum = to_string,
      kDoNotUse = 20\<rparr>"

lemma pair_absl_laws [simp]: "absl_laws pair_absl"
  by (simp add: absl_laws_def pair_absl_def)

lemma pair_absl_sel [simp]:
  "st_ok pair_absl s \<longleftrightarrow> fst s = 0" "raw_code pair_absl s = fst s"
  "st_message pair_absl s = (if fst s = 0 then '''' else snd s)" "OkStatus pair_absl = (0, '''')"
  "mk_status pair_absl c m = (if c = 0 then (0, '''') else (c, m))" "kDoNotUse pair_absl = 20"
  "InvalidArgumentError pair_absl m = (3, m)" "UnknownError pair_absl m = (2, m)"
  "UnimplementedError pair_absl m = (12, m)" "int_alphanum pair_absl i = to_string i"
  by (simp_all add: pair_absl_def)

text \<open>The Boost algorithms, computed.\<close>

fun split_ref :: "(char \<Rightarrow> bool) \<Rightarrow> string \<Rightarrow> string list" where
  "split_ref d [] = [[]]"
| "split_ref d (c # s) =
     (if d c then [] # split_ref d s
      else (case split_ref d s of [] \<Rightarrow> [[c]] | p # ps \<Rightarrow> (c # p) # ps))"

function replace_ref :: "string \<Rightarrow> string \<Rightarrow> string \<Rightarrow> string" where
  "replace_ref k v [] = []"
| "replace_ref k v (c # s) =
     (if k \<noteq> [] \<and> starts_with (c # s) k then v @ replace_ref k v (drop (length k - 1) s)
      else c # replace_ref k v s)"
  by pat_completeness auto
termination by (relation "measure (\<lambda>(k, v, s). length s)") auto

definition boost_ref :: boost_api where
  "boost_ref = \<lparr>split_any = split_ref, replace_all = (\<lambda>s k v. replace_ref k v s)\<rparr>"

lemma replace_ref_none: "(\<nexists>p t. s = p @ k @ t) \<Longrightarrow> replace_ref k v s = s"
proof (induction s)
  case (Cons c s)
  have "\<not> starts_with (c # s) k" using Cons.prems by (metis starts_with_iff append_Nil)
  moreover have "\<nexists>p t. s = p @ k @ t" using Cons.prems by (metis append_Cons)
  ultimately show ?case using Cons.IH by simp
qed simp

lemma replace_ref_first:
  assumes "k \<noteq> []"
  shows "first_occurrence k p s \<Longrightarrow> replace_ref k v (p @ k @ s) = p @ v @ replace_ref k v s"
proof (induction p)
  case Nil
  then show ?case using assms by (cases k) (auto simp: starts_with_def)
next
  case (Cons c p)
  have "\<not> starts_with ((c # p) @ k @ s) k"
    using Cons.prems unfolding first_occurrence_def starts_with_iff
    by (metis append_Nil le_zero_eq length_0_conv list.discI list.size(3))
  moreover have "first_occurrence k p s"
    using Cons.prems unfolding first_occurrence_def
    by (metis Suc_le_mono append_Cons length_Cons)
  ultimately show ?case using Cons.IH by simp
qed

lemma split_ref_plain: "(\<And>c. c \<in> set s \<Longrightarrow> \<not> d c) \<Longrightarrow> split_ref d s = [s]"
  by (induction s) auto

lemma split_ref_cut: "(\<And>x. x \<in> set p \<Longrightarrow> \<not> d x) \<Longrightarrow> d c \<Longrightarrow> split_ref d (p @ c # s) = p # split_ref d s"
  by (induction p) auto

lemma boost_ref_laws [simp]: "boost_laws boost_ref"
  unfolding boost_laws_def boost_ref_def
  by (simp add: split_ref_plain split_ref_cut replace_ref_none replace_ref_first del: append_assoc)

end
