(* ===== verification/Operation.thy ===== *)
theory Operation
  imports Status Foreign
begin

text \<open>
  The operations a service registers for a URL (Operation.hpp), the context class that carries
  results from \<open>Begin\<close> to \<open>End\<close> (AsyncAnyContext.hpp), and the routing interface with its two
  implementations: the generated \<open>Route\<close> and, in theory \<open>Request_Handler\<close>, the router.
\<close>

section \<open>Contexts\<close>

text \<open>
  A context pointer: one of the service's own contexts, compared by identity, or the context
  \<open>AsyncAnyCtx<bool>\<close> that the request handler makes when there is no other.
\<close>

datatype 'c async_ctx = UserCtx 'c | DummyCtx

text \<open>\<open>AsyncAnyCtx<T>\<close>: a callback, null until \<open>Initialize\<close>, and a content.\<close>

record ('k, 't) AsyncAnyCtx =
  any_callback :: "'k option"
  any_content :: 't

definition AsyncAnyCtx_Initialize ::
    "'k option \<Rightarrow> ('k, 't) AsyncAnyCtx \<Rightarrow> ('k, 't) AsyncAnyCtx exec" where
  "AsyncAnyCtx_Initialize callback ctx =
     ebind (deref ''callback'' callback) (\<lambda>k. Inr (ctx\<lparr>any_callback := Some k\<rparr>))"

definition AsyncAnyCtx_SetContent :: "'t \<Rightarrow> ('k, 't) AsyncAnyCtx \<Rightarrow> ('k, 't) AsyncAnyCtx" where
  "AsyncAnyCtx_SetContent content ctx = ctx\<lparr>any_content := content\<rparr>"

definition AsyncAnyCtx_GetContent :: "('k, 't) AsyncAnyCtx \<Rightarrow> 't" where
  "AsyncAnyCtx_GetContent ctx = any_content ctx"

definition AsyncAnyCtx_IsCompleted :: "('k, 't) AsyncAnyCtx \<Rightarrow> bool" where
  "AsyncAnyCtx_IsCompleted ctx = True"

definition AsyncAnyCtx_CompletedSynchronously :: "('k, 't) AsyncAnyCtx \<Rightarrow> bool" where
  "AsyncAnyCtx_CompletedSynchronously ctx = True"

definition AsyncAnyCtx_get_Callback :: "('k, 't) AsyncAnyCtx \<Rightarrow> HRESULT \<times> 'k option" where
  "AsyncAnyCtx_get_Callback ctx = (S_OK, any_callback ctx)"

definition AsyncAnyCtx_Cancel :: "('k, 't) AsyncAnyCtx \<Rightarrow> HRESULT" where
  "AsyncAnyCtx_Cancel ctx = S_OK"

section \<open>Begin operations\<close>

text \<open>
  What a begin operation does, as its caller sees it: the status, the context it stores
  through the out-parameter, the calls \<open>callback->Invoke(ctx)\<close> it makes before it returns (later
  calls are separate events), and the service's new state.
\<close>

record ('c, 'u) begin_result =
  br_status :: Status
  br_context :: "'c async_ctx option"
  br_invokes :: "'c async_ctx option list"
  br_state :: 'u

text \<open>
  \<open>IBeginOperation::Invoke(body, timeout, callback, context)\<close>; the first argument is the pair
  of \<open>steady_clock\<close> readings taken inside the call.
\<close>

type_synonym ('c, 'u) IBeginOperation =
  "int \<times> int \<Rightarrow> string \<Rightarrow> DWORD \<Rightarrow> 'u \<Rightarrow> ('c, 'u) begin_result"

definition BeginOperation_Invoke ::
    "'t codec \<Rightarrow> ('t \<Rightarrow> DWORD \<Rightarrow> 'u \<Rightarrow> ('c, 'u) begin_result) \<Rightarrow> ('c, 'u) IBeginOperation" where
  "BeginOperation_Invoke P op clk body timeoutMilliseconds u =
     (case ParseFromArray P body (int_of_size (length body)) of
        None \<Rightarrow>
          \<lparr>br_status = Status2 (code_value INVALID_ARGUMENT) ''cannot parse body'',
           br_context = None, br_invokes = [], br_state = u\<rparr>
      | Some req \<Rightarrow> op req (remaining_timeout timeoutMilliseconds clk) u)"

section \<open>End operations\<close>

text \<open>\<open>IEndOperation::Invoke(context, reply)\<close>; \<open>reply\<close> is passed by reference.\<close>

type_synonym ('c, 'u) IEndOperation =
  "build \<Rightarrow> 'c async_ctx option \<Rightarrow> string \<Rightarrow> 'u \<Rightarrow> ((Status \<times> string) \<times> 'u) exec"

definition EndOperation_Invoke ::
    "'t codec \<Rightarrow> (build \<Rightarrow> 'c async_ctx option \<Rightarrow> 'u \<Rightarrow> ((Status \<times> 't) \<times> 'u) exec) \<Rightarrow>
     ('c, 'u) IEndOperation" where
  "EndOperation_Invoke P op b context reply u =
     ebind (op b context u) (\<lambda>((err, proto), u').
     if failed err then Inr ((err, reply), u')
     else
       let (ok, s) = SerializeToString P proto
       in ebind (cxx_assert b ''ok'' ok) (\<lambda>_.
            if \<not> ok
            then Inr ((Status2 (code_value INTERNAL) ''Server cannot serialize body.'', s), u')
            else Inr ((Status0, s), u')))"

text \<open>
  A begin operation keeps the asynchronous protocol when a failing call hands out no context
  and invokes nothing, and a successful call hands out a context of its own and has invoked the
  callback with it once or not yet.
\<close>

definition follows_protocol :: "('c, 'u) begin_result \<Rightarrow> bool" where
  "follows_protocol res \<longleftrightarrow>
     (if failed (br_status res)
      then br_context res = None \<and> br_invokes res = []
      else (\<exists>c. br_context res = Some (UserCtx c) \<and> set (br_invokes res) \<subseteq> {Some (UserCtx c)} \<and>
                length (br_invokes res) \<le> 1))"

lemma BeginOperation_bad_body:
  assumes "ParseFromArray P body (int_of_size (length body)) = None"
  shows "br_status (BeginOperation_Invoke P op clk body t u) =
           Status2 (code_value INVALID_ARGUMENT) ''cannot parse body''"
    and "br_state (BeginOperation_Invoke P op clk body t u) = u"
    and "follows_protocol (BeginOperation_Invoke P op clk body t u)"
  using assms by (simp_all add: BeginOperation_Invoke_def follows_protocol_def)

lemma BeginOperation_wire:
  assumes "codec_laws P" and "roundtrips P req"
  shows "BeginOperation_Invoke P op clk (wire P req) t u = op req (remaining_timeout t clk) u"
  using roundtripsD[OF assms] by (simp add: BeginOperation_Invoke_def)

lemma BeginOperation_follows_protocol:
  assumes "\<And>req t u. follows_protocol (op req t u)"
  shows "follows_protocol (BeginOperation_Invoke P op clk body t u)"
proof (cases "ParseFromArray P body (int_of_size (length body))")
  case None
  then show ?thesis by (rule BeginOperation_bad_body)
next
  case (Some req)
  then show ?thesis by (simp add: BeginOperation_Invoke_def assms)
qed

lemma EndOperation_failed:
  assumes "op b ctx u = Inr ((err, proto), u')" and "failed err"
  shows "EndOperation_Invoke P op b ctx reply u = Inr ((err, reply), u')"
  using assms by (simp add: EndOperation_Invoke_def)

lemma EndOperation_ok:
  assumes "op b ctx u = Inr ((err, proto), u')" and "\<not> failed err" and "roundtrips P proto"
  shows "EndOperation_Invoke P op b ctx reply u = Inr ((Status0, wire P proto), u')"
  using assms
  by (auto simp: EndOperation_Invoke_def roundtrips_def wire_def split: prod.splits)

section \<open>Routing\<close>

text \<open>
  \<open>MiddleWare::Route(url, beginOp, endOp)\<close>: the two owning pointers are passed by reference and
  may be left as they were.
\<close>

type_synonym ('c, 'u) operations =
  "('c, 'u) IBeginOperation option \<times> ('c, 'u) IEndOperation option"

type_synonym ('c, 'u) MiddleWare =
  "string \<Rightarrow> ('c, 'u) operations \<Rightarrow> Status \<times> ('c, 'u) operations"

definition not_found :: "string \<Rightarrow> Status" where
  "not_found u = Status2 (code_value NOT_FOUND) (''method not found: '' @ u)"

lemma not_found_simps [simp]:
  "failed (not_found u)" "GetErrorCode (not_found u) = 5"
  "GetErrorMessage (not_found u) = ''method not found: '' @ u"
  by (simp_all add: not_found_def)

text \<open>
  The contract of a routing class: a set of URLs, each with its pair of operations; every other
  URL is answered with \<open>NOT_FOUND\<close> and leaves the out-parameters alone.
\<close>

locale middleware =
  fixes route :: "('c, 'u) MiddleWare"
    and serves :: "string \<rightharpoonup> ('c, 'u) IBeginOperation \<times> ('c, 'u) IEndOperation"
  assumes hit: "serves u = Some (bo, eo) \<Longrightarrow> route u ops = (Status0, Some bo, Some eo)"
    and miss: "serves u = None \<Longrightarrow> route u ops = (not_found u, ops)"
begin

lemma route_ok_iff: "\<not> failed (fst (route u ops)) \<longleftrightarrow> u \<in> dom serves"
proof (cases "serves u")
  case None
  then show ?thesis by (simp add: miss domIff)
next
  case (Some p)
  then show ?thesis by (cases p) (auto simp: hit)
qed

lemma route_deterministic: "fst (route u ops) = fst (route u ops')"
  by (cases "serves u") (auto simp: miss hit)

lemma route_sets_ops:
  assumes "\<not> failed (fst (route u ops))"
  shows "\<exists>bo eo. route u ops = (Status0, Some bo, Some eo) \<and> serves u = Some (bo, eo)"
  using assms route_ok_iff[of u ops] hit[of u] by fastforce

end

subsection \<open>The generated Route\<close>

text \<open>
  What the plugin generates for a service: the package and service names, and for every method
  its name and the two operations the \<open>if\<close> branch constructs.
\<close>

record ('c, 'u) generated_method =
  gm_name :: string
  gm_begin :: "('c, 'u) IBeginOperation"
  gm_end :: "('c, 'u) IEndOperation"

record ('c, 'u) generated_service =
  gs_package :: string
  gs_service :: string
  gs_methods :: "('c, 'u) generated_method list"

text \<open>The variable \<open>Package\<close> of the generator, and the URL literal of a method.\<close>

definition package_prefix :: "string \<Rightarrow> string" where
  "package_prefix package = (if package = '''' then '''' else package @ ''.'')"

definition method_url :: "string \<Rightarrow> string \<Rightarrow> string \<Rightarrow> string" where
  "method_url package service method =
     ''/'' @ package_prefix package @ service @ ''/'' @ method"

fun Route_methods ::
    "string \<Rightarrow> string \<Rightarrow> ('c, 'u) generated_method list \<Rightarrow> ('c, 'u) MiddleWare" where
  "Route_methods package service [] u ops = (not_found u, ops)"
| "Route_methods package service (m # ms) u ops =
     (if u = method_url package service (gm_name m)
      then (Status0, Some (gm_begin m), Some (gm_end m))
      else Route_methods package service ms u ops)"

definition Service_Route :: "('c, 'u) generated_service \<Rightarrow> ('c, 'u) MiddleWare" where
  "Service_Route s = Route_methods (gs_package s) (gs_service s) (gs_methods s)"

definition service_serves ::
    "('c, 'u) generated_service \<Rightarrow> string \<rightharpoonup> ('c, 'u) IBeginOperation \<times> ('c, 'u) IEndOperation" where
  "service_serves s =
     map_of (map (\<lambda>m. (method_url (gs_package s) (gs_service s) (gm_name m), gm_begin m, gm_end m))
       (gs_methods s))"

lemma Route_methods_eq:
  "Route_methods p s ms u ops =
     (case map_of (map (\<lambda>m. (method_url p s (gm_name m), gm_begin m, gm_end m)) ms) u of
        None \<Rightarrow> (not_found u, ops)
      | Some (bo, eo) \<Rightarrow> (Status0, Some bo, Some eo))"
  by (induction ms) auto

interpretation generated: middleware "Service_Route s" "service_serves s"
  for s :: "('c, 'u) generated_service"
  by unfold_locales (auto simp: Service_Route_def service_serves_def Route_methods_eq)

lemma method_url_inject [simp]: "method_url p s m = method_url p s m' \<longleftrightarrow> m = m'"
  by (simp add: method_url_def)

lemma service_serves_dom:
  "dom (service_serves s) =
     {method_url (gs_package s) (gs_service s) (gm_name m) |m. m \<in> set (gs_methods s)}"
  by (force simp: service_serves_def dom_map_of_conv_image_fst)

end
