(* ===== verification/FRPC_Header.thy ===== *)
theory FRPC_Header
  imports Foreign
begin

text \<open>
  The two RPC headers and their conversion to bytes (FRPCHeader.hpp, FRPCHeader.cpp,
  protos/fabricrpc.proto).  The converter is a template over the generated protobuf classes;
  here it is a function of their codecs.
\<close>

section \<open>Headers\<close>

text \<open>The messages of fabricrpc.proto; the header classes have the same fields.\<close>

record request_header =
  url :: string

record reply_header =
  status_code :: int
  status_message :: string

lemma request_header_eta [simp]: "\<lparr>url = url h\<rparr> = h"
  by simp

lemma reply_header_eta [simp]:
  "\<lparr>status_code = status_code h, status_message = status_message h\<rparr> = h"
  by simp

type_synonym FabricRPCRequestHeader = request_header
type_synonym FabricRPCReplyHeader = reply_header

definition mk_FabricRPCRequestHeader :: FabricRPCRequestHeader where
  "mk_FabricRPCRequestHeader = \<lparr>url = ''''\<rparr>"

definition GetUrl :: "FabricRPCRequestHeader \<Rightarrow> string" where
  "GetUrl h = url h"

definition SetUrl :: "string \<Rightarrow> FabricRPCRequestHeader \<Rightarrow> FabricRPCRequestHeader" where
  "SetUrl u h = h\<lparr>url := u\<rparr>"

definition mk_FabricRPCReplyHeader :: FabricRPCReplyHeader where
  "mk_FabricRPCReplyHeader = \<lparr>status_code = 0, status_message = ''''\<rparr>"

definition GetStatusCode :: "FabricRPCReplyHeader \<Rightarrow> int" where
  "GetStatusCode h = status_code h"

definition SetStatusCode :: "int \<Rightarrow> FabricRPCReplyHeader \<Rightarrow> FabricRPCReplyHeader" where
  "SetStatusCode c h = h\<lparr>status_code := c\<rparr>"

definition GetStatusMessage :: "FabricRPCReplyHeader \<Rightarrow> string" where
  "GetStatusMessage h = status_message h"

definition SetStatusMessage :: "string \<Rightarrow> FabricRPCReplyHeader \<Rightarrow> FabricRPCReplyHeader" where
  "SetStatusMessage m h = h\<lparr>status_message := m\<rparr>"

lemmas header_defs =
  mk_FabricRPCRequestHeader_def GetUrl_def SetUrl_def mk_FabricRPCReplyHeader_def
  GetStatusCode_def SetStatusCode_def GetStatusMessage_def SetStatusMessage_def

section \<open>The converter interface and its template implementation\<close>

text \<open>
  \<open>IFabricRPCHeaderProtoConverter\<close>: the serializers return a flag and the string they wrote,
  the deserializers return a flag and the header they filled.
\<close>

record IFabricRPCHeaderProtoConverter =
  SerializeRequestHeader :: "FabricRPCRequestHeader \<Rightarrow> bool \<times> string"
  SerializeReplyHeader :: "FabricRPCReplyHeader \<Rightarrow> bool \<times> string"
  DeserializeRequestHeader ::
    "string \<Rightarrow> FabricRPCRequestHeader \<Rightarrow> bool \<times> FabricRPCRequestHeader"
  DeserializeReplyHeader ::
    "string \<Rightarrow> FabricRPCReplyHeader \<Rightarrow> bool \<times> FabricRPCReplyHeader"

definition Converter_SerializeRequestHeader ::
    "request_header codec \<Rightarrow> FabricRPCRequestHeader \<Rightarrow> bool \<times> string" where
  "Converter_SerializeRequestHeader Q request =
     (let header = \<lparr>url = GetUrl request\<rparr> in SerializeToString Q header)"

definition Converter_SerializeReplyHeader ::
    "reply_header codec \<Rightarrow> FabricRPCReplyHeader \<Rightarrow> bool \<times> string" where
  "Converter_SerializeReplyHeader R reply =
     (let header = \<lparr>status_code = GetStatusCode reply, status_message = GetStatusMessage reply\<rparr>
      in SerializeToString R header)"

definition Converter_DeserializeRequestHeader ::
    "request_header codec \<Rightarrow> string \<Rightarrow> FabricRPCRequestHeader
       \<Rightarrow> bool \<times> FabricRPCRequestHeader" where
  "Converter_DeserializeRequestHeader Q data request =
     (case ParseFromArray Q data (int_of_size (length data)) of
        None \<Rightarrow> (False, request)
      | Some header \<Rightarrow> (True, SetUrl (url header) request))"

definition Converter_DeserializeReplyHeader ::
    "reply_header codec \<Rightarrow> string \<Rightarrow> FabricRPCReplyHeader \<Rightarrow> bool \<times> FabricRPCReplyHeader" where
  "Converter_DeserializeReplyHeader R data reply =
     (case ParseFromArray R data (int_of_size (length data)) of
        None \<Rightarrow> (False, reply)
      | Some header \<Rightarrow>
          (True, SetStatusMessage (status_message header)
                   (SetStatusCode (status_code header) reply)))"

definition FabricRPCHeaderProtoConverter ::
    "request_header codec \<Rightarrow> reply_header codec \<Rightarrow> IFabricRPCHeaderProtoConverter" where
  "FabricRPCHeaderProtoConverter Q R =
     \<lparr>SerializeRequestHeader = Converter_SerializeRequestHeader Q,
      SerializeReplyHeader = Converter_SerializeReplyHeader R,
      DeserializeRequestHeader = Converter_DeserializeRequestHeader Q,
      DeserializeReplyHeader = Converter_DeserializeReplyHeader R\<rparr>"

lemmas converter_defs =
  FabricRPCHeaderProtoConverter_def Converter_SerializeRequestHeader_def
  Converter_SerializeReplyHeader_def Converter_DeserializeRequestHeader_def
  Converter_DeserializeReplyHeader_def

section \<open>The contract of a converter\<close>

text \<open>
  What the request handler and the client helpers need of a converter: on the headers that
  survive the wire (\<open>sendable_req\<close>, \<open>sendable_rep\<close>) serializing succeeds, and deserializing the
  bytes overwrites any header with the one that was sent.
\<close>

locale header_converter =
  fixes cv :: IFabricRPCHeaderProtoConverter
    and sendable_req :: "request_header \<Rightarrow> bool"
    and sendable_rep :: "reply_header \<Rightarrow> bool"
    and req_wire :: "request_header \<Rightarrow> string"
    and rep_wire :: "reply_header \<Rightarrow> string"
  assumes ser_req: "sendable_req h \<Longrightarrow> SerializeRequestHeader cv h = (True, req_wire h)"
    and ser_rep: "sendable_rep r \<Longrightarrow> SerializeReplyHeader cv r = (True, rep_wire r)"
    and des_req: "sendable_req h \<Longrightarrow> DeserializeRequestHeader cv (req_wire h) h0 = (True, h)"
    and des_rep: "sendable_rep r \<Longrightarrow> DeserializeReplyHeader cv (rep_wire r) r0 = (True, r)"
begin

lemma request_transfer:
  assumes "sendable_req h"
  shows "DeserializeRequestHeader cv (snd (SerializeRequestHeader cv h)) h0 = (True, h)"
  using assms by (simp add: ser_req des_req)

lemma reply_transfer:
  assumes "sendable_rep r"
  shows "DeserializeReplyHeader cv (snd (SerializeReplyHeader cv r)) r0 = (True, r)"
  using assms by (simp add: ser_rep des_rep)

lemma req_wire_inj:
  assumes "sendable_req h" and "sendable_req h'" and "req_wire h = req_wire h'"
  shows "h = h'"
  using des_req[OF assms(1), of h] des_req[OF assms(2), of h] assms(3)
  by (metis prod.inject)

lemma rep_wire_inj:
  assumes "sendable_rep r" and "sendable_rep r'" and "rep_wire r = rep_wire r'"
  shows "r = r'"
  using des_rep[OF assms(1), of r] des_rep[OF assms(2), of r] assms(3)
  by (metis prod.inject)

end

interpretation proto_converter: header_converter
  "FabricRPCHeaderProtoConverter Q R"
  "\<lambda>h. codec_laws Q \<and> roundtrips Q h" "\<lambda>r. codec_laws R \<and> roundtrips R r"
  "wire Q" "wire R"
  for Q :: "request_header codec" and R :: "reply_header codec"
  by unfold_locales
    (auto simp: converter_defs header_defs Let_def roundtripsD)

section \<open>Concrete header codecs\<close>

definition request_header_codec :: "request_header codec" where
  "request_header_codec =
     codec_of (\<lambda>h. string_field (CHR 0x0A) (url h))
       (\<lambda>d. map_option (\<lambda>u. \<lparr>url = u\<rparr>) (read_string_field (CHR 0x0A) d))"

definition reply_header_codec :: "reply_header codec" where
  "reply_header_codec =
     codec_of
       (\<lambda>h. (if status_code h = 0 then '''' else [CHR 0x08, char_of (nat (status_code h))])
             @ string_field (CHR 0x12) (status_message h))
       (\<lambda>d. case d of
          [] \<Rightarrow> Some \<lparr>status_code = 0, status_message = ''''\<rparr>
        | t # r \<Rightarrow>
            (if t = CHR 0x08 then
               (case r of [] \<Rightarrow> None
                | c # s \<Rightarrow> map_option (\<lambda>m. \<lparr>status_code = int (of_char c), status_message = m\<rparr>)
                              (read_string_field (CHR 0x12) s))
             else map_option (\<lambda>m. \<lparr>status_code = 0, status_message = m\<rparr>)
                    (read_string_field (CHR 0x12) d)))"

lemma request_header_codec_laws [simp]: "codec_laws request_header_codec"
  by (simp add: request_header_codec_def)

lemma reply_header_codec_laws [simp]: "codec_laws reply_header_codec"
  by (simp add: reply_header_codec_def)

lemma request_header_codec_roundtrips [simp]:
  assumes "length (url h) < 128"
  shows "roundtrips request_header_codec h"
  using assms by (simp add: request_header_codec_def) (simp add: string_field_def)

lemma reply_header_codec_roundtrips [simp]:
  assumes "0 \<le> status_code h" and "status_code h < 128" and "length (status_message h) < 128"
  shows "roundtrips reply_header_codec h"
  using assms
  by (auto simp: reply_header_codec_def string_field_def read_string_field_def split: list.splits)

end
