(* ===== verification/Transport_Message.thy ===== *)
theory Transport_Message
  imports Foreign
begin

text \<open>
  Transport messages: what \<open>IFabricTransportMessage::GetHeaderAndBodyBuffer\<close> exposes, the
  helpers that read it, and the two classes that implement it: \<open>FRPCTransportMessage\<close> of
  src/fabric_rpc and \<open>tool_transport_msg\<close> of src/tool.
\<close>

section \<open>The message interface\<close>

text \<open>
  A \<open>FABRIC_TRANSPORT_MESSAGE_BUFFER\<close> points to allocated bytes (\<open>Buffer\<close>) and states how many
  of them belong to the message (\<open>BufferSize\<close>).  A message hands out one header buffer, which
  may be null, and an array of body buffers with its length.
\<close>

record message_buffer =
  Buffer :: string
  BufferSize :: ULONG

record IFabricTransportMessage =
  headerBuffer :: "message_buffer option"
  msgBufferCount :: ULONG
  MsgBuffers :: "message_buffer list"

text \<open>\<open>std::string(buf->Buffer, buf->Buffer + buf->BufferSize)\<close>\<close>

definition buffer_string :: "message_buffer \<Rightarrow> string exec" where
  "buffer_string buf =
     (if unat (BufferSize buf) \<le> length (Buffer buf)
      then Inr (take (unat (BufferSize buf)) (Buffer buf))
      else Inl (OutOfBounds ''Buffer''))"

text \<open>The loop that concatenates the body chunks, from index \<open>i\<close>.\<close>

function body_loop :: "message_buffer list \<Rightarrow> nat \<Rightarrow> nat \<Rightarrow> string \<Rightarrow> string exec" where
  "body_loop msgbuf msgcount i body =
     (if i < msgcount then
        (if i < length msgbuf
         then ebind (buffer_string (msgbuf ! i))
                (\<lambda>msg_str. body_loop msgbuf msgcount (Suc i) (body @ msg_str))
         else Inl (OutOfBounds ''MsgBuffers''))
      else Inr body)"
  by pat_completeness auto
termination
  by (relation "measure (\<lambda>(_, msgcount, i, _). msgcount - i)") auto

declare body_loop.simps [simp del]

text \<open>The free functions of tool_transport_msg.cpp.\<close>

definition get_header :: "IFabricTransportMessage option \<Rightarrow> string exec" where
  "get_header message =
     (case message of
        None \<Rightarrow> Inr ''''
      | Some m \<Rightarrow>
          (case headerBuffer m of
             None \<Rightarrow> Inr ''''
           | Some headerbuf \<Rightarrow> buffer_string headerbuf))"

definition get_body :: "IFabricTransportMessage option \<Rightarrow> string exec" where
  "get_body message =
     (case message of
        None \<Rightarrow> Inr ''''
      | Some m \<Rightarrow> body_loop (MsgBuffers m) (unat (msgBufferCount m)) 0 '''')"

text \<open>
  The transport's client, used by both libraries and part of neither: a record of the two
  operations of \<open>IFabricTransportClient\<close> the code calls, over a transport state \<open>'w\<close>.
\<close>

text \<open>A message is passed to the transport as the buffers it exposes.\<close>

record ('x, 'w) IFabricTransportClient =
  BeginRequest :: "IFabricTransportMessage \<Rightarrow> DWORD \<Rightarrow> 'w \<Rightarrow> (HRESULT \<times> 'x option) \<times> 'w"
  EndRequest :: "'x option \<Rightarrow> 'w \<Rightarrow> (HRESULT \<times> IFabricTransportMessage option) \<times> 'w"

subsection \<open>What the readers compute\<close>

text \<open>
  The contract of a message: the array has the length it states and no buffer claims more
  bytes than it has.  Its header text and body text are then the reference reading.
\<close>

definition wf_buffer :: "message_buffer \<Rightarrow> bool" where
  "wf_buffer buf \<longleftrightarrow> unat (BufferSize buf) \<le> length (Buffer buf)"

definition wf_msg :: "IFabricTransportMessage \<Rightarrow> bool" where
  "wf_msg m \<longleftrightarrow> unat (msgBufferCount m) = length (MsgBuffers m) \<and>
     list_all wf_buffer (MsgBuffers m) \<and> pred_option wf_buffer (headerBuffer m)"

definition buffer_text :: "message_buffer \<Rightarrow> string" where
  "buffer_text buf = take (unat (BufferSize buf)) (Buffer buf)"

definition header_text :: "IFabricTransportMessage \<Rightarrow> string" where
  "header_text m = (case headerBuffer m of None \<Rightarrow> '''' | Some buf \<Rightarrow> buffer_text buf)"

definition body_text :: "IFabricTransportMessage \<Rightarrow> string" where
  "body_text m = concat (map buffer_text (MsgBuffers m))"

lemma buffer_string_wf: "wf_buffer buf \<Longrightarrow> buffer_string buf = Inr (buffer_text buf)"
  by (simp add: wf_buffer_def buffer_string_def buffer_text_def)

lemma body_loop_wf:
  assumes "list_all wf_buffer msgbuf" and "i \<le> length msgbuf"
  shows "body_loop msgbuf (length msgbuf) i body =
           Inr (body @ concat (map buffer_text (drop i msgbuf)))"
  using assms
proof (induction "length msgbuf - i" arbitrary: i body)
  case 0
  then show ?case by (simp add: body_loop.simps)
next
  case (Suc k)
  then have i: "i < length msgbuf" by simp
  with Suc.prems have "wf_buffer (msgbuf ! i)" by (simp add: list_all_length)
  moreover have "drop i msgbuf = msgbuf ! i # drop (Suc i) msgbuf"
    using i by (simp add: Cons_nth_drop_Suc)
  ultimately show ?case
    using Suc.hyps(1)[of "Suc i" "body @ buffer_text (msgbuf ! i)"] Suc.hyps(2) Suc.prems i
    by (simp add: body_loop.simps[of msgbuf "length msgbuf" i body] buffer_string_wf)
qed

lemma get_header_wf: "wf_msg m \<Longrightarrow> get_header (Some m) = Inr (header_text m)"
  by (auto simp: get_header_def wf_msg_def header_text_def buffer_string_wf split: option.splits)

lemma get_body_wf: "wf_msg m \<Longrightarrow> get_body (Some m) = Inr (body_text m)"
  by (simp add: get_body_def wf_msg_def body_text_def body_loop_wf)

text \<open>A count larger than the array runs past its end.\<close>

lemma body_loop_overrun:
  assumes "length msgbuf < msgcount" and "i \<le> length msgbuf"
  shows "\<not> returns (body_loop msgbuf msgcount i body)"
  using assms
proof (induction msgbuf msgcount i body rule: body_loop.induct)
  case (1 msgbuf msgcount i body)
  then show ?case
    by (cases "buffer_string (msgbuf ! i)") (simp_all add: body_loop.simps[of _ _ i])
qed

section \<open>tool_transport_msg\<close>

record tool_transport_msg =
  tool_body :: string
  tool_headers :: string

definition mk_tool_transport_msg :: "string \<Rightarrow> string \<Rightarrow> tool_transport_msg" where
  "mk_tool_transport_msg body headers = \<lparr>tool_body = body, tool_headers = headers\<rparr>"

text \<open>The out-parameters are given by whether they are non-null; nothing is written otherwise.\<close>

definition tool_GetHeaderAndBodyBuffer ::
    "tool_transport_msg \<Rightarrow> bool \<Rightarrow> bool \<Rightarrow> bool \<Rightarrow> IFabricTransportMessage option" where
  "tool_GetHeaderAndBodyBuffer m headerBuffer_ok msgBufferCount_ok MsgBuffers_ok =
     (if \<not> headerBuffer_ok \<or> \<not> msgBufferCount_ok \<or> \<not> MsgBuffers_ok then None
      else Some
        \<lparr>headerBuffer =
           Some \<lparr>Buffer = tool_headers m, BufferSize = ulong_of_size (length (tool_headers m))\<rparr>,
         msgBufferCount = 1,
         MsgBuffers =
           [\<lparr>Buffer = tool_body m, BufferSize = ulong_of_size (length (tool_body m))\<rparr>]\<rparr>)"

text \<open>The message as its readers see it.\<close>

definition tool_message :: "string \<Rightarrow> string \<Rightarrow> IFabricTransportMessage" where
  "tool_message body headers =
     the (tool_GetHeaderAndBodyBuffer (mk_tool_transport_msg body headers) True True True)"

section \<open>FRPCTransportMessage\<close>

text \<open>
  The constructor leaves the two buffer descriptors uninitialised; \<open>Initialize\<close> sets them.
\<close>

record FRPCTransportMessage =
  frpc_body :: string
  frpc_body_ret :: "message_buffer option"
  frpc_header :: string
  frpc_header_ret :: "message_buffer option"

definition mk_FRPCTransportMessage :: FRPCTransportMessage where
  "mk_FRPCTransportMessage =
     \<lparr>frpc_body = '''', frpc_body_ret = None, frpc_header = '''', frpc_header_ret = None\<rparr>"

definition FRPC_get_header :: "IFabricTransportMessage option \<Rightarrow> string exec" where
  "FRPC_get_header message =
     (case message of
        None \<Rightarrow> Inr ''''
      | Some m \<Rightarrow>
          (case headerBuffer m of
             None \<Rightarrow> Inr ''''
           | Some headerbuf \<Rightarrow> buffer_string headerbuf))"

definition FRPC_get_body :: "IFabricTransportMessage option \<Rightarrow> string exec" where
  "FRPC_get_body message =
     (case message of
        None \<Rightarrow> Inr ''''
      | Some m \<Rightarrow> body_loop (MsgBuffers m) (unat (msgBufferCount m)) 0 '''')"

definition FRPC_Initialize ::
    "string \<Rightarrow> string \<Rightarrow> FRPCTransportMessage \<Rightarrow> FRPCTransportMessage" where
  "FRPC_Initialize header body m =
     m\<lparr>frpc_header := header, frpc_body := body,
       frpc_header_ret :=
         Some \<lparr>Buffer = header, BufferSize = ulong_of_size (length header)\<rparr>,
       frpc_body_ret :=
         Some \<lparr>Buffer = body, BufferSize = ulong_of_size (length body)\<rparr>\<rparr>"

definition FRPC_CopyMsg ::
    "IFabricTransportMessage option \<Rightarrow> FRPCTransportMessage \<Rightarrow> FRPCTransportMessage exec" where
  "FRPC_CopyMsg other m =
     ebind (FRPC_get_body other) (\<lambda>body.
     ebind (FRPC_get_header other) (\<lambda>header.
     Inr (FRPC_Initialize header body m)))"

definition FRPC_GetHeader :: "FRPCTransportMessage \<Rightarrow> string" where
  "FRPC_GetHeader m = frpc_header m"

definition FRPC_GetBody :: "FRPCTransportMessage \<Rightarrow> string" where
  "FRPC_GetBody m = frpc_body m"

definition FRPC_GetHeaderAndBodyBuffer ::
    "FRPCTransportMessage \<Rightarrow> IFabricTransportMessage exec" where
  "FRPC_GetHeaderAndBodyBuffer m =
     (case (frpc_header_ret m, frpc_body_ret m) of
        (Some hb, Some bb) \<Rightarrow>
          Inr \<lparr>headerBuffer = Some hb, msgBufferCount = 1, MsgBuffers = [bb]\<rparr>
      | _ \<Rightarrow> Inl (Uninitialised ''header_ret_, body_ret_''))"

lemmas frpc_message_defs =
  mk_FRPCTransportMessage_def FRPC_Initialize_def FRPC_GetHeader_def FRPC_GetBody_def
  FRPC_GetHeaderAndBodyBuffer_def

lemma FRPC_readers_eq: "FRPC_get_header = get_header" "FRPC_get_body = get_body"
  by (auto simp: fun_eq_iff FRPC_get_header_def get_header_def FRPC_get_body_def get_body_def)

section \<open>The contract of a message class\<close>

text \<open>
  Both classes promise that what was put in can be read back, as far as the 32-bit size fields
  reach.  \<open>make\<close> builds the object from header and body, \<open>view\<close> is \<open>GetHeaderAndBodyBuffer\<close>.
\<close>

locale transport_message =
  fixes make :: "string \<Rightarrow> string \<Rightarrow> 'm"
    and view :: "'m \<Rightarrow> IFabricTransportMessage exec"
  assumes view_make:
    "\<exists>v. view (make h b) = Inr v \<and> wf_msg v \<and>
         header_text v = take (length h mod 2 ^ 32) h \<and>
         body_text v = take (length b mod 2 ^ 32) b"
begin

lemma readable: "\<exists>v. view (make h b) = Inr v \<and> wf_msg v"
  using view_make by blast

lemma read_back:
  assumes "length h < 2 ^ 32" and "length b < 2 ^ 32"
  shows "ebind (view (make h b)) (\<lambda>v. get_header (Some v)) = Inr h"
    and "ebind (view (make h b)) (\<lambda>v. get_body (Some v)) = Inr b"
  using view_make[of h b] assms by (auto simp: get_header_wf get_body_wf)

lemma read_truncated:
  "ebind (view (make h b)) (\<lambda>v. get_body (Some v)) = Inr (take (length b mod 2 ^ 32) b)"
  using view_make[of h b] by (auto simp: get_body_wf)

lemma copy_of:
  assumes "length h < 2 ^ 32" and "length b < 2 ^ 32"
  shows "ebind (view (make h b)) (\<lambda>v. FRPC_CopyMsg (Some v) m) = Inr (FRPC_Initialize h b m)"
  using view_make[of h b] assms
  by (auto simp: FRPC_CopyMsg_def FRPC_readers_eq get_header_wf get_body_wf)

end

interpretation tool_msg: transport_message
  "\<lambda>h b. mk_tool_transport_msg b h"
  "\<lambda>m. deref ''message'' (tool_GetHeaderAndBodyBuffer m True True True)"
  by unfold_locales
    (simp add: tool_GetHeaderAndBodyBuffer_def mk_tool_transport_msg_def wf_msg_def wf_buffer_def
      header_text_def body_text_def buffer_text_def unat_ulong_of_size)

interpretation frpc_msg: transport_message
  "\<lambda>h b. FRPC_Initialize h b mk_FRPCTransportMessage" FRPC_GetHeaderAndBodyBuffer
  by unfold_locales
    (simp add: frpc_message_defs wf_msg_def wf_buffer_def header_text_def body_text_def
      buffer_text_def unat_ulong_of_size)

lemma tool_message_wf [simp]: "wf_msg (tool_message b h)"
  using tool_msg.readable[where h = h and b = b]
  by (auto simp: tool_message_def tool_GetHeaderAndBodyBuffer_def)

lemma get_header_tool [simp]:
  assumes "length h < 2 ^ 32"
  shows "get_header (Some (tool_message b h)) = Inr h"
proof -
  have "header_text (tool_message b h) = h"
    using assms
    by (simp add: tool_message_def tool_GetHeaderAndBodyBuffer_def mk_tool_transport_msg_def
        header_text_def buffer_text_def)
  then show ?thesis by (simp add: get_header_wf)
qed

lemma get_body_tool [simp]:
  assumes "length b < 2 ^ 32"
  shows "get_body (Some (tool_message b h)) = Inr b"
proof -
  have "body_text (tool_message b h) = b"
    using assms
    by (simp add: tool_message_def tool_GetHeaderAndBodyBuffer_def mk_tool_transport_msg_def
        body_text_def buffer_text_def)
  then show ?thesis by (simp add: get_body_wf)
qed

lemma FRPC_Initialize_get [simp]:
  "FRPC_GetHeader (FRPC_Initialize h b m) = h" "FRPC_GetBody (FRPC_Initialize h b m) = b"
  by (simp_all add: frpc_message_defs)

lemma FRPC_CopyMsg_wf:
  "wf_msg v \<Longrightarrow> FRPC_CopyMsg (Some v) m = Inr (FRPC_Initialize (header_text v) (body_text v) m)"
  by (simp add: FRPC_CopyMsg_def FRPC_readers_eq get_header_wf get_body_wf)

lemma FRPC_CopyMsg_null: "FRPC_CopyMsg None m = Inr (FRPC_Initialize '''' '''' m)"
  by (simp add: FRPC_CopyMsg_def FRPC_get_body_def FRPC_get_header_def)

text \<open>The view of an initialised message, and what is left of its texts.\<close>

lemma FRPC_view:
  assumes "length h < 2 ^ 32" and "length b < 2 ^ 32"
  obtains v where "FRPC_GetHeaderAndBodyBuffer (FRPC_Initialize h b m) = Inr v"
    and "wf_msg v" and "header_text v = h" and "body_text v = b"
proof
  let ?v = "\<lparr>headerBuffer = Some \<lparr>Buffer = h, BufferSize = ulong_of_size (length h)\<rparr>,
             msgBufferCount = 1,
             MsgBuffers = [\<lparr>Buffer = b, BufferSize = ulong_of_size (length b)\<rparr>]\<rparr>"
  show "FRPC_GetHeaderAndBodyBuffer (FRPC_Initialize h b m) = Inr ?v"
    by (simp add: frpc_message_defs)
  show "wf_msg ?v" "header_text ?v = h" "body_text ?v = b"
    using assms by (simp_all add: wf_msg_def wf_buffer_def header_text_def body_text_def buffer_text_def)
qed

text \<open>
  The reader of the body on any message: it returns exactly when the count stays within the
  array and no buffer up to it overstates its size, and then the chunks in order.
\<close>

definition readable_chunks :: "message_buffer list \<Rightarrow> nat \<Rightarrow> bool" where
  "readable_chunks bufs n \<longleftrightarrow> n \<le> length bufs \<and> list_all wf_buffer (take n bufs)"

lemma body_loop_bad_chunk:
  assumes "i \<le> k" and "k < n" and "k < length bufs" and "\<not> wf_buffer (bufs ! k)"
  shows "\<not> returns (body_loop bufs n i acc)"
  using assms
proof (induction bufs n i acc rule: body_loop.induct)
  case (1 bufs n i acc)
  show ?case
  proof (cases "buffer_string (bufs ! i)")
    case (Inl e)
    then show ?thesis using 1 by (simp add: body_loop.simps[of _ _ i])
  next
    case (Inr x)
    then have "i \<noteq> k" using 1 by (auto simp: buffer_string_def wf_buffer_def split: if_splits)
    then show ?thesis using 1 Inr by (simp add: body_loop.simps[of _ _ i])
  qed
qed

lemma body_loop_take:
  assumes "n \<le> length bufs" and "list_all wf_buffer (take n bufs)"
  shows "body_loop bufs n i acc = body_loop (take n bufs) n i acc"
  using assms
proof (induction bufs n i acc rule: body_loop.induct)
  case (1 bufs n i acc)
  then show ?case
    by (cases "buffer_string (bufs ! i)")
      (simp_all add: body_loop.simps[of bufs n i acc] body_loop.simps[of "take n bufs" n i acc])
qed

lemma get_body_spec:
  "readable_chunks (MsgBuffers m) (unat (msgBufferCount m)) \<Longrightarrow>
     get_body (Some m) = Inr (concat (map buffer_text (take (unat (msgBufferCount m)) (MsgBuffers m))))"
  "returns (get_body (Some m)) \<Longrightarrow> readable_chunks (MsgBuffers m) (unat (msgBufferCount m))"
proof -
  let ?bufs = "MsgBuffers m" and ?n = "unat (msgBufferCount m)"
  show "get_body (Some m) = Inr (concat (map buffer_text (take ?n ?bufs)))"
    if "readable_chunks ?bufs ?n"
    using that body_loop_take[of ?n ?bufs 0 "''''"] body_loop_wf[of "take ?n ?bufs" 0 "''''"]
    by (simp add: readable_chunks_def get_body_def min_absorb2)
  show "readable_chunks ?bufs ?n" if ret: "returns (get_body (Some m))"
  proof (rule ccontr)
    assume no: "\<not> readable_chunks ?bufs ?n"
    show False
    proof (cases "?n \<le> length ?bufs")
      case True
      with no obtain k where "k < ?n" "k < length ?bufs" "\<not> wf_buffer (?bufs ! k)"
        by (auto simp: readable_chunks_def list_all_length)
      with body_loop_bad_chunk[of 0 k ?n ?bufs "''''"] ret show False by (simp add: get_body_def)
    next
      case False
      with body_loop_overrun[of ?bufs ?n 0 "''''"] ret show False by (simp add: get_body_def)
    qed
  qed
qed

lemma body_loop_fault: "body_loop bufs n i acc = Inl e \<Longrightarrow> \<exists>w. e = OutOfBounds w"
proof (induction bufs n i acc rule: body_loop.induct)
  case (1 bufs n i acc)
  then show ?case
    by (cases "buffer_string (bufs ! i)")
      (auto simp: body_loop.simps[of bufs n i acc] buffer_string_def split: if_splits)
qed

lemma get_body_cases:
  "\<exists>w. get_body (Some m) =
     (if readable_chunks (MsgBuffers m) (unat (msgBufferCount m))
      then Inr (concat (map buffer_text (take (unat (msgBufferCount m)) (MsgBuffers m))))
      else Inl (OutOfBounds w))"
proof (cases "get_body (Some m)")
  case (Inl e)
  then have "\<not> readable_chunks (MsgBuffers m) (unat (msgBufferCount m))"
    using get_body_spec(1)[of m] by auto
  moreover obtain w where "e = OutOfBounds w" using Inl by (auto simp: get_body_def dest: body_loop_fault)
  ultimately show ?thesis using Inl by auto
next
  case (Inr s)
  then have "readable_chunks (MsgBuffers m) (unat (msgBufferCount m))"
    using get_body_spec(2)[of m] by simp
  then show ?thesis using get_body_spec(1) by simp
qed

end
