(* ===== verification/Request_Handler.thy ===== *)
theory Request_Handler
  imports Operation FRPC_Header Transport_Message
begin

text \<open>
  The server side of src/fabric_rpc (FRPCRequestHandler.cpp): the router, the payload carried
  from \<open>BeginProcessRequest\<close> to \<open>EndProcessRequest\<close>, the callback proxy, and the handler.
  The state of a request is a value that every operation takes and returns; calls of the
  transport's callback are recorded with the payload the transport can see at that moment.
\<close>

section \<open>FRPCRouter\<close>

fun FRPCRouter_Route :: "('c, 'u) MiddleWare list \<Rightarrow> ('c, 'u) MiddleWare" where
  "FRPCRouter_Route [] u ops = (not_found u, ops)"
| "FRPCRouter_Route (svc # svcList) u ops =
     (let (ec, ops') = svc u ops
      in if \<not> failed ec then (Status0, ops') else FRPCRouter_Route svcList u ops')"

text \<open>What a router serves: the first service of the list that serves the URL.\<close>

fun first_serves :: "(string \<rightharpoonup> 'b) list \<Rightarrow> string \<rightharpoonup> 'b" where
  "first_serves [] u = None"
| "first_serves (s # ss) u = (case s u of None \<Rightarrow> first_serves ss u | Some p \<Rightarrow> Some p)"

text \<open>
  A router over classes that keep the routing contract keeps it too, so routers nest.  \<open>svcs\<close>
  pairs each class with the URLs it serves.
\<close>

locale routers =
  fixes svcs :: "(('c, 'u) MiddleWare \<times>
                   (string \<rightharpoonup> ('c, 'u) IBeginOperation \<times> ('c, 'u) IEndOperation)) list"
  assumes members: "(route, serves) \<in> set svcs \<Longrightarrow> middleware route serves"

sublocale routers \<subseteq> middleware "FRPCRouter_Route (map fst svcs)" "first_serves (map snd svcs)"
proof
  show "FRPCRouter_Route (map fst svcs) u ops = (Status0, Some bo, Some eo)"
    if "first_serves (map snd svcs) u = Some (bo, eo)" for u bo eo ops
    using members that
  proof (induction svcs)
    case (Cons sv svcs)
    obtain r s where sv: "sv = (r, s)" by (cases sv)
    then have mw: "middleware r s" using Cons.prems(1) by auto
    show ?case
    proof (cases "s u")
      case None
      then have "r u ops = (not_found u, ops)" by (rule middleware.miss[OF mw])
      with None Cons sv show ?thesis by simp
    next
      case (Some p)
      with Cons.prems(2) sv have "s u = Some (bo, eo)" by simp
      then have "r u ops = (Status0, Some bo, Some eo)" by (rule middleware.hit[OF mw])
      then show ?thesis by (simp add: sv)
    qed
  qed simp
  show "FRPCRouter_Route (map fst svcs) u ops = (not_found u, ops)"
    if "first_serves (map snd svcs) u = None" for u ops
    using members that
  proof (induction svcs)
    case (Cons sv svcs)
    obtain r s where sv: "sv = (r, s)" by (cases sv)
    then have mw: "middleware r s" using Cons.prems(1) by auto
    have "s u = None" using Cons.prems(2) sv by (simp split: option.splits)
    then have "r u ops = (not_found u, ops)" by (rule middleware.miss[OF mw])
    with Cons sv \<open>s u = None\<close> show ?case by simp
  qed simp
qed

text \<open>The router of a server: one generated \<open>Route\<close> per service.\<close>

interpretation service_router: routers
  "map (\<lambda>s. (Service_Route s, service_serves s)) svcs"
  for svcs :: "('c, 'u) generated_service list"
  by (rule routers.intro) (auto intro: generated.middleware_axioms)

section \<open>The payload of a request\<close>

record ('c, 'u) ctxPayload =
  endOp :: "('c, 'u) IEndOperation option"
  beginStatus :: Status
  innerCtx :: "'c async_ctx option"

definition new_ctxPayload :: "('c, 'u) ctxPayload" where
  "new_ctxPayload = \<lparr>endOp = None, beginStatus = Status0, innerCtx = None\<rparr>"

text \<open>Under the payload's mutex: store the context, or check that it is the stored one.\<close>

definition SetInnerCtx ::
    "build \<Rightarrow> 'c async_ctx option \<Rightarrow> ('c, 'u) ctxPayload \<Rightarrow> ('c, 'u) ctxPayload exec" where
  "SetInnerCtx b context p =
     (case innerCtx p of
        None \<Rightarrow> ebind (deref ''context'' context) (\<lambda>c. Inr (p\<lparr>innerCtx := Some c\<rparr>))
      | Some _ \<Rightarrow>
          ebind (cxx_assert b ''innerCtx == context'' (innerCtx p = context)) (\<lambda>_. Inr p))"

section \<open>FRPCOperationCallback\<close>

text \<open>
  The proxy the service invokes: whether it still holds the transport's callback and the
  context of the request.  A request in progress is the payload, the proxy, and the list of
  payloads the transport has been shown by \<open>transportCallback_->Invoke\<close>, oldest first.
\<close>

record FRPCOperationCallback =
  transportCallback :: bool
  wrapCtx :: bool

record ('c, 'u) request_run =
  run_payload :: "('c, 'u) ctxPayload"
  run_callback :: FRPCOperationCallback
  run_invoked :: "('c, 'u) ctxPayload list"

definition Callback_Initialize :: "build \<Rightarrow> bool \<Rightarrow> bool \<Rightarrow> FRPCOperationCallback exec" where
  "Callback_Initialize b cb wrap =
     ebind (cxx_assert b ''callback != nullptr'' cb) (\<lambda>_.
     ebind (cxx_assert b ''wrapCtx != nullptr'' wrap) (\<lambda>_.
     ebind (deref ''callback'' (if cb then Some () else None)) (\<lambda>_.
     ebind (deref ''wrapCtx'' (if wrap then Some () else None)) (\<lambda>_.
     Inr \<lparr>transportCallback = True, wrapCtx = True\<rparr>))))"

definition Callback_Invoke ::
    "build \<Rightarrow> 'c async_ctx option \<Rightarrow> ('c, 'u) request_run \<Rightarrow> ('c, 'u) request_run exec" where
  "Callback_Invoke b context r =
     ebind (cxx_assert b ''context != nullptr'' (context \<noteq> None)) (\<lambda>_.
     ebind (cxx_assert b ''transportCallback_ != nullptr'' (transportCallback (run_callback r))) (\<lambda>_.
     ebind (cxx_assert b ''wrapCtx_ != nullptr'' (wrapCtx (run_callback r))) (\<lambda>_.
     ebind (deref ''wrapCtx_'' (if wrapCtx (run_callback r) then Some (run_payload r) else None)) (\<lambda>p.
     ebind (SetInnerCtx b context p) (\<lambda>p'.
     ebind (deref ''transportCallback_'' (if transportCallback (run_callback r) then Some () else None)) (\<lambda>_.
     Inr (r\<lparr>run_payload := p', run_invoked := run_invoked r @ [p'],
            run_callback := (run_callback r)\<lparr>wrapCtx := False\<rparr>\<rparr>)))))))"

fun invoke_all ::
    "build \<Rightarrow> 'c async_ctx option list \<Rightarrow> ('c, 'u) request_run \<Rightarrow> ('c, 'u) request_run exec" where
  "invoke_all b [] r = Inr r"
| "invoke_all b (c # cs) r = ebind (Callback_Invoke b c r) (invoke_all b cs)"

section \<open>FRPCRequestHandler\<close>

record ('c, 'u) FRPCRequestHandler =
  h_svc :: "('c, 'u) MiddleWare option"
  h_cv :: "IFabricRPCHeaderProtoConverter option"

definition mk_FRPCRequestHandler :: "('c, 'u) FRPCRequestHandler" where
  "mk_FRPCRequestHandler = \<lparr>h_svc = None, h_cv = None\<rparr>"

definition Handler_Initialize ::
    "build \<Rightarrow> ('c, 'u) MiddleWare list \<Rightarrow> IFabricRPCHeaderProtoConverter option \<Rightarrow>
     ('c, 'u) FRPCRequestHandler \<Rightarrow> ('c, 'u) FRPCRequestHandler exec" where
  "Handler_Initialize b svcList conv H =
     ebind (cxx_assert b ''svcList.size() != 0'' (length svcList \<noteq> 0)) (\<lambda>_.
     ebind (cxx_assert b ''cv != nullptr'' (conv \<noteq> None)) (\<lambda>_.
     Inr (H\<lparr>h_svc := Some (FRPCRouter_Route svcList), h_cv := conv\<rparr>)))"

text \<open>
  The part of \<open>BeginProcessRequest\<close> that computes \<open>err\<close> and \<open>ctx\<close>: header, route, begin
  operation.  \<open>clk\<close> and \<open>clk_op\<close> are the clock readings of the handler and of the operation.
\<close>

definition begin_stage ::
    "build \<Rightarrow> ('c, 'u) FRPCRequestHandler \<Rightarrow> string \<Rightarrow> string \<Rightarrow> DWORD \<Rightarrow> int \<times> int \<Rightarrow> int \<times> int \<Rightarrow>
     ('c, 'u) request_run \<Rightarrow> 'u \<Rightarrow>
     (Status \<times> 'c async_ctx option \<times> ('c, 'u) request_run \<times> 'u) exec" where
  "begin_stage b H header body timeoutMilliseconds clk clk_op r u =
     (if length header = 0
      then Inr (Status2 (code_value INVALID_ARGUMENT) ''fabric rpc header is empty'', None, r, u)
      else
        ebind (deref ''cv_'' (h_cv H)) (\<lambda>conv.
        let (ok, fRequestHeader) = DeserializeRequestHeader conv header mk_FabricRPCRequestHeader
        in if \<not> ok
           then Inr (Status2 (code_value INVALID_ARGUMENT) ''Cannot parse fabric rpc header'',
                     None, r, u)
           else
             ebind (deref ''svc_'' (h_svc H)) (\<lambda>route.
             let (err, beginOp, eop) = route (GetUrl fRequestHeader) (None, None)
             in if failed err then Inr (err, None, r, u)
                else
                  ebind (cxx_assert b ''endOp != nullptr'' (eop \<noteq> None)) (\<lambda>_.
                  ebind (deref ''beginOp'' beginOp) (\<lambda>bop.
                  let r1 = r\<lparr>run_payload := (run_payload r)\<lparr>endOp := eop\<rparr>\<rparr>;
                      res = bop clk_op body (remaining_timeout timeoutMilliseconds clk) u
                  in ebind (invoke_all b (br_invokes res) r1) (\<lambda>r2.
                     Inr (br_status res, br_context res, r2, br_state res)))))))"

text \<open>
  The whole of \<open>BeginProcessRequest\<close>; it always returns \<open>S_OK\<close> and a context, so the result is
  the request in progress and the services' state.  \<open>cb\<close> tells whether the transport passed a
  callback.  A failing begin stage is stored and the proxy is invoked with the dummy context.
\<close>

definition BeginProcessRequest ::
    "build \<Rightarrow> ('c, 'u) FRPCRequestHandler \<Rightarrow> IFabricTransportMessage option \<Rightarrow> DWORD \<Rightarrow> bool \<Rightarrow>
     int \<times> int \<Rightarrow> int \<times> int \<Rightarrow> 'u \<Rightarrow> (('c, 'u) request_run \<times> 'u) exec" where
  "BeginProcessRequest b H message timeoutMilliseconds cb clk clk_op u =
     ebind (cxx_assert b ''svc_ != nullptr'' (h_svc H \<noteq> None)) (\<lambda>_.
     ebind (FRPC_CopyMsg message mk_FRPCTransportMessage) (\<lambda>msgPtr.
     ebind (Callback_Initialize b cb True) (\<lambda>proxy.
     let r0 = \<lparr>run_payload = new_ctxPayload, run_callback = proxy, run_invoked = []\<rparr>
     in ebind (begin_stage b H (FRPC_GetHeader msgPtr) (FRPC_GetBody msgPtr) timeoutMilliseconds
                 clk clk_op r0 u) (\<lambda>(err, ctx, r, u').
        if \<not> failed err
        then ebind (SetInnerCtx b ctx (run_payload r)) (\<lambda>p. Inr (r\<lparr>run_payload := p\<rparr>, u'))
        else
          ebind (cxx_assert b ''ctx == nullptr'' (ctx = None)) (\<lambda>_.
          ebind (cxx_assert b ''err'' (failed err)) (\<lambda>_.
          ebind (Callback_Invoke b (Some DummyCtx)
                   (r\<lparr>run_payload := (run_payload r)\<lparr>beginStatus := err\<rparr>\<rparr>)) (\<lambda>r'.
          Inr (r', u'))))))))"

text \<open>
  \<open>EndProcessRequest\<close> on the payload found in the context: the reply message, and the services'
  state after the end operation.
\<close>

definition end_stage ::
    "build \<Rightarrow> ('c, 'u) ctxPayload \<Rightarrow> 'u \<Rightarrow> ((FabricRPCReplyHeader \<times> string) \<times> 'u) exec" where
  "end_stage b p u =
     (if failed (beginStatus p)
      then Inr ((SetStatusMessage (GetErrorMessage (beginStatus p))
                  (SetStatusCode (GetErrorCode (beginStatus p)) mk_FabricRPCReplyHeader), ''''), u)
      else
        ebind (cxx_assert b ''end != nullptr'' (endOp p \<noteq> None)) (\<lambda>_.
        ebind (cxx_assert b ''innerCtx != nullptr'' (innerCtx p \<noteq> None)) (\<lambda>_.
        ebind (deref ''end'' (endOp p)) (\<lambda>eop.
        ebind (eop b (innerCtx p) '''' u) (\<lambda>((err, reply_str), u').
        ebind (cxx_assert b ''err.GetErrorMessage().size() != 0''
                 (length (GetErrorMessage err) \<noteq> 0)) (\<lambda>_.
        Inr ((SetStatusMessage (GetErrorMessage err)
                (SetStatusCode (GetErrorCode err) mk_FabricRPCReplyHeader),
              if failed err then '''' else reply_str), u')))))))"

definition EndProcessRequest ::
    "build \<Rightarrow> ('c, 'u) FRPCRequestHandler \<Rightarrow> ('c, 'u) ctxPayload \<Rightarrow> 'u \<Rightarrow>
     ((HRESULT \<times> FRPCTransportMessage) \<times> 'u) exec" where
  "EndProcessRequest b H p u =
     ebind (end_stage b p u) (\<lambda>((fReplyHeader, reply_str), u').
     ebind (deref ''cv_'' (h_cv H)) (\<lambda>conv.
     let (ok, h_response_str) = SerializeReplyHeader conv fReplyHeader
     in ebind (cxx_assert b ''ok'' ok) (\<lambda>_.
        Inr ((S_OK, FRPC_Initialize h_response_str reply_str mk_FRPCTransportMessage), u'))))"

definition HandleOneWay :: "IFabricTransportMessage option \<Rightarrow> HRESULT" where
  "HandleOneWay message = S_OK"

section \<open>Behaviour of the proxy\<close>

lemma Callback_Initialize_ok [simp]:
  "Callback_Initialize b True True = Inr \<lparr>transportCallback = True, wrapCtx = True\<rparr>"
  by (simp add: Callback_Initialize_def)

lemma SetInnerCtx_first: "innerCtx p = None \<Longrightarrow> SetInnerCtx b (Some c) p = Inr (p\<lparr>innerCtx := Some c\<rparr>)"
  by (simp add: SetInnerCtx_def)

lemma SetInnerCtx_same: "innerCtx p = Some c \<Longrightarrow> SetInnerCtx b (Some c) p = Inr p"
  by (simp add: SetInnerCtx_def)

text \<open>The first invocation stores the context, shows the payload to the transport, lets go.\<close>

lemma Callback_Invoke_first:
  assumes "transportCallback (run_callback r)" and "wrapCtx (run_callback r)"
    and "innerCtx (run_payload r) = None"
  shows "Callback_Invoke b (Some c) r =
    Inr (r\<lparr>run_payload := (run_payload r)\<lparr>innerCtx := Some c\<rparr>,
           run_invoked := run_invoked r @ [(run_payload r)\<lparr>innerCtx := Some c\<rparr>],
           run_callback := (run_callback r)\<lparr>wrapCtx := False\<rparr>\<rparr>)"
  using assms by (simp add: Callback_Invoke_def SetInnerCtx_first)

text \<open>A second invocation never returns, in either build.\<close>

lemma Callback_Invoke_again: "\<not> wrapCtx (run_callback r) \<Longrightarrow> \<not> returns (Callback_Invoke b c r)"
  by (cases b; cases c; cases "transportCallback (run_callback r)")
    (simp_all add: Callback_Invoke_def cxx_assert_Debug)

lemma Callback_Invoke_releases:
  "Callback_Invoke b c r = Inr r' \<Longrightarrow> \<not> wrapCtx (run_callback r')"
  by (auto simp: Callback_Invoke_def ebind_Inr_iff)

lemma Callback_Invoke_shows_context:
  "Callback_Invoke b c r = Inr r' \<Longrightarrow>
     \<exists>p. run_invoked r' = run_invoked r @ [p] \<and> run_payload r' = p \<and> innerCtx p \<noteq> None"
  by (auto simp: Callback_Invoke_def ebind_Inr_iff SetInnerCtx_def deref_Inr_iff
      split: option.splits)

section \<open>Behaviour of BeginProcessRequest\<close>

text \<open>The handler that a server builds: a routing class and a converter.\<close>

definition handler_of ::
    "('c, 'u) MiddleWare \<Rightarrow> IFabricRPCHeaderProtoConverter \<Rightarrow> ('c, 'u) FRPCRequestHandler" where
  "handler_of route conv = \<lparr>h_svc = Some route, h_cv = Some conv\<rparr>"

lemma handler_of_sel [simp]:
  "h_svc (handler_of route conv) = Some route" "h_cv (handler_of route conv) = Some conv"
  by (simp_all add: handler_of_def)

lemma Handler_Initialize_ok:
  "svcs \<noteq> [] \<Longrightarrow> Handler_Initialize b svcs (Some conv) mk_FRPCRequestHandler =
     Inr (handler_of (FRPCRouter_Route svcs) conv)"
  by (simp add: Handler_Initialize_def mk_FRPCRequestHandler_def handler_of_def)

text \<open>A request whose payload is \<open>p\<close>, before or after the one invocation of the proxy.\<close>

definition begun :: "('c, 'u) ctxPayload \<Rightarrow> bool \<Rightarrow> ('c, 'u) request_run" where
  "begun p notified =
     \<lparr>run_payload = p, run_callback = \<lparr>transportCallback = True, wrapCtx = \<not> notified\<rparr>,
      run_invoked = (if notified then [p] else [])\<rparr>"

text \<open>The request after a failure: the error is stored and the transport has been told.\<close>

definition refused ::
    "('c, 'u) IEndOperation option \<Rightarrow> Status \<Rightarrow> ('c, 'u) request_run" where
  "refused eop err = begun \<lparr>endOp = eop, beginStatus = err, innerCtx = Some DummyCtx\<rparr> True"

lemma Begin_refused:
  assumes "wf_msg m"
    and "begin_stage b (handler_of route conv) (header_text m) (body_text m) t clk clk_op
           (begun new_ctxPayload False) u =
         Inr (err, None, begun (new_ctxPayload\<lparr>endOp := eop\<rparr>) False, u')"
    and "failed err"
  shows "BeginProcessRequest b (handler_of route conv) (Some m) t True clk clk_op u =
           Inr (refused eop err, u')"
  using assms
  by (simp add: BeginProcessRequest_def FRPC_CopyMsg_wf begun_def refused_def new_ctxPayload_def
      Callback_Invoke_first Let_def)

lemma Begin_empty_header:
  assumes "wf_msg m" and "header_text m = ''''"
  shows "BeginProcessRequest b (handler_of route conv) (Some m) t True clk clk_op u =
    Inr (refused None (Status2 (code_value INVALID_ARGUMENT) ''fabric rpc header is empty''), u)"
proof (rule Begin_refused[OF assms(1)])
  show "begin_stage b (handler_of route conv) (header_text m) (body_text m) t clk clk_op
      (begun new_ctxPayload False) u =
    Inr (Status2 (code_value INVALID_ARGUMENT) ''fabric rpc header is empty'', None,
      begun (new_ctxPayload\<lparr>endOp := None\<rparr>) False, u)"
    using assms(2) by (simp add: begin_stage_def new_ctxPayload_def)
qed simp

lemma Begin_bad_header:
  assumes "wf_msg m" and "header_text m \<noteq> ''''"
    and "\<not> fst (DeserializeRequestHeader conv (header_text m) mk_FabricRPCRequestHeader)"
  shows "BeginProcessRequest b (handler_of route conv) (Some m) t True clk clk_op u =
    Inr (refused None (Status2 (code_value INVALID_ARGUMENT) ''Cannot parse fabric rpc header''), u)"
proof (rule Begin_refused[OF assms(1)])
  obtain h where "DeserializeRequestHeader conv (header_text m) mk_FabricRPCRequestHeader = (False, h)"
    using assms(3) by (metis (full_types) prod.collapse)
  then   show "begin_stage b (handler_of route conv) (header_text m) (body_text m) t clk clk_op
      (begun new_ctxPayload False) u =
    Inr (Status2 (code_value INVALID_ARGUMENT) ''Cannot parse fabric rpc header'', None,
      begun (new_ctxPayload\<lparr>endOp := None\<rparr>) False, u)"
    using assms(2) by (simp add: begin_stage_def new_ctxPayload_def)
qed simp

text \<open>A readable header, and the URL it names.\<close>

definition names_url ::
    "IFabricRPCHeaderProtoConverter \<Rightarrow> IFabricTransportMessage \<Rightarrow> string \<Rightarrow> bool" where
  "names_url conv m u \<longleftrightarrow> wf_msg m \<and> header_text m \<noteq> '''' \<and>
     DeserializeRequestHeader conv (header_text m) mk_FabricRPCRequestHeader = (True, \<lparr>url = u\<rparr>)"

lemma Begin_unknown_url:
  assumes "names_url conv m a" and "route a (None, None) = (not_found a, None, None)"
  shows "BeginProcessRequest b (handler_of route conv) (Some m) t True clk clk_op u =
           Inr (refused None (not_found a), u)"
proof (rule Begin_refused)
  show "wf_msg m" using assms(1) by (simp add: names_url_def)
  show "begin_stage b (handler_of route conv) (header_text m) (body_text m) t clk clk_op
      (begun new_ctxPayload False) u =
    Inr (not_found a, None, begun (new_ctxPayload\<lparr>endOp := None\<rparr>) False, u)"
    using assms by (simp add: begin_stage_def names_url_def GetUrl_def new_ctxPayload_def)
qed simp

lemma begin_stage_hit:
  assumes "names_url conv m a" and "route a (None, None) = (Status0, Some bo, Some eo)"
    and "bo clk_op (body_text m) (remaining_timeout t clk) u = res"
  shows "begin_stage b (handler_of route conv) (header_text m) (body_text m) t clk clk_op
      (begun new_ctxPayload False) u =
    ebind (invoke_all b (br_invokes res) (begun (new_ctxPayload\<lparr>endOp := Some eo\<rparr>) False))
      (\<lambda>r. Inr (br_status res, br_context res, r, br_state res))"
  using assms
  by (simp add: begin_stage_def names_url_def GetUrl_def begun_def Let_def)

text \<open>The begin operation refused: same end as any other failure, and no second thread.\<close>

lemma Begin_operation_failed:
  assumes "names_url conv m a" and "route a (None, None) = (Status0, Some bo, Some eo)"
    and "bo clk_op (body_text m) (remaining_timeout t clk) u = res"
    and "follows_protocol res" and "failed (br_status res)"
  shows "BeginProcessRequest b (handler_of route conv) (Some m) t True clk clk_op u =
           Inr (refused (Some eo) (br_status res), br_state res)"
proof (rule Begin_refused)
  show "wf_msg m" using assms(1) by (simp add: names_url_def)
  show "begin_stage b (handler_of route conv) (header_text m) (body_text m) t clk clk_op
      (begun new_ctxPayload False) u =
    Inr (br_status res, None, begun (new_ctxPayload\<lparr>endOp := Some eo\<rparr>) False, br_state res)"
    using begin_stage_hit[where route = route and bo = bo and m = m and t = t and clk = clk
        and clk_op = clk_op and u = u, OF assms(1-3)] assms(4,5) by (simp add: follows_protocol_def)
qed (fact assms(5))

text \<open>The begin operation succeeded: its context is stored whether or not it already completed.\<close>

lemma Begin_operation_ok:
  assumes "names_url conv m a" and "route a (None, None) = (Status0, Some bo, Some eo)"
    and "bo clk_op (body_text m) (remaining_timeout t clk) u = res"
    and "\<not> failed (br_status res)" and "br_context res = Some (UserCtx c)"
    and "br_invokes res = (if completed then [Some (UserCtx c)] else [])"
  shows "BeginProcessRequest b (handler_of route conv) (Some m) t True clk clk_op u =
    Inr (begun \<lparr>endOp = Some eo, beginStatus = Status0, innerCtx = Some (UserCtx c)\<rparr> completed,
         br_state res)"
proof -
  have "wf_msg m" using assms(1) by (simp add: names_url_def)
  moreover note begin_stage_hit[where route = route and bo = bo and m = m and t = t and clk = clk
      and clk_op = clk_op and u = u and b = b, OF assms(1-3)]
  ultimately show ?thesis
    using assms(4-6)
    by (cases completed)
      (simp_all add: BeginProcessRequest_def FRPC_CopyMsg_wf begun_def new_ctxPayload_def Let_def
        Callback_Invoke_first SetInnerCtx_first SetInnerCtx_same)
qed

section \<open>Behaviour of EndProcessRequest\<close>

text \<open>The reply to a request: a header and a body in one message.\<close>

definition reply_message ::
    "IFabricRPCHeaderProtoConverter \<Rightarrow> int \<Rightarrow> string \<Rightarrow> string \<Rightarrow> FRPCTransportMessage" where
  "reply_message conv code msg body =
     FRPC_Initialize (snd (SerializeReplyHeader conv \<lparr>status_code = code, status_message = msg\<rparr>))
       body mk_FRPCTransportMessage"

lemma End_refused:
  assumes "failed (beginStatus p)"
    and "b = Debug \<Longrightarrow> fst (SerializeReplyHeader conv
           \<lparr>status_code = GetErrorCode (beginStatus p),
            status_message = GetErrorMessage (beginStatus p)\<rparr>)"
  shows "EndProcessRequest b (handler_of route conv) p u =
    Inr ((S_OK, reply_message conv (GetErrorCode (beginStatus p)) (GetErrorMessage (beginStatus p)) ''''), u)"
  using assms
  by (cases b)
    (auto simp: EndProcessRequest_def end_stage_def reply_message_def header_defs split: prod.splits)

lemma End_operation:
  assumes "\<not> failed (beginStatus p)" and "endOp p = Some eo" and "innerCtx p = Some c"
    and "eo b (Some c) '''' u = Inr ((err, reply_str), u')"
    and "b = Debug \<Longrightarrow> GetErrorMessage err \<noteq> '''' \<and>
          fst (SerializeReplyHeader conv
            \<lparr>status_code = GetErrorCode err, status_message = GetErrorMessage err\<rparr>)"
  shows "EndProcessRequest b (handler_of route conv) p u =
    Inr ((S_OK, reply_message conv (GetErrorCode err) (GetErrorMessage err)
            (if failed err then '''' else reply_str)), u')"
  using assms
  by (cases b)
    (auto simp: EndProcessRequest_def end_stage_def reply_message_def header_defs split: prod.splits)

text \<open>In a debug build an end operation that returns no message stops the server.\<close>

lemma End_empty_message:
  assumes "\<not> failed (beginStatus p)" and "endOp p = Some eo" and "innerCtx p = Some c"
    and "eo Debug (Some c) '''' u = Inr ((err, reply_str), u')" and "GetErrorMessage err = ''''"
  shows "EndProcessRequest Debug H p u =
    Inl (AssertionFailed ''err.GetErrorMessage().size() != 0'')"
  using assms by (simp add: EndProcessRequest_def end_stage_def cxx_assert_Debug)

end
