(* ===== verification/Client_Helpers.thy ===== *)
theory Client_Helpers
  imports Request_Handler
begin

text \<open>
  The client side of src/fabric_rpc: \<open>ExecClientBegin\<close> and \<open>ExecClientEnd\<close> of ClientHelpers.hpp,
  which the generated client classes call.  The transport is a parameter.
\<close>

section \<open>The two client operations\<close>

definition ExecClientBegin ::
    "build \<Rightarrow> ('x, 'w) IFabricTransportClient \<Rightarrow> IFabricRPCHeaderProtoConverter \<Rightarrow> 'q codec \<Rightarrow>
     DWORD \<Rightarrow> string \<Rightarrow> 'q \<Rightarrow> int \<times> int \<Rightarrow> 'w \<Rightarrow> ((Status \<times> 'x option) \<times> 'w) exec" where
  "ExecClientBegin b client conv P timeoutMilliseconds a request clk w =
     (let (ok, header_str) = SerializeRequestHeader conv (SetUrl a mk_FabricRPCRequestHeader)
      in ebind (cxx_assert b ''ok'' ok) (\<lambda>_.
         if \<not> ok
         then Inr ((Status2 (code_value INTERNAL) ''Client cannot serialize request header.'', None), w)
         else
           let (ok, body_str) = SerializeToString P request
           in ebind (cxx_assert b ''ok'' ok) (\<lambda>_.
              if \<not> ok
              then Inr ((Status2 (code_value INTERNAL) ''Client cannot serialize request body.'',
                         None), w)
              else
                ebind (FRPC_GetHeaderAndBodyBuffer
                         (FRPC_Initialize header_str body_str mk_FRPCTransportMessage)) (\<lambda>msgPtr.
                let ((hr, context), w') =
                      BeginRequest client msgPtr (remaining_timeout timeoutMilliseconds clk) w
                in if FAILED hr
                   then Inr ((Status3 (code_value FABRIC_TRANSPORT_ERROR) ''BeginRequest failed'' hr,
                              context), w')
                   else Inr ((Status0, context), w')))))"

text \<open>The response is \<open>None\<close> unless it was filled by a successful parse.\<close>

definition ExecClientEnd ::
    "('x, 'w) IFabricTransportClient \<Rightarrow> IFabricRPCHeaderProtoConverter \<Rightarrow> 'p codec \<Rightarrow>
     'x option \<Rightarrow> 'w \<Rightarrow> ((Status \<times> 'p option) \<times> 'w) exec" where
  "ExecClientEnd client conv P context w =
     (let ((hr, reply), w') = EndRequest client context w
      in if hr \<noteq> S_OK
         then Inr ((Status3 (code_value FABRIC_TRANSPORT_ERROR) ''EndRequest failed'' hr, None), w')
         else
           ebind (FRPC_CopyMsg reply mk_FRPCTransportMessage) (\<lambda>msgPtr.
           let header_str = FRPC_GetHeader msgPtr
           in if length header_str = 0
              then Inr ((Status2 (code_value UNKNOWN) ''Server returned empty header'', None), w')
              else
                let (ok, fReplyHeader) =
                      DeserializeReplyHeader conv header_str mk_FabricRPCReplyHeader
                in if \<not> ok
                   then Inr ((Status2 (code_value UNKNOWN) ''Server returned bad header'', None), w')
                   else if GetStatusCode fReplyHeader \<noteq> 0
                   then Inr ((Status2 (GetStatusCode fReplyHeader)
                                (GetStatusMessage fReplyHeader), None), w')
                   else
                     let data = FRPC_GetBody msgPtr
                     in (case ParseFromArray P data (int_of_size (length data)) of
                           None \<Rightarrow>
                             Inr ((Status2 (code_value UNKNOWN) ''Server returned bad body'', None), w')
                         | Some response \<Rightarrow> Inr ((Status0, Some response), w'))))"

section \<open>Behaviour of ExecClientBegin\<close>

text \<open>The message a client puts on the wire.\<close>

definition request_view :: "string \<Rightarrow> string \<Rightarrow> IFabricTransportMessage" where
  "request_view header body =
     \<lparr>headerBuffer = Some \<lparr>Buffer = header, BufferSize = ulong_of_size (length header)\<rparr>,
      msgBufferCount = 1,
      MsgBuffers = [\<lparr>Buffer = body, BufferSize = ulong_of_size (length body)\<rparr>]\<rparr>"

lemma request_view_eq [simp]:
  "FRPC_GetHeaderAndBodyBuffer (FRPC_Initialize h d m) = Inr (request_view h d)"
  by (simp add: frpc_message_defs request_view_def)

lemma request_view_wf [simp]: "wf_msg (request_view h d)"
  by (simp add: request_view_def wf_msg_def wf_buffer_def unat_ulong_of_size)

lemma request_view_text [simp]:
  "length h < 2 ^ 32 \<Longrightarrow> header_text (request_view h d) = h"
  "length d < 2 ^ 32 \<Longrightarrow> body_text (request_view h d) = d"
  by (simp_all add: request_view_def header_text_def body_text_def buffer_text_def)

lemma ExecClientBegin_sends:
  assumes "SerializeRequestHeader conv \<lparr>url = a\<rparr> = (True, h)"
    and "SerializeToString P request = (True, d)"
    and "BeginRequest client (request_view h d) (remaining_timeout t clk) w = ((hr, context), w')"
  shows "ExecClientBegin b client conv P t a request clk w =
    Inr ((if FAILED hr
          then Status3 (code_value FABRIC_TRANSPORT_ERROR) ''BeginRequest failed'' hr
          else Status0, context), w')"
  using assms by (simp add: ExecClientBegin_def header_defs)

text \<open>When a message cannot be serialized, nothing is sent: a release build says so.\<close>

lemma ExecClientBegin_unserializable:
  assumes "\<not> fst (SerializeRequestHeader conv \<lparr>url = a\<rparr>) \<or> \<not> fst (SerializeToString P request)"
  shows "\<exists>st. ExecClientBegin Release client conv P t a request clk w = Inr ((st, None), w) \<and>
           GetErrorCode st = code_value INTERNAL"
    and "\<not> returns (ExecClientBegin Debug client conv P t a request clk w)"
  using assms
  by (auto simp: ExecClientBegin_def header_defs cxx_assert_Debug split: prod.splits)

section \<open>Behaviour of ExecClientEnd\<close>

text \<open>What the client concludes from a reply message, as a function of its two texts.\<close>

definition client_result ::
    "IFabricRPCHeaderProtoConverter \<Rightarrow> 'p codec \<Rightarrow> string \<Rightarrow> string \<Rightarrow> Status \<times> 'p option" where
  "client_result conv P header body =
     (if header = '''' then (Status2 (code_value UNKNOWN) ''Server returned empty header'', None)
      else
        (case DeserializeReplyHeader conv header mk_FabricRPCReplyHeader of
           (False, _) \<Rightarrow> (Status2 (code_value UNKNOWN) ''Server returned bad header'', None)
         | (True, r) \<Rightarrow>
             if status_code r \<noteq> 0 then (Status2 (status_code r) (status_message r), None)
             else
               (case ParseFromArray P body (int_of_size (length body)) of
                  None \<Rightarrow> (Status2 (code_value UNKNOWN) ''Server returned bad body'', None)
                | Some response \<Rightarrow> (Status0, Some response))))"

lemma ExecClientEnd_reply:
  assumes "EndRequest client context w = ((S_OK, Some m), w')" and "wf_msg m"
  shows "ExecClientEnd client conv P context w =
           Inr (client_result conv P (header_text m) (body_text m), w')"
  using assms
  by (auto simp: ExecClientEnd_def FRPC_CopyMsg_wf client_result_def header_defs Let_def
      split: prod.splits bool.splits option.splits)

lemma ExecClientEnd_transport_error:
  assumes "EndRequest client context w = ((hr, m), w')" and "hr \<noteq> S_OK"
  shows "ExecClientEnd client conv P context w =
    Inr ((Status3 (code_value FABRIC_TRANSPORT_ERROR) ''EndRequest failed'' hr, None), w')"
  using assms by (simp add: ExecClientEnd_def)

text \<open>A response is handed out exactly with a success status.\<close>

lemma client_result_ok_iff:
  "\<not> failed (fst (client_result conv P header body)) \<longleftrightarrow>
     snd (client_result conv P header body) \<noteq> None"
  by (auto simp: client_result_def split: prod.splits bool.splits option.splits)

section \<open>The two sides over a converter that keeps its contract\<close>

context header_converter
begin

lemma request_names_url:
  assumes "sendable_req \<lparr>url = a\<rparr>" and "req_wire \<lparr>url = a\<rparr> \<noteq> ''''"
    and "length (req_wire \<lparr>url = a\<rparr>) < 2 ^ 32"
  shows "names_url cv (request_view (req_wire \<lparr>url = a\<rparr>) d) a"
  using assms by (simp add: names_url_def des_req)

lemma reply_message_view:
  assumes "sendable_rep \<lparr>status_code = c, status_message = m\<rparr>"
  shows "FRPC_GetHeaderAndBodyBuffer (reply_message cv c m body) =
    Inr (request_view (rep_wire \<lparr>status_code = c, status_message = m\<rparr>) body)"
  using assms by (simp add: reply_message_def ser_rep)

lemma client_reads_error:
  assumes "sendable_rep \<lparr>status_code = c, status_message = m\<rparr>" and "c \<noteq> 0"
    and "rep_wire \<lparr>status_code = c, status_message = m\<rparr> \<noteq> ''''"
  shows "client_result cv P (rep_wire \<lparr>status_code = c, status_message = m\<rparr>) body =
           (Status2 c m, None)"
  using assms by (simp add: client_result_def des_rep)

lemma client_reads_response:
  assumes "sendable_rep \<lparr>status_code = 0, status_message = m\<rparr>"
    and "rep_wire \<lparr>status_code = 0, status_message = m\<rparr> \<noteq> ''''"
    and "codec_laws P" and "roundtrips P x"
  shows "client_result cv P (rep_wire \<lparr>status_code = 0, status_message = m\<rparr>) (wire P x) =
           (Status0, Some x)"
  using assms by (simp add: client_result_def des_rep roundtripsD)

end

end
