(* ===== verification/Rpc_Call.thy ===== *)
theory Rpc_Call
  imports Client_Helpers
begin

text \<open>
  One RPC of the first library, end to end: \<open>ExecClientBegin\<close>, \<open>BeginProcessRequest\<close>, the
  completion of the service's operation, \<open>EndProcessRequest\<close> and \<open>ExecClientEnd\<close>, over a
  transport that delivers each message unchanged.  The specification is a local call of the
  service's two operations; the theorem is that the RPC computes the same.
\<close>

section \<open>A call over an intact transport\<close>

text \<open>The transport of a client that sends: it remembers the message and the time-out.\<close>

definition recording_client ::
    "(unit, (IFabricTransportMessage \<times> DWORD) option) IFabricTransportClient" where
  "recording_client =
     \<lparr>BeginRequest = (\<lambda>m t _. ((S_OK, Some ()), Some (m, t))),
      EndRequest = (\<lambda>_ w. ((S_OK, None), w))\<rparr>"

text \<open>The transport of a client that receives: it hands out one reply.\<close>

definition delivering_client ::
    "HRESULT \<Rightarrow> IFabricTransportMessage \<Rightarrow> (unit, unit) IFabricTransportClient" where
  "delivering_client hr m =
     \<lparr>BeginRequest = (\<lambda>_ _ w. ((S_OK, Some ()), w)),
      EndRequest = (\<lambda>_ w. ((hr, Some m), w))\<rparr>"

text \<open>
  If the begin operation has not invoked the callback, the service does so later, with the
  context it returned.
\<close>

definition complete_later ::
    "build \<Rightarrow> ('c, 'u) request_run \<Rightarrow> ('c, 'u) request_run exec" where
  "complete_later b r =
     (if run_invoked r = [] then Callback_Invoke b (innerCtx (run_payload r)) r else Inr r)"

definition serve ::
    "build \<Rightarrow> ('c, 'u) FRPCRequestHandler \<Rightarrow> IFabricTransportMessage \<Rightarrow> DWORD \<Rightarrow> int \<times> int \<Rightarrow>
     int \<times> int \<Rightarrow> 'u \<Rightarrow> ((HRESULT \<times> IFabricTransportMessage) \<times> 'u) exec" where
  "serve b H m t clk clk_op u =
     ebind (BeginProcessRequest b H (Some m) t True clk clk_op u) (\<lambda>(r, u1).
     ebind (complete_later b r) (\<lambda>r'.
     ebind (EndProcessRequest b H (last (run_invoked r')) u1) (\<lambda>((hr, reply), u2).
     ebind (FRPC_GetHeaderAndBodyBuffer reply) (\<lambda>v. Inr ((hr, v), u2)))))"

definition rpc_call ::
    "build \<Rightarrow> ('c, 'u) FRPCRequestHandler \<Rightarrow> IFabricRPCHeaderProtoConverter \<Rightarrow> 'q codec \<Rightarrow>
     'p codec \<Rightarrow> DWORD \<Rightarrow> string \<Rightarrow> 'q \<Rightarrow> int \<times> int \<Rightarrow> int \<times> int \<Rightarrow> int \<times> int \<Rightarrow> 'u \<Rightarrow>
     ((Status \<times> 'p option) \<times> 'u) exec" where
  "rpc_call b H conv P P' t a request clk_client clk clk_op u =
     ebind (ExecClientBegin b recording_client conv P t a request clk_client None)
       (\<lambda>((st, _), sent).
     if failed st then Inr ((st, None), u)
     else
       ebind (deref ''message'' sent) (\<lambda>(m, t').
       ebind (serve b H m t' clk clk_op u) (\<lambda>((hr, v), u').
       ebind (ExecClientEnd (delivering_client hr v) conv P' (Some ()) ()) (\<lambda>(res, _).
       Inr (res, u')))))"

section \<open>The specification: a local call\<close>

definition client_status :: "Status \<Rightarrow> Status" where
  "client_status st = Status2 (GetErrorCode st) (GetErrorMessage st)"

definition local_call ::
    "build \<Rightarrow> ('q \<Rightarrow> DWORD \<Rightarrow> 'u \<Rightarrow> ('c, 'u) begin_result) \<Rightarrow>
     (build \<Rightarrow> 'c async_ctx option \<Rightarrow> 'u \<Rightarrow> ((Status \<times> 'p) \<times> 'u) exec) \<Rightarrow> 'q \<Rightarrow> DWORD \<Rightarrow> 'u \<Rightarrow>
     ((Status \<times> 'p option) \<times> 'u) exec" where
  "local_call b bop eop request t u =
     (let res = bop request t u
      in if failed (br_status res) then Inr ((client_status (br_status res), None), br_state res)
         else
           ebind (eop b (br_context res) (br_state res)) (\<lambda>((err, proto), u').
           if failed err then Inr ((client_status err, None), u')
           else Inr ((Status0, Some proto), u')))"

section \<open>Serving a request\<close>

text \<open>A status the reply header can carry to the client, and in a debug build at all.\<close>

definition deliverable :: "reply_header codec \<Rightarrow> Status \<Rightarrow> bool" where
  "deliverable R st \<longleftrightarrow>
     (let h = \<lparr>status_code = GetErrorCode st, status_message = GetErrorMessage st\<rparr>
      in roundtrips R h \<and> wire R h \<noteq> '''' \<and> GetErrorMessage st \<noteq> '''')"

lemma serve_refused:
  assumes "BeginProcessRequest b (handler_of route conv) (Some m) t True clk clk_op u =
             Inr (refused eop err, u')"
    and "failed err" and "codec_laws R" and "deliverable R err"
    and "conv = FabricRPCHeaderProtoConverter Q R"
  shows "serve b (handler_of route conv) m t clk clk_op u =
    Inr ((S_OK, request_view (wire R \<lparr>status_code = GetErrorCode err,
                                     status_message = GetErrorMessage err\<rparr>) ''''), u')"
proof -
  let ?h = "\<lparr>status_code = GetErrorCode err, status_message = GetErrorMessage err\<rparr>"
  have h: "codec_laws R \<and> roundtrips R ?h"
    using assms by (simp add: deliverable_def Let_def)
  have "EndProcessRequest b (handler_of route conv)
      \<lparr>endOp = eop, beginStatus = err, innerCtx = Some DummyCtx\<rparr> u' =
    Inr ((S_OK, reply_message conv (GetErrorCode err) (GetErrorMessage err) ''''), u')"
    using End_refused[of "\<lparr>endOp = eop, beginStatus = err, innerCtx = Some DummyCtx\<rparr>" b conv route u']
      assms(2,5) proto_converter.ser_rep[OF h, where Q = Q] by simp
  then show ?thesis
    using assms(1,5) proto_converter.reply_message_view[OF h, where Q = Q]
    by (simp add: serve_def complete_later_def refused_def begun_def)
qed

lemma complete_later_begun:
  assumes "innerCtx p = Some c"
  shows "complete_later b (begun p completed) = Inr (begun p True)"
  using assms
  by (cases completed) (simp_all add: complete_later_def begun_def Callback_Invoke_def SetInnerCtx_same)

lemma serve_completed:
  assumes "BeginProcessRequest b (handler_of route conv) (Some m) t True clk clk_op u =
      Inr (begun \<lparr>endOp = Some eo, beginStatus = Status0, innerCtx = Some c\<rparr> completed, u1)"
    and "eo b (Some c) '''' u1 = Inr ((err, reply_str), u2)"
    and "codec_laws R" and "deliverable R err"
    and "conv = FabricRPCHeaderProtoConverter Q R"
  shows "serve b (handler_of route conv) m t clk clk_op u =
    Inr ((S_OK, request_view (wire R \<lparr>status_code = GetErrorCode err,
                                     status_message = GetErrorMessage err\<rparr>)
                  (if failed err then '''' else reply_str)), u2)"
proof -
  let ?p = "\<lparr>endOp = Some eo, beginStatus = Status0, innerCtx = Some c\<rparr>"
  let ?h = "\<lparr>status_code = GetErrorCode err, status_message = GetErrorMessage err\<rparr>"
  have h: "codec_laws R \<and> roundtrips R ?h" and msg: "GetErrorMessage err \<noteq> ''''"
    using assms by (simp_all add: deliverable_def Let_def)
  have "EndProcessRequest b (handler_of route conv) ?p u1 =
    Inr ((S_OK, reply_message conv (GetErrorCode err) (GetErrorMessage err)
      (if failed err then '''' else reply_str)), u2)"
    by (rule End_operation[where eo = eo and c = c])
      (use assms(2,5) msg proto_converter.ser_rep[OF h, where Q = Q] in simp_all)
  then show ?thesis
    using assms(1,5) proto_converter.reply_message_view[OF h, where Q = Q]
    by (simp add: serve_def complete_later_begun) (simp add: begun_def)
qed

section \<open>The RPC computes the local call\<close>

text \<open>
  The setting of a call: the codecs obey their laws, the URL and the request reach the server,
  and the handler routes the URL to the generated pair of operations.
\<close>

definition call_setting ::
    "request_header codec \<Rightarrow> reply_header codec \<Rightarrow> 'q codec \<Rightarrow> 'p codec \<Rightarrow> string \<Rightarrow> 'q \<Rightarrow> bool" where
  "call_setting Q R P P' a request \<longleftrightarrow>
     codec_laws Q \<and> codec_laws R \<and> codec_laws P \<and> codec_laws P' \<and>
     roundtrips Q \<lparr>url = a\<rparr> \<and> wire Q \<lparr>url = a\<rparr> \<noteq> '''' \<and> roundtrips P request \<and>
     deliverable R Status0"

lemma wire_short [simp]:
  "roundtrips C m \<Longrightarrow> length (wire C m) < 4294967296"
  by (simp add: roundtrips_def wire_def)

lemma client_sends:
  assumes "call_setting Q R P P' a request"
  shows "ExecClientBegin b recording_client (FabricRPCHeaderProtoConverter Q R) P t a request clk None =
    Inr ((Status0, Some ()),
         Some (request_view (wire Q \<lparr>url = a\<rparr>) (wire P request), remaining_timeout t clk))"
  using assms
  by (subst ExecClientBegin_sends[where h = "wire Q \<lparr>url = a\<rparr>" and d = "wire P request" and hr = S_OK])
    (simp_all add: call_setting_def roundtripsD recording_client_def converter_defs header_defs)

lemma rpc_call_via_serve:
  assumes "call_setting Q R P P' a request"
    and "serve b H (request_view (wire Q \<lparr>url = a\<rparr>) (wire P request)) (remaining_timeout t clk_client)
           clk clk_op u = Inr ((S_OK, request_view h d), u')"
    and "length h < 2 ^ 32" and "length d < 2 ^ 32"
  shows "rpc_call b H (FabricRPCHeaderProtoConverter Q R) P P' t a request clk_client clk clk_op u =
    Inr (client_result (FabricRPCHeaderProtoConverter Q R) P' h d, u')"
proof -
  have "ExecClientEnd (delivering_client S_OK (request_view h d))
      (FabricRPCHeaderProtoConverter Q R) P' (Some ()) () =
    Inr (client_result (FabricRPCHeaderProtoConverter Q R) P' h d, ())"
    using assms(3,4)
    by (subst ExecClientEnd_reply[where m = "request_view h d" and w' = "()"])
      (simp_all add: delivering_client_def)
  then show ?thesis
    using assms(2) client_sends[OF assms(1)] by (simp add: rpc_call_def)
qed

lemma client_reads_status:
  assumes "codec_laws R" and "deliverable R st" and "failed st"
  shows "client_result (FabricRPCHeaderProtoConverter Q R) P
      (wire R \<lparr>status_code = GetErrorCode st, status_message = GetErrorMessage st\<rparr>) d =
    (client_status st, None)"
  using assms proto_converter.client_reads_error[where Q = Q and R = R and c = "GetErrorCode st"
      and m = "GetErrorMessage st"]
  by (simp add: deliverable_def Let_def client_status_def failed_iff_code)

text \<open>The URL the client sends is the URL the handler routes.\<close>

lemma setting_names_url:
  assumes "call_setting Q R P P' a request"
  shows "names_url (FabricRPCHeaderProtoConverter Q R)
    (request_view (wire Q \<lparr>url = a\<rparr>) (wire P request)) a"
  using assms by (intro proto_converter.request_names_url) (simp_all add: call_setting_def)

lemma setting_body:
  assumes "call_setting Q R P P' a request"
  shows "body_text (request_view (wire Q \<lparr>url = a\<rparr>) (wire P request)) = wire P request"
  using assms by (simp add: call_setting_def)

text \<open>
  Serving a request computes the local call: a status that the service returns, from its begin
  operation or from its end operation, and otherwise its response, are what the reply carries.
\<close>

lemma local_call_result:
  assumes "local_call b bop eop request t u = Inr ((st, response), u')"
  shows "client_status st = st" and "failed st \<longleftrightarrow> response = None" and "\<not> failed st \<Longrightarrow> st = Status0"
  using assms
  by (auto simp: local_call_def client_status_def Let_def ebind_Inr_iff status_defs failed_iff_code split: if_splits)

lemma client_status_same [simp]:
  "failed (client_status st) = failed st" "deliverable R (client_status st) = deliverable R st"
  "GetErrorCode (client_status st) = GetErrorCode st" "GetErrorMessage (client_status st) = GetErrorMessage st"
  by (simp_all add: deliverable_def client_status_def status_defs)

definition carried :: "reply_header codec \<Rightarrow> 'p codec \<Rightarrow> Status \<Rightarrow> 'p option \<Rightarrow> IFabricTransportMessage" where
  "carried R P' st response =
     request_view (wire R \<lparr>status_code = GetErrorCode st, status_message = GetErrorMessage st\<rparr>)
       (case response of None \<Rightarrow> '''' | Some p \<Rightarrow> wire P' p)"



lemma serve_local_call:
  assumes set: "call_setting Q R P P' a request"
    and route: "route a (None, None) =
           (Status0, Some (BeginOperation_Invoke P bop), Some (EndOperation_Invoke P' eop))"
    and prot: "follows_protocol (bop request (remaining_timeout (remaining_timeout t clk) clk_op) u)"
    and call: "local_call b bop eop request (remaining_timeout (remaining_timeout t clk) clk_op) u =
           Inr ((st, response), u')"
    and del: "failed st \<Longrightarrow> deliverable R st" and rt: "\<And>p. response = Some p \<Longrightarrow> roundtrips P' p"
  shows "serve b (handler_of route (FabricRPCHeaderProtoConverter Q R))
      (request_view (wire Q \<lparr>url = a\<rparr>) (wire P request)) t clk clk_op u =
    Inr ((S_OK, carried R P' st response), u')"
proof -
  let ?conv = "FabricRPCHeaderProtoConverter Q R"
  let ?m = "request_view (wire Q \<lparr>url = a\<rparr>) (wire P request)"
  define res where "res = bop request (remaining_timeout (remaining_timeout t clk) clk_op) u"
  have laws: "codec_laws P" "roundtrips P request" "codec_laws R" "codec_laws P'" "deliverable R Status0"
    using set by (simp_all add: call_setting_def)
  have B: "BeginOperation_Invoke P bop clk_op (body_text ?m) (remaining_timeout t clk) u = res"
    using laws setting_body[OF set] by (simp add: BeginOperation_wire res_def)
  show ?thesis
  proof (cases "failed (br_status res)")
    case True
    then have st: "st = client_status (br_status res)" "response = None" "u' = br_state res"
      using call by (auto simp: local_call_def Let_def res_def[symmetric])
    then have del': "deliverable R (br_status res)" using del True local_call_result(2)[OF call] by simp
    have "BeginProcessRequest b (handler_of route ?conv) (Some ?m) t True clk clk_op u =
        Inr (refused (Some (EndOperation_Invoke P' eop)) (br_status res), br_state res)"
      by (rule Begin_operation_failed[where bo = "BeginOperation_Invoke P bop" and a = a and res = res])
        (use setting_names_url[OF set] route B prot True in \<open>simp_all add: res_def\<close>)
    from serve_refused[OF this True laws(3) del' refl] show ?thesis using st by (simp add: carried_def)
  next
    case False
    obtain err proto where e: "eop b (br_context res) (br_state res) = Inr ((err, proto), u')"
      and st: "st = (if failed err then client_status err else Status0)"
      and rsp: "response = (if failed err then None else Some proto)"
      using call False by (auto simp: local_call_def Let_def res_def[symmetric] ebind_Inr_iff split: if_splits)
    let ?err = "if failed err then err else Status0" and ?reply = "if failed err then '''' else wire P' proto"
    obtain c where c: "br_context res = Some (UserCtx c)"
      and inv: "set (br_invokes res) \<subseteq> {Some (UserCtx c)}" "length (br_invokes res) \<le> 1"
      using prot False by (auto simp: follows_protocol_def res_def)
    have invs: "br_invokes res = (if br_invokes res \<noteq> [] then [Some (UserCtx c)] else [])"
      using inv by (cases "br_invokes res") auto
    have "BeginProcessRequest b (handler_of route ?conv) (Some ?m) t True clk clk_op u =
        Inr (begun \<lparr>endOp = Some (EndOperation_Invoke P' eop), beginStatus = Status0,
                    innerCtx = Some (UserCtx c)\<rparr> (br_invokes res \<noteq> []), br_state res)"
      by (rule Begin_operation_ok[where bo = "BeginOperation_Invoke P bop" and a = a and res = res])
        (use setting_names_url[OF set] route B False c invs in simp_all)
    moreover have "EndOperation_Invoke P' eop b (Some (UserCtx c)) '''' (br_state res) = Inr ((?err, ?reply), u')"
      using e c rt rsp laws EndOperation_ok[of eop b "Some (UserCtx c)" "br_state res" err proto u' P' "''''"]
      by (auto simp: EndOperation_failed)
    moreover have D: "deliverable R ?err" using del st laws by (auto split: if_splits)
    ultimately show ?thesis
      using serve_completed[where ?u1.0 = "br_state res" and c = "UserCtx c" and err = ?err and conv = ?conv
          and reply_str = ?reply and R = R and Q = Q] laws(3) st rsp
      by (auto simp: carried_def)
  qed
qed

text \<open>The client reads the same status and the same response from it.\<close>

lemma rpc_call_local_call:
  assumes set: "call_setting Q R P P' a request"
    and route: "route a (None, None) =
           (Status0, Some (BeginOperation_Invoke P bop), Some (EndOperation_Invoke P' eop))"
    and left: "left = remaining_timeout (remaining_timeout (remaining_timeout t clk_client) clk) clk_op"
    and prot: "follows_protocol (bop request left u)"
    and call: "local_call b bop eop request left u = Inr ((st, response), u')"
    and del: "failed st \<Longrightarrow> deliverable R st" and rt: "\<And>p. response = Some p \<Longrightarrow> roundtrips P' p"
  shows "rpc_call b (handler_of route (FabricRPCHeaderProtoConverter Q R))
      (FabricRPCHeaderProtoConverter Q R) P P' t a request clk_client clk clk_op u =
    Inr ((st, response), u')"
proof -
  have laws: "codec_laws R" "codec_laws P'" "deliverable R Status0"
    using set by (simp_all add: call_setting_def)
  note res = local_call_result[OF call]
  have D: "deliverable R st" using del laws(3) res(3) by (cases "failed st") auto
  let ?h = "wire R \<lparr>status_code = GetErrorCode st, status_message = GetErrorMessage st\<rparr>"
  let ?d = "case response of None \<Rightarrow> '''' | Some p \<Rightarrow> wire P' p"
  have "client_result (FabricRPCHeaderProtoConverter Q R) P' ?h ?d = (st, response)"
  proof (cases response)
    case None
    then show ?thesis using client_reads_status[OF laws(1) D] res(1,2) by simp
  next
    case (Some p)
    then show ?thesis
      using D rt laws res(2,3)
        proto_converter.client_reads_response[where Q = Q and R = R and P = P' and x = p and m = "''OK''"]
      by (auto simp: deliverable_def Let_def)
  qed
  moreover have "length ?h < 2 ^ 32" "length ?d < 2 ^ 32"
    using D rt by (auto simp: deliverable_def Let_def split: option.split)
  moreover have "serve b (handler_of route (FabricRPCHeaderProtoConverter Q R))
      (request_view (wire Q \<lparr>url = a\<rparr>) (wire P request)) (remaining_timeout t clk_client) clk clk_op u =
    Inr ((S_OK, request_view ?h ?d), u')"
    using serve_local_call[where route = route and bop = bop and eop = eop and a = a and request = request
        and t = "remaining_timeout t clk_client", OF set route] prot call del rt
    by (simp add: left carried_def)
  ultimately show ?thesis by (subst rpc_call_via_serve[OF set]) simp_all
qed

end
