(* ===== verification/Request_Concurrency.thy ===== *)
theory Request_Concurrency
  imports Request_Handler
begin

text \<open>
  One request of src/fabric_rpc under every interleaving of its threads: the transport's thread
  inside \<open>BeginProcessRequest\<close>, the threads of the service that invoke the callback proxy, and the
  transport's thread that runs \<open>EndProcessRequest\<close> once its own callback has been invoked.  The
  threads can be interrupted wherever the code holds no mutex: the payload's mutex protects only
  \<open>SetInnerCtx\<close>, and nothing protects an operation of the service from other calls.  An operation
  is called, takes effect on the services' state at some later point, and returns later still; so
  the calls of different requests overlap, and a service is only assumed to keep its own state
  consistent.
\<close>

section \<open>States\<close>

text \<open>Where the begin thread, an invocation of the proxy, and the end thread are.\<close>

datatype begin_pc =
    Operation_Called
  | Operation_Running
  | Operation_Returned
  | Begin_Refusing
  | Begin_Finished

datatype proxy_pc = Not_Invoked | Context_Stored | Transport_Invoked | Context_Released

datatype end_pc =
    End_Not_Called
  | End_Called
  | End_Operated FabricRPCReplyHeader string
  | End_Returned FabricRPCReplyHeader string

text \<open>
  \<open>operation\<close> is the call of the service's begin operation, waiting for the services' state;
  \<open>op_status\<close> and \<open>op_context\<close> are what it returns.  \<open>proxy_calls\<close> are the invocations of the proxy
  with their contexts; the first \<open>on_begin\<close> of them are made by the begin operation itself, one
  after the other, before it returns, the others by threads of the service, at any time after the
  operation has taken effect.
\<close>

record ('c, 'u) threads =
  begin_at :: begin_pc
  operation :: "('u \<Rightarrow> ('c, 'u) begin_result) option"
  op_status :: Status
  op_context :: "'c async_ctx option"
  on_begin :: nat
  proxy_calls :: "('c async_ctx option \<times> proxy_pc) list"
  run :: "('c, 'u) request_run"
  end_at :: end_pc
  replies :: "FRPCTransportMessage list"
  service_state :: 'u

datatype ('c, 'u) system = Running "('c, 'u) threads" | Faulted fault

fun system_of :: "('c, 'u) threads exec \<Rightarrow> ('c, 'u) system" where
  "system_of (Inl e) = Faulted e"
| "system_of (Inr th) = Running th"

text \<open>
  What the service does with the callback after its begin operation: the contexts with which its
  threads invoke it, for what the operation has returned.  It is a parameter; nothing here says
  that a service invokes the callback, or with which context.
\<close>

type_synonym ('c, 'u) completion = "('c, 'u) begin_result \<Rightarrow> 'c async_ctx option list"

section \<open>The arrival of a message\<close>

text \<open>
  The part of \<open>BeginProcessRequest\<close> before the begin operation: the header is read and the URL
  routed, which ends with the status of a refusal or with the two operations.
\<close>

definition begin_lookup ::
    "build \<Rightarrow> ('c, 'u) FRPCRequestHandler \<Rightarrow> string \<Rightarrow>
     (Status + ('c, 'u) IBeginOperation \<times> ('c, 'u) IEndOperation option) exec" where
  "begin_lookup b H header =
     (if length header = 0
      then Inr (Inl (Status2 (code_value INVALID_ARGUMENT) ''fabric rpc header is empty''))
      else
        ebind (deref ''cv_'' (h_cv H)) (\<lambda>conv.
        let (ok, fRequestHeader) = DeserializeRequestHeader conv header mk_FabricRPCRequestHeader
        in if \<not> ok
           then Inr (Inl (Status2 (code_value INVALID_ARGUMENT) ''Cannot parse fabric rpc header''))
           else
             ebind (deref ''svc_'' (h_svc H)) (\<lambda>route.
             let (err, beginOp, eop) = route (GetUrl fRequestHeader) (None, None)
             in if failed err then Inr (Inl err)
                else
                  ebind (cxx_assert b ''endOp != nullptr'' (eop \<noteq> None)) (\<lambda>_.
                  ebind (deref ''beginOp'' beginOp) (\<lambda>bop. Inr (Inr (bop, eop)))))))"

definition new_threads ::
    "begin_pc \<Rightarrow> ('u \<Rightarrow> ('c, 'u) begin_result) option \<Rightarrow> ('c, 'u) IEndOperation option \<Rightarrow> Status \<Rightarrow> 'u \<Rightarrow>
     ('c, 'u) threads" where
  "new_threads pc opn eop err u =
     \<lparr>begin_at = pc, operation = opn, op_status = err, op_context = None, on_begin = 0,
      proxy_calls = [], run = begun (new_ctxPayload\<lparr>endOp := eop\<rparr>) False,
      end_at = End_Not_Called, replies = [], service_state = u\<rparr>"

definition called ::
    "('u \<Rightarrow> ('c, 'u) begin_result) \<Rightarrow> ('c, 'u) IEndOperation option \<Rightarrow> 'u \<Rightarrow> ('c, 'u) threads" where
  "called opn eop u = new_threads Operation_Called (Some opn) eop Status0 u"

definition rejected :: "Status \<Rightarrow> 'u \<Rightarrow> ('c, 'u) threads" where
  "rejected err u = new_threads Operation_Returned None None err u"

definition arrival ::
    "build \<Rightarrow> ('c, 'u) FRPCRequestHandler \<Rightarrow> IFabricTransportMessage \<Rightarrow> DWORD \<Rightarrow> int \<times> int \<Rightarrow> int \<times> int \<Rightarrow>
     'u \<Rightarrow> ('c, 'u) system" where
  "arrival b H m t clk clk_op u =
     system_of
       (ebind (cxx_assert b ''svc_ != nullptr'' (h_svc H \<noteq> None)) (\<lambda>_.
        ebind (FRPC_CopyMsg (Some m) mk_FRPCTransportMessage) (\<lambda>msgPtr.
        ebind (begin_lookup b H (FRPC_GetHeader msgPtr)) (\<lambda>found.
        Inr (case found of
               Inl err \<Rightarrow> rejected err u
             | Inr (bop, eop) \<Rightarrow>
                 called (bop clk_op (FRPC_GetBody msgPtr) (remaining_timeout t clk)) eop u)))))"

section \<open>Steps\<close>

text \<open>
  \<open>FRPCOperationCallback::Invoke\<close> between its preemption points: storing the context, invoking the
  transport's callback with the request's context, and letting go of that context.  The transport
  must not be given a null context.
\<close>

definition invoke_store ::
    "build \<Rightarrow> 'c async_ctx option \<Rightarrow> ('c, 'u) request_run \<Rightarrow> ('c, 'u) request_run exec" where
  "invoke_store b context r =
     ebind (cxx_assert b ''context != nullptr'' (context \<noteq> None)) (\<lambda>_.
     ebind (cxx_assert b ''transportCallback_ != nullptr'' (transportCallback (run_callback r))) (\<lambda>_.
     ebind (cxx_assert b ''wrapCtx_ != nullptr'' (wrapCtx (run_callback r))) (\<lambda>_.
     ebind (deref ''wrapCtx_'' (if wrapCtx (run_callback r) then Some (run_payload r) else None)) (\<lambda>p.
     ebind (SetInnerCtx b context p) (\<lambda>p'. Inr (r\<lparr>run_payload := p'\<rparr>))))))"

definition invoke_transport :: "('c, 'u) request_run \<Rightarrow> ('c, 'u) request_run exec" where
  "invoke_transport r =
     ebind (deref ''transportCallback_'' (if transportCallback (run_callback r) then Some () else None)) (\<lambda>_.
     ebind (deref ''wrapCtx_'' (if wrapCtx (run_callback r) then Some (run_payload r) else None)) (\<lambda>p.
     Inr (r\<lparr>run_invoked := run_invoked r @ [p]\<rparr>)))"

definition invoke_release :: "('c, 'u) request_run \<Rightarrow> ('c, 'u) request_run" where
  "invoke_release r = r\<lparr>run_callback := (run_callback r)\<lparr>wrapCtx := False\<rparr>\<rparr>"

fun proxy_move ::
    "build \<Rightarrow> 'c async_ctx option \<Rightarrow> proxy_pc \<Rightarrow> ('c, 'u) request_run \<Rightarrow> ('c, 'u) request_run exec" where
  "proxy_move b x Not_Invoked r = invoke_store b x r"
| "proxy_move b x Context_Stored r = invoke_transport r"
| "proxy_move b x Transport_Invoked r = Inr (invoke_release r)"
| "proxy_move b x Context_Released r = Inr r"

fun next_pc :: "proxy_pc \<Rightarrow> proxy_pc" where
  "next_pc Not_Invoked = Context_Stored"
| "next_pc Context_Stored = Transport_Invoked"
| "next_pc _ = Context_Released"

text \<open>Uninterrupted, the three moves are \<open>Invoke\<close>.\<close>

lemma proxy_moves_are_Invoke:
  "Callback_Invoke b x r =
     ebind (proxy_move b x Not_Invoked r) (\<lambda>r1.
     ebind (proxy_move b x Context_Stored r1) (proxy_move b x Transport_Invoked))"
  by (cases "transportCallback (run_callback r)"; cases "wrapCtx (run_callback r)")
    (simp_all add: Callback_Invoke_def invoke_store_def invoke_transport_def invoke_release_def ebind_assoc)

text \<open>
  When an invocation can move: one of the begin operation's own while the operation runs and those
  before it are over, any other at any time.
\<close>

definition proxy_enabled :: "('c, 'u) threads \<Rightarrow> nat \<Rightarrow> bool" where
  "proxy_enabled th k \<longleftrightarrow>
     k < length (proxy_calls th) \<and> snd (proxy_calls th ! k) \<noteq> Context_Released \<and>
     (k < on_begin th \<longrightarrow>
        begin_at th = Operation_Running \<and> (\<forall>j < k. snd (proxy_calls th ! j) = Context_Released))"

definition proxy_step :: "build \<Rightarrow> nat \<Rightarrow> ('c, 'u) threads \<Rightarrow> ('c, 'u) threads exec" where
  "proxy_step b k th =
     (let (x, pc) = proxy_calls th ! k
      in ebind (proxy_move b x pc (run th)) (\<lambda>r.
         Inr (th\<lparr>run := r, proxy_calls := (proxy_calls th)[k := (x, next_pc pc)]\<rparr>)))"

text \<open>The effect of the begin operation, and what follows its return.\<close>

definition take_effect :: "('c, 'u) completion \<Rightarrow> ('u \<Rightarrow> ('c, 'u) begin_result) \<Rightarrow> ('c, 'u) threads \<Rightarrow> ('c, 'u) threads"
where
  "take_effect later opn th =
     (let res = opn (service_state th)
      in th\<lparr>begin_at := Operation_Running, op_status := br_status res, op_context := br_context res,
            on_begin := length (br_invokes res),
            proxy_calls := map (\<lambda>x. (x, Not_Invoked)) (br_invokes res @ later res),
            service_state := br_state res\<rparr>)"

definition begin_store :: "build \<Rightarrow> ('c, 'u) threads \<Rightarrow> ('c, 'u) threads exec" where
  "begin_store b th =
     ebind (SetInnerCtx b (op_context th) (run_payload (run th))) (\<lambda>p.
     Inr (th\<lparr>run := (run th)\<lparr>run_payload := p\<rparr>, begin_at := Begin_Finished\<rparr>))"

definition begin_refuse :: "build \<Rightarrow> ('c, 'u) threads \<Rightarrow> ('c, 'u) threads exec" where
  "begin_refuse b th =
     ebind (cxx_assert b ''ctx == nullptr'' (op_context th = None)) (\<lambda>_.
     ebind (cxx_assert b ''err'' (failed (op_status th))) (\<lambda>_.
     Inr (th\<lparr>run := (run th)\<lparr>run_payload := (run_payload (run th))\<lparr>beginStatus := op_status th\<rparr>\<rparr>,
             proxy_calls := proxy_calls th @ [(Some DummyCtx, Not_Invoked)],
             begin_at := Begin_Refusing\<rparr>)))"

text \<open>\<open>EndProcessRequest\<close> after the end operation: the reply is serialized and made.\<close>

definition reply_stage ::
    "build \<Rightarrow> ('c, 'u) FRPCRequestHandler \<Rightarrow> FabricRPCReplyHeader \<Rightarrow> string \<Rightarrow> FRPCTransportMessage exec" where
  "reply_stage b H fReplyHeader reply_str =
     ebind (deref ''cv_'' (h_cv H)) (\<lambda>conv.
     let (ok, h_response_str) = SerializeReplyHeader conv fReplyHeader
     in ebind (cxx_assert b ''ok'' ok) (\<lambda>_.
        Inr (FRPC_Initialize h_response_str reply_str mk_FRPCTransportMessage)))"

definition end_operate :: "build \<Rightarrow> ('c, 'u) threads \<Rightarrow> ('c, 'u) threads exec" where
  "end_operate b th =
     ebind (end_stage b (run_payload (run th)) (service_state th)) (\<lambda>((h, body), u).
     Inr (th\<lparr>end_at := End_Operated h body, service_state := u\<rparr>))"

definition end_reply ::
    "build \<Rightarrow> ('c, 'u) FRPCRequestHandler \<Rightarrow> FabricRPCReplyHeader \<Rightarrow> string \<Rightarrow> ('c, 'u) threads \<Rightarrow>
     ('c, 'u) threads exec" where
  "end_reply b H h body th =
     ebind (reply_stage b H h body) (\<lambda>reply.
     Inr (th\<lparr>end_at := End_Returned h body, replies := replies th @ [reply]\<rparr>))"

lemma EndProcessRequest_stages:
  "EndProcessRequest b H p u =
     ebind (end_stage b p u) (\<lambda>((h, body), u').
     ebind (reply_stage b H h body) (\<lambda>reply. Inr ((S_OK, reply), u')))"
  by (simp add: EndProcessRequest_def reply_stage_def ebind_assoc Let_def case_prod_unfold)

inductive thread_step ::
    "build \<Rightarrow> ('c, 'u) FRPCRequestHandler \<Rightarrow> ('c, 'u) completion \<Rightarrow> ('c, 'u) threads \<Rightarrow> ('c, 'u) system \<Rightarrow> bool"
  for b :: build and H :: "('c, 'u) FRPCRequestHandler" and later :: "('c, 'u) completion"
where
  operation_takes_effect:
    "begin_at s = Operation_Called \<Longrightarrow> operation s = Some opn \<Longrightarrow>
     thread_step b H later s (Running (take_effect later opn s))"
| operation_returns:
    "begin_at s = Operation_Running \<Longrightarrow>
     \<forall>k < on_begin s. snd (proxy_calls s ! k) = Context_Released \<Longrightarrow>
     thread_step b H later s (Running (s\<lparr>begin_at := Operation_Returned\<rparr>))"
| begin_stores_context:
    "begin_at s = Operation_Returned \<Longrightarrow> \<not> failed (op_status s) \<Longrightarrow>
     thread_step b H later s (system_of (begin_store b s))"
| begin_refuses:
    "begin_at s = Operation_Returned \<Longrightarrow> failed (op_status s) \<Longrightarrow>
     thread_step b H later s (system_of (begin_refuse b s))"
| begin_refused:
    "begin_at s = Begin_Refusing \<Longrightarrow> snd (last (proxy_calls s)) = Context_Released \<Longrightarrow>
     thread_step b H later s (Running (s\<lparr>begin_at := Begin_Finished\<rparr>))"
| proxy_moves:
    "proxy_enabled s k \<Longrightarrow> thread_step b H later s (system_of (proxy_step b k s))"
| transport_calls_end:
    "run_invoked (run s) \<noteq> [] \<Longrightarrow> end_at s = End_Not_Called \<Longrightarrow>
     thread_step b H later s (Running (s\<lparr>end_at := End_Called\<rparr>))"
| end_operates:
    "end_at s = End_Called \<Longrightarrow> thread_step b H later s (system_of (end_operate b s))"
| end_replies:
    "end_at s = End_Operated h body \<Longrightarrow> thread_step b H later s (system_of (end_reply b H h body s))"

inductive_simps thread_step_iff: "thread_step b H later s sys"

inductive reachable ::
    "build \<Rightarrow> ('c, 'u) FRPCRequestHandler \<Rightarrow> ('c, 'u) completion \<Rightarrow> ('c, 'u) threads \<Rightarrow> ('c, 'u) system \<Rightarrow> bool"
  for b :: build and H :: "('c, 'u) FRPCRequestHandler" and later :: "('c, 'u) completion"
    and s0 :: "('c, 'u) threads"
where
  initially: "reachable b H later s0 (Running s0)"
| stepped: "reachable b H later s0 (Running s) \<Longrightarrow> thread_step b H later s s' \<Longrightarrow> reachable b H later s0 s'"

section \<open>Without interleaving\<close>

text \<open>
  The mapped functions are the runs of one thread that nothing interrupts: an arrival followed by
  the steps of the begin thread is \<open>BeginProcessRequest\<close>, with every fault of it, and the three
  steps of the end thread are \<open>EndProcessRequest\<close>.
\<close>

lemma reachable_trans:
  assumes "reachable b H later s0 (Running s)" and "reachable b H later s sys"
  shows "reachable b H later s0 sys"
  using assms(2,1) by induction (auto intro: reachable.intros)

lemma reachable_step: "thread_step b H later s sys \<Longrightarrow> reachable b H later s sys"
  by (blast intro: reachable.intros)

text \<open>One invocation of the proxy.\<close>

definition call_turn :: "('c, 'u) threads \<Rightarrow> ('c async_ctx option \<times> proxy_pc) list \<Rightarrow> bool" where
  "call_turn s ds \<longleftrightarrow>
     (length ds < on_begin s \<longrightarrow>
        begin_at s = Operation_Running \<and> (\<forall>d \<in> set ds. snd d = Context_Released))"

lemma one_move:
  assumes "proxy_calls s = ds @ (x, pc) # rest" and "pc \<noteq> Context_Released" and "call_turn s ds"
  shows "reachable b H later s
    (system_of (ebind (proxy_move b x pc (run s)) (\<lambda>r.
       Inr (s\<lparr>run := r, proxy_calls := ds @ (x, next_pc pc) # rest\<rparr>))))"
proof -
  have "proxy_enabled s (length ds)"
    using assms by (auto simp: proxy_enabled_def call_turn_def nth_append)
  from thread_step.proxy_moves[OF this, of b H later] show ?thesis
    by (intro reachable_step) (simp add: proxy_step_def assms(1))
qed

lemma move_on:
  assumes "reachable b H later s (system_of m)"
    and "\<And>s'. m = Inr s' \<Longrightarrow> reachable b H later s' (system_of (f s'))"
  shows "reachable b H later s (system_of (ebind m f))"
  using assms reachable_trans by (cases m) fastforce+

lemma one_call:
  assumes "proxy_calls s = ds @ (x, Not_Invoked) # rest" and "call_turn s ds"
  shows "reachable b H later s
    (system_of (ebind (Callback_Invoke b x (run s)) (\<lambda>r.
       Inr (s\<lparr>run := r, proxy_calls := ds @ (x, Context_Released) # rest\<rparr>))))"
proof -
  let ?s = "\<lambda>pc r. s\<lparr>run := r, proxy_calls := ds @ (x, pc) # rest\<rparr>"
  have turn: "call_turn (?s pc r) ds" for pc r using assms(2) by (simp add: call_turn_def)
  have "reachable b H later s
    (system_of (ebind (ebind (proxy_move b x Not_Invoked (run s)) (\<lambda>r. Inr (?s Context_Stored r))) (\<lambda>s1.
       ebind (ebind (proxy_move b x Context_Stored (run s1)) (\<lambda>r. Inr (?s Transport_Invoked r))) (\<lambda>s2.
       ebind (proxy_move b x Transport_Invoked (run s2)) (\<lambda>r. Inr (?s Context_Released r))))))"
  proof (rule move_on)
    show "reachable b H later s (system_of (ebind (proxy_move b x Not_Invoked (run s)) (\<lambda>r. Inr (?s Context_Stored r))))"
      using one_move[OF assms(1) _ assms(2), of b H later] by simp
    fix s1 assume "ebind (proxy_move b x Not_Invoked (run s)) (\<lambda>r. Inr (?s Context_Stored r)) = Inr s1"
    then obtain r1 where s1: "s1 = ?s Context_Stored r1" by (auto simp: ebind_Inr_iff)
    show "reachable b H later s1 (system_of
        (ebind (ebind (proxy_move b x Context_Stored (run s1)) (\<lambda>r. Inr (?s Transport_Invoked r))) (\<lambda>s2.
         ebind (proxy_move b x Transport_Invoked (run s2)) (\<lambda>r. Inr (?s Context_Released r)))))"
    proof (rule move_on)
      show "reachable b H later s1 (system_of (ebind (proxy_move b x Context_Stored (run s1)) (\<lambda>r. Inr (?s Transport_Invoked r))))"
        using one_move[of s1 ds x Context_Stored rest b H later] turn s1 by simp
      fix s2 assume "ebind (proxy_move b x Context_Stored (run s1)) (\<lambda>r. Inr (?s Transport_Invoked r)) = Inr s2"
      then obtain r2 where s2: "s2 = ?s Transport_Invoked r2" by (auto simp: ebind_Inr_iff)
      show "reachable b H later s2 (system_of (ebind (proxy_move b x Transport_Invoked (run s2)) (\<lambda>r. Inr (?s Context_Released r))))"
        using one_move[of s2 ds x Transport_Invoked rest b H later] turn s2 by simp
    qed
  qed
  then show ?thesis unfolding proxy_moves_are_Invoke by (simp add: ebind_assoc)
qed

text \<open>The invocations that the begin operation makes, in their order.\<close>

lemma own_calls:
  assumes "proxy_calls s = ds @ map (\<lambda>x. (x, Not_Invoked)) xs @ rest" and "\<forall>d \<in> set ds. snd d = Context_Released"
    and "begin_at s = Operation_Running"
  shows "reachable b H later s
    (system_of (ebind (invoke_all b xs (run s)) (\<lambda>r.
       Inr (s\<lparr>run := r, proxy_calls := ds @ map (\<lambda>x. (x, Context_Released)) xs @ rest\<rparr>))))"
  using assms
proof (induction xs arbitrary: s ds)
  case Nil
  then have "s\<lparr>run := run s, proxy_calls := ds @ rest\<rparr> = s" by simp
  then show ?case by (simp add: reachable.initially)
next
  case (Cons x xs)
  let ?rest = "map (\<lambda>x. (x, Not_Invoked)) xs @ rest"
  let ?s = "\<lambda>r. s\<lparr>run := r, proxy_calls := ds @ (x, Context_Released) # ?rest\<rparr>"
  have "reachable b H later s (system_of (ebind (ebind (Callback_Invoke b x (run s)) (\<lambda>r. Inr (?s r)))
      (\<lambda>s1. ebind (invoke_all b xs (run s1)) (\<lambda>r.
        Inr (s1\<lparr>run := r, proxy_calls := (ds @ [(x, Context_Released)]) @ map (\<lambda>x. (x, Context_Released)) xs @ rest\<rparr>)))))"
  proof (rule move_on)
    show "reachable b H later s (system_of (ebind (Callback_Invoke b x (run s)) (\<lambda>r. Inr (?s r))))"
      by (rule one_call) (use Cons.prems in \<open>simp_all add: call_turn_def\<close>)
    fix s1 assume "ebind (Callback_Invoke b x (run s)) (\<lambda>r. Inr (?s r)) = Inr s1"
    then obtain r1 where "s1 = ?s r1" by (auto simp: ebind_Inr_iff)
    then show "reachable b H later s1 (system_of (ebind (invoke_all b xs (run s1)) (\<lambda>r.
        Inr (s1\<lparr>run := r, proxy_calls := (ds @ [(x, Context_Released)]) @ map (\<lambda>x. (x, Context_Released)) xs @ rest\<rparr>))))"
      by (intro Cons.IH) (use Cons.prems in auto)
  qed
  moreover have "ebind (ebind (Callback_Invoke b x (run s)) (\<lambda>r. Inr (?s r)))
      (\<lambda>s1. ebind (invoke_all b xs (run s1)) (\<lambda>r.
        Inr (s1\<lparr>run := r, proxy_calls := (ds @ [(x, Context_Released)]) @ map (\<lambda>x. (x, Context_Released)) xs @ rest\<rparr>))) =
    ebind (invoke_all b (x # xs) (run s)) (\<lambda>r.
       Inr (s\<lparr>run := r, proxy_calls := ds @ map (\<lambda>x. (x, Context_Released)) (x # xs) @ rest\<rparr>))"
    by (cases "Callback_Invoke b x (run s)") simp_all
  ultimately show ?case by simp
qed

text \<open>\<open>BeginProcessRequest\<close> after its begin operation.\<close>

definition begin_tail :: "build \<Rightarrow> ('c, 'u) threads \<Rightarrow> ('c, 'u) threads exec" where
  "begin_tail b s =
     (if \<not> failed (op_status s) then begin_store b s
      else
        ebind (begin_refuse b s) (\<lambda>s1.
        ebind (Callback_Invoke b (Some DummyCtx) (run s1)) (\<lambda>r.
        Inr (s1\<lparr>run := r, proxy_calls := proxy_calls s @ [(Some DummyCtx, Context_Released)],
                begin_at := Begin_Finished\<rparr>))))"

lemma tail_alone:
  assumes "begin_at s = Operation_Returned" and "on_begin s \<le> length (proxy_calls s)"
  shows "reachable b H later s (system_of (begin_tail b s))"
proof (cases "failed (op_status s)")
  case False
  from thread_step.begin_stores_context[OF assms(1) this] show ?thesis
    using False by (auto simp: begin_tail_def intro: reachable_step)
next
  case True
  let ?s = "\<lambda>s1 r. s1\<lparr>run := r, proxy_calls := proxy_calls s @ [(Some DummyCtx, Context_Released)]\<rparr>"
  have "reachable b H later s (system_of (ebind (begin_refuse b s) (\<lambda>s1.
      ebind (ebind (Callback_Invoke b (Some DummyCtx) (run s1)) (\<lambda>r. Inr (?s s1 r))) (\<lambda>s2.
      Inr (s2\<lparr>begin_at := Begin_Finished\<rparr>)))))"
  proof (intro move_on)
    show "reachable b H later s (system_of (begin_refuse b s))"
      using thread_step.begin_refuses[OF assms(1) True] by (rule reachable_step)
    fix s1 assume "begin_refuse b s = Inr s1"
    then have s1: "proxy_calls s1 = proxy_calls s @ (Some DummyCtx, Not_Invoked) # []" "on_begin s1 = on_begin s"
      "begin_at s1 = Begin_Refusing"
      by (auto simp: begin_refuse_def ebind_Inr_iff)
    show "reachable b H later s1 (system_of (ebind (Callback_Invoke b (Some DummyCtx) (run s1)) (\<lambda>r. Inr (?s s1 r))))"
      by (rule one_call[OF s1(1)]) (use s1(2) assms(2) in \<open>simp add: call_turn_def\<close>)
    fix s2 assume "ebind (Callback_Invoke b (Some DummyCtx) (run s1)) (\<lambda>r. Inr (?s s1 r)) = Inr s2"
    then have "begin_at s2 = Begin_Refusing" "snd (last (proxy_calls s2)) = Context_Released"
      using s1(3) by (auto simp: ebind_Inr_iff)
    from thread_step.begin_refused[OF this] show "reachable b H later s2 (system_of (Inr (s2\<lparr>begin_at := Begin_Finished\<rparr>)))"
      by (simp add: reachable_step)
  qed
  then show ?thesis using True by (simp add: begin_tail_def ebind_assoc)
qed

lemma begin_stage_lookup:
  "begin_stage b H header body t clk clk_op r u =
     ebind (begin_lookup b H header) (\<lambda>found.
       case found of
         Inl err \<Rightarrow> Inr (err, None, r, u)
       | Inr (bop, eop) \<Rightarrow>
           let res = bop clk_op body (remaining_timeout t clk) u
           in ebind (invoke_all b (br_invokes res) (r\<lparr>run_payload := (run_payload r)\<lparr>endOp := eop\<rparr>\<rparr>)) (\<lambda>r2.
              Inr (br_status res, br_context res, r2, br_state res)))"
  by (cases "h_cv H"; cases "h_svc H")
    (simp_all add: begin_stage_def begin_lookup_def ebind_assoc Let_def case_prod_unfold)

definition called_alone :: "build \<Rightarrow> ('c, 'u) completion \<Rightarrow> ('u \<Rightarrow> ('c, 'u) begin_result) \<Rightarrow> ('c, 'u) threads \<Rightarrow>
    ('c, 'u) threads exec" where
  "called_alone b later opn s =
     (let res = opn (service_state s)
      in ebind (invoke_all b (br_invokes res) (run s)) (\<lambda>r.
         begin_tail b ((take_effect later opn s)\<lparr>run := r,
           proxy_calls := map (\<lambda>x. (x, Context_Released)) (br_invokes res) @ map (\<lambda>x. (x, Not_Invoked)) (later res),
           begin_at := Operation_Returned\<rparr>)))"

lemma operation_alone:
  assumes "begin_at s = Operation_Called" and "operation s = Some opn"
  shows "reachable b H later s (system_of (called_alone b later opn s))"
proof -
  let ?res = "opn (service_state s)"
  let ?s1 = "take_effect later opn s"
  let ?rest = "map (\<lambda>x. (x, Not_Invoked)) (later ?res)"
  let ?s2 = "\<lambda>r. ?s1\<lparr>run := r, proxy_calls := [] @ map (\<lambda>x. (x, Context_Released)) (br_invokes ?res) @ ?rest\<rparr>"
  have s1: "run ?s1 = run s" "begin_at ?s1 = Operation_Running" "on_begin ?s1 = length (br_invokes ?res)"
    "proxy_calls ?s1 = [] @ map (\<lambda>x. (x, Not_Invoked)) (br_invokes ?res) @ ?rest"
    by (simp_all add: take_effect_def Let_def)
  have "reachable b H later s (Running ?s1)"
    using thread_step.operation_takes_effect[OF assms] by (rule reachable_step)
  moreover have "reachable b H later ?s1 (system_of
      (ebind (ebind (invoke_all b (br_invokes ?res) (run ?s1)) (\<lambda>r. Inr (?s2 r))) (\<lambda>s2.
        begin_tail b (s2\<lparr>begin_at := Operation_Returned\<rparr>))))"
  proof (rule move_on)
    show "reachable b H later ?s1 (system_of (ebind (invoke_all b (br_invokes ?res) (run ?s1)) (\<lambda>r. Inr (?s2 r))))"
      by (rule own_calls) (use s1 in simp_all)
    fix s2 assume "ebind (invoke_all b (br_invokes ?res) (run ?s1)) (\<lambda>r. Inr (?s2 r)) = Inr s2"
    then obtain r where s2: "s2 = ?s2 r" by (auto simp: ebind_Inr_iff)
    have p: "begin_at s2 = Operation_Running" "\<forall>k < on_begin s2. snd (proxy_calls s2 ! k) = Context_Released"
      using s1(2,3) by (simp_all add: s2 nth_append)
    have "reachable b H later s2 (Running (s2\<lparr>begin_at := Operation_Returned\<rparr>))"
      using thread_step.operation_returns[OF p] by (rule reachable_step)
    moreover have "reachable b H later (s2\<lparr>begin_at := Operation_Returned\<rparr>)
        (system_of (begin_tail b (s2\<lparr>begin_at := Operation_Returned\<rparr>)))"
      by (rule tail_alone) (use s1(3) in \<open>simp_all add: s2\<close>)
    ultimately show "reachable b H later s2 (system_of (begin_tail b (s2\<lparr>begin_at := Operation_Returned\<rparr>)))"
      by (rule reachable_trans)
  qed
  ultimately show ?thesis
    using reachable_trans s1(1) by (fastforce simp: called_alone_def Let_def ebind_assoc)
qed

definition begin_alone :: "build \<Rightarrow> ('c, 'u) completion \<Rightarrow> ('c, 'u) threads \<Rightarrow> ('c, 'u) threads exec" where
  "begin_alone b later s =
     (case operation s of None \<Rightarrow> begin_tail b s | Some opn \<Rightarrow> called_alone b later opn s)"

lemma begin_tail_outcome:
  "ebind (begin_tail b s) (\<lambda>s'. Inr (run s', service_state s')) =
     (if \<not> failed (op_status s)
      then ebind (SetInnerCtx b (op_context s) (run_payload (run s))) (\<lambda>p.
        Inr ((run s)\<lparr>run_payload := p\<rparr>, service_state s))
      else
        ebind (cxx_assert b ''ctx == nullptr'' (op_context s = None)) (\<lambda>_.
        ebind (Callback_Invoke b (Some DummyCtx)
          ((run s)\<lparr>run_payload := (run_payload (run s))\<lparr>beginStatus := op_status s\<rparr>\<rparr>)) (\<lambda>r.
        Inr (r, service_state s))))"
  by (simp add: begin_tail_def begin_store_def begin_refuse_def ebind_assoc cxx_assert_cong)

lemma BeginProcessRequest_alone:
  "BeginProcessRequest b H (Some m) t True clk clk_op u =
     (case arrival b H m t clk clk_op u of
        Faulted e \<Rightarrow> Inl e
      | Running s \<Rightarrow> ebind (begin_alone b later s) (\<lambda>s'. Inr (run s', service_state s')))"
proof (cases "ebind (cxx_assert b ''svc_ != nullptr'' (h_svc H \<noteq> None)) (\<lambda>_. FRPC_CopyMsg (Some m) mk_FRPCTransportMessage)")
  case (Inl e)
  then show ?thesis
    by (cases "cxx_assert b ''svc_ != nullptr'' (h_svc H \<noteq> None)"; cases "FRPC_CopyMsg (Some m) mk_FRPCTransportMessage")
      (simp_all add: BeginProcessRequest_def arrival_def)
next
  case (Inr msg)
  then have svc: "cxx_assert b ''svc_ != nullptr'' (h_svc H \<noteq> None) = Inr ()"
    and msg: "FRPC_CopyMsg (Some m) mk_FRPCTransportMessage = Inr msg"
    by (auto simp: ebind_Inr_iff)
  note tail = begin_tail_outcome and svc = svc[unfolded not_None_eq]
  show ?thesis
  proof (cases "begin_lookup b H (FRPC_GetHeader msg)")
    case (Inl e)
    then show ?thesis by (simp add: BeginProcessRequest_def arrival_def svc msg begin_stage_lookup)
  next
    case (Inr found)
    show ?thesis
    proof (cases found)
      case (Inl err)
      have "failed err"
        using Inr Inl
        by (auto simp: begin_lookup_def ebind_Inr_iff Let_def case_prod_unfold split: if_splits)
      then show ?thesis
        using Inr Inl
        by (simp add: BeginProcessRequest_def arrival_def svc msg begin_stage_lookup rejected_def new_threads_def
            begin_alone_def tail begun_def new_ctxPayload_def cxx_assert_cong)
    next
      case (Inr ops)
      obtain bop eop where "ops = (bop, eop)" by (rule prod.exhaust)
      then show ?thesis
        using \<open>begin_lookup b H (FRPC_GetHeader msg) = Inr found\<close> Inr
        by (cases "failed (br_status (bop clk_op (FRPC_GetBody msg) (remaining_timeout t clk) u))")
          (simp_all add: BeginProcessRequest_def arrival_def svc msg begin_stage_lookup called_def new_threads_def
            begin_alone_def called_alone_def tail begun_def new_ctxPayload_def ebind_assoc Let_def take_effect_def
            cxx_assert_cong)
    qed
  qed
qed

lemma system_of_iff [simp]:
  "system_of r = Running s \<longleftrightarrow> r = Inr s" "system_of r = Faulted e \<longleftrightarrow> r = Inl e"
  "Running s = system_of r \<longleftrightarrow> r = Inr s" "Faulted e = system_of r \<longleftrightarrow> r = Inl e"
  by (cases r; auto)+

lemma arrival_cases:
  assumes "arrival b H m t clk clk_op u = Running s"
  obtains msg err where "FRPC_CopyMsg (Some m) mk_FRPCTransportMessage = Inr msg"
      "begin_lookup b H (FRPC_GetHeader msg) = Inr (Inl err)" "s = rejected err u"
  | msg bop eop where "FRPC_CopyMsg (Some m) mk_FRPCTransportMessage = Inr msg"
      "begin_lookup b H (FRPC_GetHeader msg) = Inr (Inr (bop, eop))"
      "s = called (bop clk_op (FRPC_GetBody msg) (remaining_timeout t clk)) eop u"
proof -
  from assms obtain msg found where "FRPC_CopyMsg (Some m) mk_FRPCTransportMessage = Inr msg"
    and "begin_lookup b H (FRPC_GetHeader msg) = Inr found"
    and "s = (case found of
               Inl err \<Rightarrow> rejected err u
             | Inr (bop, eop) \<Rightarrow> called (bop clk_op (FRPC_GetBody msg) (remaining_timeout t clk)) eop u)"
    by (auto simp: arrival_def ebind_Inr_iff)
  then show ?thesis using that by (cases found) (auto simp: case_prod_unfold)
qed

text \<open>So an arrival that nothing interrupts does what \<open>BeginProcessRequest\<close> does, faults included.\<close>

lemma arrival_alone:
  shows "arrival b H m t clk clk_op u = Faulted e \<Longrightarrow>
      BeginProcessRequest b H (Some m) t True clk clk_op u = Inl e"
    and "arrival b H m t clk clk_op u = Running s \<Longrightarrow>
      (case BeginProcessRequest b H (Some m) t True clk clk_op u of
         Inl e \<Rightarrow> reachable b H later s (Faulted e)
       | Inr (r, u') \<Rightarrow> \<exists>s'. reachable b H later s (Running s') \<and> run s' = r \<and> service_state s' = u')"
proof -
  show "BeginProcessRequest b H (Some m) t True clk clk_op u = Inl e" if "arrival b H m t clk clk_op u = Faulted e"
    using that by (simp add: BeginProcessRequest_alone[where later = "\<lambda>_. []"])
  assume s: "arrival b H m t clk clk_op u = Running s"
  then have "reachable b H later s (system_of (begin_alone b later s))"
  proof (cases rule: arrival_cases)
    case (1 msg err)
    then show ?thesis
      using tail_alone[of s b H later] by (simp add: begin_alone_def rejected_def new_threads_def)
  next
    case (2 msg bop eop)
    then show ?thesis
      using operation_alone[of s _ b H later] by (simp add: begin_alone_def called_def new_threads_def)
  qed
  then show "case BeginProcessRequest b H (Some m) t True clk clk_op u of
         Inl e \<Rightarrow> reachable b H later s (Faulted e)
       | Inr (r, u') \<Rightarrow> \<exists>s'. reachable b H later s (Running s') \<and> run s' = r \<and> service_state s' = u'"
    by (cases "begin_alone b later s") (auto simp: BeginProcessRequest_alone[where later = later] s)
qed

text \<open>And the end thread alone is \<open>EndProcessRequest\<close>.\<close>

lemma end_alone:
  assumes "run_invoked (run s) \<noteq> []" and "end_at s = End_Not_Called"
  shows "case EndProcessRequest b H (run_payload (run s)) (service_state s) of
      Inl e \<Rightarrow> reachable b H later s (Faulted e)
    | Inr ((hr, reply), u) \<Rightarrow>
        \<exists>s'. reachable b H later s (Running s') \<and> replies s' = replies s @ [reply] \<and> service_state s' = u"
proof -
  let ?s1 = "s\<lparr>end_at := End_Called\<rparr>"
  have s1: "reachable b H later s (Running ?s1)"
    using thread_step.transport_calls_end[OF assms] by (rule reachable_step)
  have s2: "reachable b H later ?s1 (system_of (end_operate b ?s1))"
    using thread_step.end_operates[of ?s1 b H later] by (simp add: reachable_step)
  show ?thesis
  proof (cases "end_stage b (run_payload (run s)) (service_state s)")
    case (Inl e)
    then show ?thesis
      using reachable_trans[OF s1 s2] by (simp add: EndProcessRequest_stages end_operate_def)
  next
    case (Inr v)
    obtain h body u where v: "v = ((h, body), u)" by (metis prod.exhaust)
    let ?s2 = "s\<lparr>end_at := End_Operated h body, service_state := u\<rparr>"
    have r: "reachable b H later s (Running ?s2)"
      using reachable_trans[OF s1 s2] Inr v by (simp add: end_operate_def)
    have "reachable b H later ?s2 (system_of (end_reply b H h body ?s2))"
      using thread_step.end_replies[of ?s2 h body b H later] by (simp add: reachable_step)
    from reachable_trans[OF r this] show ?thesis
      using Inr v by (cases "reply_stage b H h body") (auto simp: EndProcessRequest_stages end_reply_def)
  qed
qed

end
