(* ===== verification/Request_Invariant.thy ===== *)
theory Request_Invariant
  imports Request_Concurrency
begin

text \<open>
  What a service has to promise so that the threads of theory \<open>Request_Concurrency\<close> serve its
  requests, and what then holds of one request in every interleaving: no fault, one notification,
  one reply, and a bound on the steps.
\<close>

section \<open>The promises of a service\<close>

definition sendable :: "IFabricRPCHeaderProtoConverter \<Rightarrow> Status \<Rightarrow> bool" where
  "sendable conv err \<longleftrightarrow>
     fst (SerializeReplyHeader conv
            \<lparr>status_code = GetErrorCode err, status_message = GetErrorMessage err\<rparr>)"

text \<open>
  The end operation, given the context of its begin operation, returns, with a status that has a
  message and that the converter can send.
\<close>

definition end_operation_ok ::
    "IFabricRPCHeaderProtoConverter \<Rightarrow> ('c, 'u) IEndOperation \<Rightarrow> 'c \<Rightarrow> bool" where
  "end_operation_ok conv eo c \<longleftrightarrow>
     (\<forall>b u. \<exists>err reply u'. eo b (Some (UserCtx c)) '''' u = Inr ((err, reply), u') \<and>
        GetErrorMessage err \<noteq> '''' \<and> sendable conv err)"

text \<open>
  The begin operation keeps the asynchronous protocol, and the callback is invoked for it exactly
  once, before or after it returns, with the context that it returns; for a call that fails it is
  not invoked at all.
\<close>

definition completes_once :: "('c, 'u) completion \<Rightarrow> ('c, 'u) begin_result \<Rightarrow> bool" where
  "completes_once later res \<longleftrightarrow>
     follows_protocol res \<and>
     (if failed (br_status res) then later res = [] else br_invokes res @ later res = [br_context res])"

definition operation_ok ::
    "IFabricRPCHeaderProtoConverter \<Rightarrow> ('c, 'u) completion \<Rightarrow> ('c, 'u) IEndOperation \<Rightarrow>
     ('c, 'u) begin_result \<Rightarrow> bool" where
  "operation_ok conv later eo res \<longleftrightarrow>
     completes_once later res \<and>
     (if failed (br_status res) then sendable conv (br_status res)
      else \<forall>c. br_context res = Some (UserCtx c) \<longrightarrow> end_operation_ok conv eo c)"

section \<open>The invariant of a request\<close>

text \<open>The payload when the request can be ended.\<close>

definition complete_payload :: "('c, 'u) IEndOperation \<Rightarrow> 'c \<Rightarrow> ('c, 'u) ctxPayload" where
  "complete_payload eo c = \<lparr>endOp = Some eo, beginStatus = Status0, innerCtx = Some (UserCtx c)\<rparr>"

definition notified :: "proxy_pc \<Rightarrow> bool" where
  "notified pc \<longleftrightarrow> pc = Transport_Invoked \<or> pc = Context_Released"

text \<open>Nothing has happened yet, and: the one invocation of the proxy, which is made with \<open>x\<close>.\<close>

definition quiet :: "('c, 'u) threads \<Rightarrow> bool" where
  "quiet th \<longleftrightarrow>
     proxy_calls th = [] \<and> on_begin th = 0 \<and> end_at th = End_Not_Called \<and>
     (\<exists>eop. run th = begun (new_ctxPayload\<lparr>endOp := eop\<rparr>) False)"

definition invoked_once ::
    "('c, 'u) IEndOperation option \<Rightarrow> Status \<Rightarrow> 'c async_ctx \<Rightarrow> proxy_pc \<Rightarrow> ('c, 'u) threads \<Rightarrow> bool" where
  "invoked_once eop err x pc th \<longleftrightarrow>
     proxy_calls th = [(Some x, pc)] \<and>
     run th =
       \<lparr>run_payload =
          \<lparr>endOp = eop, beginStatus = err,
           innerCtx = (if pc \<noteq> Not_Invoked \<or> begin_at th = Begin_Finished then Some x else None)\<rparr>,
        run_callback = \<lparr>transportCallback = True, wrapCtx = (pc \<noteq> Context_Released)\<rparr>,
        run_invoked = (if notified pc then [\<lparr>endOp = eop, beginStatus = err, innerCtx = Some x\<rparr>] else [])\<rparr> \<and>
     (end_at th \<noteq> End_Not_Called \<longrightarrow> notified pc)"

definition accepted_inv :: "IFabricRPCHeaderProtoConverter \<Rightarrow> ('c, 'u) threads \<Rightarrow> bool" where
  "accepted_inv conv th \<longleftrightarrow>
     \<not> failed (op_status th) \<and> begin_at th \<noteq> Operation_Called \<and> begin_at th \<noteq> Begin_Refusing \<and>
     on_begin th \<le> 1 \<and>
     (\<exists>eo c pc. op_context th = Some (UserCtx c) \<and> end_operation_ok conv eo c \<and>
        invoked_once (Some eo) Status0 (UserCtx c) pc th \<and>
        (on_begin th = 1 \<longrightarrow> begin_at th \<noteq> Operation_Running \<longrightarrow> pc = Context_Released))"

definition refused_inv :: "IFabricRPCHeaderProtoConverter \<Rightarrow> ('c, 'u) threads \<Rightarrow> bool" where
  "refused_inv conv th \<longleftrightarrow>
     failed (op_status th) \<and> op_context th = None \<and> on_begin th = 0 \<and> sendable conv (op_status th) \<and>
     (case begin_at th of
        Operation_Called \<Rightarrow> False
      | Operation_Running \<Rightarrow> quiet th
      | Operation_Returned \<Rightarrow> quiet th
      | Begin_Refusing \<Rightarrow> \<exists>eop pc. invoked_once eop (op_status th) DummyCtx pc th
      | Begin_Finished \<Rightarrow> \<exists>eop. invoked_once eop (op_status th) DummyCtx Context_Released th)"

definition called_inv ::
    "IFabricRPCHeaderProtoConverter \<Rightarrow> ('c, 'u) completion \<Rightarrow> ('c, 'u) threads \<Rightarrow> bool" where
  "called_inv conv later th \<longleftrightarrow>
     begin_at th = Operation_Called \<and> quiet th \<and>
     (\<exists>opn eo. operation th = Some opn \<and> endOp (run_payload (run th)) = Some eo \<and>
        operation_ok conv later eo (opn (service_state th)))"

definition reply_with ::
    "IFabricRPCHeaderProtoConverter \<Rightarrow> FabricRPCReplyHeader \<Rightarrow> string \<Rightarrow> FRPCTransportMessage" where
  "reply_with conv h body = FRPC_Initialize (snd (SerializeReplyHeader conv h)) body mk_FRPCTransportMessage"

definition end_inv :: "IFabricRPCHeaderProtoConverter \<Rightarrow> ('c, 'u) threads \<Rightarrow> bool" where
  "end_inv conv th \<longleftrightarrow>
     (case end_at th of
        End_Returned h body \<Rightarrow> replies th = [reply_with conv h body]
      | End_Operated h body \<Rightarrow> replies th = [] \<and> fst (SerializeReplyHeader conv h)
      | _ \<Rightarrow> replies th = [])"

lemma end_inv_same:
  "end_inv conv th \<Longrightarrow> end_at th' = end_at th \<Longrightarrow> replies th' = replies th \<Longrightarrow> end_inv conv th'"
  by (cases "end_at th") (simp_all add: end_inv_def)

definition request_inv ::
    "IFabricRPCHeaderProtoConverter \<Rightarrow> ('c, 'u) completion \<Rightarrow> ('c, 'u) threads \<Rightarrow> bool" where
  "request_inv conv later th \<longleftrightarrow>
     end_inv conv th \<and> (called_inv conv later th \<or> accepted_inv conv th \<or> refused_inv conv th)"

lemmas request_inv_defs = request_inv_def end_inv_def called_inv_def accepted_inv_def refused_inv_def

section \<open>The steps that are left\<close>

fun begin_left :: "begin_pc \<Rightarrow> nat" where
  "begin_left Operation_Called = 10"
| "begin_left Operation_Running = 6"
| "begin_left Operation_Returned = 5"
| "begin_left Begin_Refusing = 1"
| "begin_left Begin_Finished = 0"

fun proxy_left :: "proxy_pc \<Rightarrow> nat" where
  "proxy_left Not_Invoked = 3"
| "proxy_left Context_Stored = 2"
| "proxy_left Transport_Invoked = 1"
| "proxy_left Context_Released = 0"

fun end_left :: "end_pc \<Rightarrow> nat" where
  "end_left End_Not_Called = 3"
| "end_left End_Called = 2"
| "end_left (End_Operated h body) = 1"
| "end_left (End_Returned h body) = 0"

text \<open>A bound on the steps that the threads of a request have left.\<close>

definition threads_left :: "('c, 'u) threads \<Rightarrow> nat" where
  "threads_left th =
     begin_left (begin_at th) + sum_list (map (\<lambda>c. proxy_left (snd c)) (proxy_calls th)) + end_left (end_at th)"

definition finished :: "('c, 'u) threads \<Rightarrow> bool" where
  "finished th \<longleftrightarrow>
     begin_at th = Begin_Finished \<and> (\<forall>c \<in> set (proxy_calls th). snd c = Context_Released) \<and>
     length (replies th) = 1"

section \<open>What a step does\<close>

text \<open>
  A step that is allowed by the invariant returns, keeps the invariant and takes one of the steps
  that are left.
\<close>

definition good_step ::
    "IFabricRPCHeaderProtoConverter \<Rightarrow> ('c, 'u) completion \<Rightarrow> ('c, 'u) threads \<Rightarrow> ('c, 'u) system \<Rightarrow> bool" where
  "good_step conv later th sys \<longleftrightarrow>
     (\<exists>th'. sys = Running th' \<and> request_inv conv later th' \<and> threads_left th' < threads_left th)"

lemma take_effect_good:
  assumes "request_inv conv later th" and "begin_at th = Operation_Called" and "operation th = Some opn"
  shows "good_step conv later th (Running (take_effect later opn th))"
proof -
  let ?res = "opn (service_state th)" and ?th = "take_effect later opn th"
  obtain eo where q: "quiet th" and eo: "run th = begun (new_ctxPayload\<lparr>endOp := Some eo\<rparr>) False"
    and ok: "operation_ok conv later eo ?res" and e: "end_inv conv th"
    using assms
    by (auto simp: request_inv_def called_inv_def accepted_inv_def refused_inv_def quiet_def begun_def new_ctxPayload_def)
  have "end_inv conv ?th" using e by (rule end_inv_same) (simp_all add: take_effect_def Let_def)
  show ?thesis
  proof (cases "failed (br_status ?res)")
    case True
    then have "refused_inv conv ?th"
      using ok q by (auto simp: operation_ok_def completes_once_def follows_protocol_def refused_inv_def quiet_def
          take_effect_def Let_def)
    moreover have "threads_left ?th < threads_left th"
      using True ok q assms(2) by (simp add: operation_ok_def completes_once_def follows_protocol_def threads_left_def
          quiet_def take_effect_def Let_def)
    ultimately show ?thesis using \<open>end_inv conv ?th\<close> by (auto simp: good_step_def request_inv_def)
  next
    case False
    then obtain c where c: "br_context ?res = Some (UserCtx c)" and inv: "br_invokes ?res @ later ?res = [Some (UserCtx c)]"
      and eok: "end_operation_ok conv eo c"
      using ok by (auto simp: operation_ok_def completes_once_def follows_protocol_def)
    have len: "length (br_invokes ?res) \<le> 1" using inv by (cases "br_invokes ?res") auto
    have "invoked_once (Some eo) Status0 (UserCtx c) Not_Invoked ?th"
      using q eo
      by (simp add: invoked_once_def quiet_def take_effect_def Let_def begun_def new_ctxPayload_def notified_def inv
          del: map_append)
    then have "accepted_inv conv ?th"
      using False c eok len unfolding accepted_inv_def by (auto simp: take_effect_def Let_def)
    moreover have "threads_left ?th < threads_left th"
      using q assms(2) by (simp add: threads_left_def quiet_def take_effect_def Let_def inv del: map_append)
    ultimately show ?thesis using \<open>end_inv conv ?th\<close> by (auto simp: good_step_def request_inv_def)
  qed
qed

text \<open>The invocation of the proxy can always move, and does what the sequential \<open>Invoke\<close> does.\<close>

lemma proxy_step_once:
  assumes "invoked_once eop err x pc th" and "pc \<noteq> Context_Released"
  shows "\<exists>th'. proxy_step b 0 th = Inr th' \<and> invoked_once eop err x (next_pc pc) th' \<and>
    th' = th\<lparr>run := run th', proxy_calls := proxy_calls th'\<rparr>"
  using assms
  by (cases pc)
    (auto simp: invoked_once_def proxy_step_def invoke_store_def invoke_transport_def invoke_release_def
      SetInnerCtx_def notified_def)

lemma proxy_step_good:
  assumes "request_inv conv later th" and "proxy_enabled th k"
  shows "good_step conv later th (system_of (proxy_step b k th))"
proof -
  have k: "k < length (proxy_calls th)" "snd (proxy_calls th ! k) \<noteq> Context_Released"
    using assms(2) by (simp_all add: proxy_enabled_def)
  have nq: "\<not> quiet th" using k by (auto simp: quiet_def)
  have left: "threads_left th' < threads_left th"
    if "invoked_once eop err x pc th" "pc \<noteq> Context_Released" "invoked_once eop err x (next_pc pc) th'"
      "th' = th\<lparr>run := run th', proxy_calls := proxy_calls th'\<rparr>" for eop err x pc th'
  proof -
    have "begin_at th' = begin_at th" "end_at th' = end_at th" by (subst that(4), simp)+
    then show ?thesis using that(1,2,3) by (cases pc) (simp_all add: threads_left_def invoked_once_def)
  qed
  have same: "end_inv conv th'" if "th' = th\<lparr>run := run th', proxy_calls := proxy_calls th'\<rparr>" for th'
  proof (rule end_inv_same)
    show "end_inv conv th" using assms(1) by (simp add: request_inv_def)
  qed (subst that, simp)+
  from assms(1) nq consider "accepted_inv conv th" | "refused_inv conv th"
    by (auto simp: request_inv_def called_inv_def)
  then show ?thesis
  proof cases
    case 1
    then obtain eo c pc where a: "op_context th = Some (UserCtx c)" "end_operation_ok conv eo c"
      "invoked_once (Some eo) Status0 (UserCtx c) pc th"
      "on_begin th = 1 \<longrightarrow> begin_at th \<noteq> Operation_Running \<longrightarrow> pc = Context_Released"
      by (auto simp: accepted_inv_def)
    then have "k = 0" "pc \<noteq> Context_Released" using k by (auto simp: invoked_once_def)
    from proxy_step_once[OF a(3) this(2)] obtain th' where th': "proxy_step b 0 th = Inr th'"
      "invoked_once (Some eo) Status0 (UserCtx c) (next_pc pc) th'"
      "th' = th\<lparr>run := run th', proxy_calls := proxy_calls th'\<rparr>" by blast
    have f: "begin_at th' = begin_at th" "op_status th' = op_status th" "op_context th' = op_context th"
      "on_begin th' = on_begin th" by (subst th'(3), simp)+
    have "accepted_inv conv th'"
      using 1 a th'(2) \<open>pc \<noteq> Context_Released\<close> unfolding accepted_inv_def f by blast
    then show ?thesis
      using \<open>k = 0\<close> th'(1) left[OF a(3) \<open>pc \<noteq> _\<close> th'(2,3)] same[OF th'(3)]
      by (simp add: good_step_def request_inv_def)
  next
    case 2
    then obtain eop pc where a: "begin_at th = Begin_Refusing" "invoked_once eop (op_status th) DummyCtx pc th"
      using nq k by (auto simp: refused_inv_def invoked_once_def split: begin_pc.splits)
    then have "k = 0" "pc \<noteq> Context_Released" using k by (auto simp: invoked_once_def)
    from proxy_step_once[OF a(2) this(2)] obtain th' where th': "proxy_step b 0 th = Inr th'"
      "invoked_once eop (op_status th) DummyCtx (next_pc pc) th'"
      "th' = th\<lparr>run := run th', proxy_calls := proxy_calls th'\<rparr>" by blast
    have f: "begin_at th' = begin_at th" "op_status th' = op_status th" "op_context th' = op_context th"
      "on_begin th' = on_begin th" by (subst th'(3), simp)+
    have "refused_inv conv th'" using 2 a(1) th'(2) unfolding refused_inv_def f by auto
    then show ?thesis
      using \<open>k = 0\<close> th'(1) left[OF a(2) \<open>pc \<noteq> _\<close> th'(2,3)] same[OF th'(3)]
      by (simp add: good_step_def request_inv_def)
  qed
qed

lemma begin_store_good:
  assumes "request_inv conv later th" and "begin_at th = Operation_Returned" and "\<not> failed (op_status th)"
  shows "good_step conv later th (system_of (begin_store b th))"
proof -
  have "accepted_inv conv th" and e: "end_inv conv th"
    using assms by (auto simp: request_inv_def called_inv_def refused_inv_def)
  then obtain eo c pc where a: "op_context th = Some (UserCtx c)" "end_operation_ok conv eo c"
    "invoked_once (Some eo) Status0 (UserCtx c) pc th" "on_begin th = 1 \<longrightarrow> pc = Context_Released" "on_begin th \<le> 1"
    using assms(2) by (auto simp: accepted_inv_def)
  define th' where "th' = th\<lparr>run := (run th)\<lparr>run_payload :=
    \<lparr>endOp = Some eo, beginStatus = Status0, innerCtx = Some (UserCtx c)\<rparr>\<rparr>, begin_at := Begin_Finished\<rparr>"
  have "begin_store b th = Inr th'"
    using a(1,3) assms(2) by (auto simp: begin_store_def invoked_once_def SetInnerCtx_def th'_def)
  moreover have "invoked_once (Some eo) Status0 (UserCtx c) pc th'"
    using a(3) assms(2) by (auto simp: invoked_once_def th'_def)
  then have "accepted_inv conv th'"
    using a assms(3) unfolding accepted_inv_def by (auto simp: th'_def)
  moreover have "end_inv conv th'" using e by (rule end_inv_same) (simp_all add: th'_def)
  moreover have "threads_left th' < threads_left th" using assms(2) by (simp add: threads_left_def th'_def)
  ultimately show ?thesis by (simp add: good_step_def request_inv_def)
qed

lemma begin_refuse_good:
  assumes "request_inv conv later th" and "begin_at th = Operation_Returned" and "failed (op_status th)"
  shows "good_step conv later th (system_of (begin_refuse b th))"
proof -
  have r: "refused_inv conv th" and e: "end_inv conv th"
    using assms by (auto simp: request_inv_def called_inv_def accepted_inv_def)
  then have a: "op_context th = None" "quiet th" "sendable conv (op_status th)" "on_begin th = 0"
    using assms(2) by (simp_all add: refused_inv_def)
  define th' where "th' = th\<lparr>run := (run th)\<lparr>run_payload := (run_payload (run th))\<lparr>beginStatus := op_status th\<rparr>\<rparr>,
    proxy_calls := proxy_calls th @ [(Some DummyCtx, Not_Invoked)], begin_at := Begin_Refusing\<rparr>"
  have "begin_refuse b th = Inr th'"
    using a(1) assms(3) by (simp add: begin_refuse_def cxx_assert_cong th'_def)
  moreover have "\<exists>eop. invoked_once eop (op_status th) DummyCtx Not_Invoked th'"
    using a(2) by (auto simp: quiet_def invoked_once_def th'_def begun_def new_ctxPayload_def notified_def)
  then have "refused_inv conv th'" using a assms(3) by (auto simp: refused_inv_def th'_def)
  moreover have "end_inv conv th'" using e by (rule end_inv_same) (simp_all add: th'_def)
  moreover have "threads_left th' < threads_left th"
    using assms(2) a(2) by (simp add: threads_left_def th'_def quiet_def)
  ultimately show ?thesis by (simp add: good_step_def request_inv_def)
qed

section \<open>What a request is answered with\<close>

text \<open>
  A request that has begun is a call of the service, with the end operation and the context, or a
  refusal.  The answer is what the end operation returns, or the status of the refusal.
\<close>

datatype ('c, 'u) pending =
    Open_Call "('c, 'u) IEndOperation option" "'c async_ctx option"
  | Open_Refusal Status

definition pending_of :: "('c, 'u) threads \<Rightarrow> ('c, 'u) pending" where
  "pending_of th =
     (if failed (op_status th) then Open_Refusal (op_status th)
      else Open_Call (endOp (run_payload (run th))) (op_context th))"

fun call_answer :: "build \<Rightarrow> ('c, 'u) pending \<Rightarrow> 'u \<Rightarrow> ((Status \<times> string) \<times> 'u) exec" where
  "call_answer b (Open_Refusal err) u = Inr ((err, ''''), u)"
| "call_answer b (Open_Call eo c) u =
     ebind (deref ''end'' eo) (\<lambda>f.
     ebind (f b c '''' u) (\<lambda>((err, body), u').
     Inr ((err, if failed err then '''' else body), u')))"

definition header_of :: "Status \<Rightarrow> FabricRPCReplyHeader" where
  "header_of err = \<lparr>status_code = GetErrorCode err, status_message = GetErrorMessage err\<rparr>"

lemma end_operate_answers:
  assumes "request_inv conv later th" and "end_at th = End_Called"
  shows "\<exists>err body u. call_answer b (pending_of th) (service_state th) = Inr ((err, body), u) \<and>
    end_operate b th = Inr (th\<lparr>end_at := End_Operated (header_of err) body, service_state := u\<rparr>) \<and>
    sendable conv err"
proof -
  from assms consider "accepted_inv conv th" | "refused_inv conv th"
    by (auto simp: request_inv_def called_inv_def quiet_def)
  then show ?thesis
  proof cases
    case 1
    then obtain eo c pc where a: "\<not> failed (op_status th)" "op_context th = Some (UserCtx c)"
      "end_operation_ok conv eo c" "invoked_once (Some eo) Status0 (UserCtx c) pc th"
      by (auto simp: accepted_inv_def)
    have p: "run_payload (run th) = \<lparr>endOp = Some eo, beginStatus = Status0, innerCtx = Some (UserCtx c)\<rparr>"
      using a(4) assms(2) by (auto simp: invoked_once_def notified_def)
    obtain err rp u where "eo b (Some (UserCtx c)) '''' (service_state th) = Inr ((err, rp), u)"
      "GetErrorMessage err \<noteq> ''''" "sendable conv err"
      using a(3) unfolding end_operation_ok_def by metis
    then show ?thesis
      using a(1,2) by (auto simp: pending_of_def p end_operate_def end_stage_def cxx_assert_cong header_of_def
          header_defs)
  next
    case 2
    then have f: "failed (op_status th)" "sendable conv (op_status th)" by (simp_all add: refused_inv_def)
    then have "beginStatus (run_payload (run th)) = op_status th"
      using 2 assms(2) by (auto simp: refused_inv_def invoked_once_def quiet_def split: begin_pc.splits)
    then show ?thesis
      using f by (simp add: pending_of_def end_operate_def end_stage_def header_of_def header_defs)
  qed
qed

text \<open>Steps of the end thread leave the rest of the request alone.\<close>

lemma end_moves_good:
  assumes "request_inv conv later th" and "end_at th \<noteq> End_Not_Called \<or> run_invoked (run th) \<noteq> []"
    and "th' = th\<lparr>end_at := e, replies := rs, service_state := u\<rparr>" and "e \<noteq> End_Not_Called"
    and "end_inv conv th'" and "end_left e < end_left (end_at th)"
  shows "good_step conv later th (Running th')"
proof -
  have nq: "\<not> quiet th" using assms(2) by (auto simp: quiet_def begun_def)
  have once: "invoked_once eop err x pc th'" if "invoked_once eop err x pc th" for eop err x pc
    using that assms(2,3) by (auto simp: invoked_once_def split: if_splits)
  have "accepted_inv conv th' \<or> refused_inv conv th'"
    using assms(1) nq once
    by (auto simp: request_inv_def called_inv_def accepted_inv_def refused_inv_def assms(3)
        split: begin_pc.splits) blast+
  moreover have "threads_left th' < threads_left th" using assms(3,6) by (simp add: threads_left_def)
  ultimately show ?thesis using assms(5) by (simp add: good_step_def request_inv_def)
qed

lemma thread_step_good:
  assumes "thread_step b (handler_of route conv) later th sys" and "request_inv conv later th"
  shows "good_step conv later th sys"
  using assms(1)
proof (cases rule: thread_step.cases)
  case (operation_takes_effect opn)
  then show ?thesis using take_effect_good[OF assms(2)] by simp
next
  case operation_returns
  let ?th = "th\<lparr>begin_at := Operation_Returned\<rparr>"
  have once: "invoked_once eop err x pc th \<Longrightarrow> invoked_once eop err x pc ?th" for eop err x pc
    using operation_returns(2) by (simp add: invoked_once_def)
  have "end_inv conv ?th" using assms(2) by (auto simp: request_inv_def intro: end_inv_same)
  moreover have "accepted_inv conv ?th \<or> refused_inv conv ?th"
  proof -
    from assms(2) operation_returns(2) consider "accepted_inv conv th" | "refused_inv conv th"
      by (auto simp: request_inv_def called_inv_def)
    then show ?thesis
    proof cases
      case 1
      then obtain eo c pc where a: "op_context th = Some (UserCtx c)" "end_operation_ok conv eo c"
        "invoked_once (Some eo) Status0 (UserCtx c) pc th" "on_begin th \<le> 1" "\<not> failed (op_status th)"
        by (auto simp: accepted_inv_def)
      have "on_begin th = 1 \<longrightarrow> pc = Context_Released" 
        using a(3) operation_returns(3)[rule_format, of 0] by (simp add: invoked_once_def)
      then have "accepted_inv conv ?th" using a once[OF a(3)] unfolding accepted_inv_def by auto
      then show ?thesis ..
    next
      case 2
      then have "refused_inv conv ?th" using operation_returns(2) by (auto simp: refused_inv_def quiet_def)
      then show ?thesis ..
    qed
  qed
  moreover have "threads_left ?th < threads_left th" using operation_returns(2) by (simp add: threads_left_def)
  ultimately show ?thesis using operation_returns(1) by (simp add: good_step_def request_inv_def)
next
  case begin_stores_context
  then show ?thesis using begin_store_good[OF assms(2)] by simp
next
  case begin_refuses
  then show ?thesis using begin_refuse_good[OF assms(2)] by simp
next
  case begin_refused
  let ?th = "th\<lparr>begin_at := Begin_Finished\<rparr>"
  have "refused_inv conv th" using assms(2) begin_refused(2) by (auto simp: request_inv_def called_inv_def accepted_inv_def)
  then obtain eop pc where r: "invoked_once eop (op_status th) DummyCtx pc th" "failed (op_status th)" "op_context th = None"
    "on_begin th = 0" "sendable conv (op_status th)"
    using begin_refused(2) by (auto simp: refused_inv_def)
  have "pc = Context_Released" using r(1) begin_refused(3) by (simp add: invoked_once_def)
  then have "refused_inv conv ?th" using r by (auto simp: refused_inv_def invoked_once_def)
  moreover have "end_inv conv ?th" using assms(2) by (auto simp: request_inv_def intro: end_inv_same)
  moreover have "threads_left ?th < threads_left th" using begin_refused(2) by (simp add: threads_left_def)
  ultimately show ?thesis using begin_refused(1) by (simp add: good_step_def request_inv_def)
next
  case (proxy_moves k)
  then show ?thesis using proxy_step_good[OF assms(2)] by simp
next
  case transport_calls_end
  have "end_inv conv (th\<lparr>end_at := End_Called\<rparr>)"
    using assms(2) transport_calls_end(3) by (simp add: request_inv_def end_inv_def)
  then show ?thesis
    using end_moves_good[OF assms(2), where th' = "th\<lparr>end_at := End_Called\<rparr>" and e = End_Called and rs = "replies th"
        and u = "service_state th"]
      transport_calls_end by simp
next
  case end_operates
  obtain err body u where e: "end_operate b th = Inr (th\<lparr>end_at := End_Operated (header_of err) body, service_state := u\<rparr>)"
    "sendable conv err"
    using end_operate_answers[OF assms(2) end_operates(2), of b] by blast
  let ?th = "th\<lparr>end_at := End_Operated (header_of err) body, service_state := u\<rparr>"
  have "end_inv conv ?th"
    using assms(2) end_operates(2) e(2) by (simp add: request_inv_def end_inv_def sendable_def header_of_def)
  then show ?thesis
    using end_moves_good[OF assms(2), where th' = ?th and e = "End_Operated (header_of err) body" and rs = "replies th"
        and u = u] end_operates e by simp
next
  case (end_replies h body)
  let ?th = "th\<lparr>end_at := End_Returned h body, replies := [reply_with conv h body]\<rparr>"
  have h: "fst (SerializeReplyHeader conv h)" "replies th = []"
    using assms(2) end_replies(2) by (simp_all add: request_inv_def end_inv_def)
  then have "end_reply b (handler_of route conv) h body th = Inr ?th"
    by (cases "SerializeReplyHeader conv h") (simp add: end_reply_def reply_stage_def reply_with_def)
  moreover have "end_inv conv ?th" by (simp add: end_inv_def)
  ultimately show ?thesis
    using end_moves_good[OF assms(2), where th' = ?th and e = "End_Returned h body" and rs = "[reply_with conv h body]"
        and u = "service_state th"]
      end_replies by simp
qed

text \<open>As long as the bound is positive some thread can move; when it is zero the request is done.\<close>

lemma thread_can_step:
  assumes "request_inv conv later th" and "threads_left th > 0"
  shows "\<exists>sys. thread_step b H later th sys"
proof (rule ccontr)
  assume "\<not> ?thesis"
  then have no: "\<not> thread_step b H later th sys" for sys by blast
  have proxy: "pc = Context_Released \<or> (on_begin th = 1 \<and> begin_at th \<noteq> Operation_Running)"
    if "invoked_once eop err x pc th" "on_begin th \<le> 1" for eop err x pc
    using no thread_step.proxy_moves[of th 0 b H later] that by (auto simp: proxy_enabled_def invoked_once_def le_Suc_eq)
  have ends: "end_left (end_at th) = 0" if "run_invoked (run th) \<noteq> []"
  proof (cases "end_at th")
    case End_Not_Called
    from thread_step.transport_calls_end[OF that this] no show ?thesis by blast
  next
    case End_Called
    from thread_step.end_operates[OF this] no show ?thesis by blast
  next
    case (End_Operated h body)
    from thread_step.end_replies[OF this] no show ?thesis by blast
  qed simp
  from assms(1) consider "called_inv conv later th" | "accepted_inv conv th" | "refused_inv conv th"
    by (auto simp: request_inv_def)
  then show False
  proof cases
    case 1
    then show False using no thread_step.operation_takes_effect[of th _ b H later] by (auto simp: called_inv_def)
  next
    case 2
    then obtain eo c pc where a: "invoked_once (Some eo) Status0 (UserCtx c) pc th" "on_begin th \<le> 1"
      "\<not> failed (op_status th)" "on_begin th = 1 \<longrightarrow> begin_at th \<noteq> Operation_Running \<longrightarrow> pc = Context_Released"
      by (auto simp: accepted_inv_def)
    have r: "pc = Context_Released" using proxy[OF a(1,2)] a(4) by blast
    then have calls: "proxy_calls th = [(Some (UserCtx c), Context_Released)]" and i: "run_invoked (run th) \<noteq> []"
      using a(1) by (simp_all add: invoked_once_def notified_def)
    have "begin_at th \<noteq> Operation_Running"
      using no thread_step.operation_returns[of th b H later] calls a(2) by (auto simp: le_Suc_eq)
    moreover have "begin_at th \<noteq> Operation_Returned"
      using no thread_step.begin_stores_context[of th b H later] a(3) by blast
    ultimately have "begin_at th = Begin_Finished" using 2 by (cases "begin_at th") (auto simp: accepted_inv_def)
    then show False using assms(2) ends[OF i] calls by (simp add: threads_left_def)
  next
    case 3
    have "begin_at th \<noteq> Operation_Running"
      using no thread_step.operation_returns[of th b H later] 3 by (auto simp: refused_inv_def)
    moreover have "begin_at th \<noteq> Operation_Returned"
      using no thread_step.begin_refuses[of th b H later] 3 by (auto simp: refused_inv_def)
    ultimately obtain eop pc where a: "invoked_once eop (op_status th) DummyCtx pc th"
      "begin_at th = Begin_Refusing \<or> begin_at th = Begin_Finished" "on_begin th = 0"
      using 3 by (auto simp: refused_inv_def split: begin_pc.splits)
    then have r: "pc = Context_Released" using proxy[OF a(1)] by simp
    then have calls: "proxy_calls th = [(Some DummyCtx, Context_Released)]" and i: "run_invoked (run th) \<noteq> []"
      using a(1) by (simp_all add: invoked_once_def notified_def)
    have "begin_at th = Begin_Finished"
      using no thread_step.begin_refused[of th b H later] calls a(2) by auto
    then show False using assms(2) ends[OF i] calls by (simp add: threads_left_def)
  qed
qed

lemma threads_done:
  assumes "request_inv conv later th" and "threads_left th = 0"
  shows "finished th"
proof -
  have "begin_at th = Begin_Finished" using assms(2) by (cases "begin_at th") (simp_all add: threads_left_def)
  moreover have "snd c = Context_Released" if "c \<in> set (proxy_calls th)" for c
    using that assms(2) by (cases "snd c") (auto simp: threads_left_def)
  moreover have "length (replies th) = 1"
    using assms by (cases "end_at th") (simp_all add: threads_left_def request_inv_def end_inv_def)
  ultimately show ?thesis by (simp add: finished_def)
qed

lemma reachable_inv:
  assumes "reachable b (handler_of route conv) later s0 s" and "request_inv conv later s0"
  shows "\<exists>th. s = Running th \<and> request_inv conv later th"
  using assms(1)
proof induction
  case initially
  then show ?case using assms(2) by simp
next
  case (stepped s s')
  then show ?case using thread_step_good[OF stepped.hyps(2)] by (auto simp: good_step_def)
qed

section \<open>The begin operation of a request\<close>

text \<open>What the threads remember of the call that the request came with.\<close>

definition origin ::
    "('u \<Rightarrow> ('c, 'u) begin_result) \<Rightarrow> ('c, 'u) IEndOperation option \<Rightarrow> 'u \<Rightarrow> ('c, 'u) threads \<Rightarrow> bool" where
  "origin opn eop u th \<longleftrightarrow>
     endOp (run_payload (run th)) = eop \<and>
     (if begin_at th = Operation_Called then operation th = Some opn \<and> service_state th = u \<and> end_at th = End_Not_Called \<and>
        run_invoked (run th) = [] \<and> proxy_calls th = []
      else op_status th = br_status (opn u) \<and> op_context th = br_context (opn u))"

lemma proxy_move_endOp:
  "proxy_move b x pc r = Inr r' \<Longrightarrow> endOp (run_payload r') = endOp (run_payload r)"
  by (cases pc)
    (auto simp: invoke_store_def invoke_transport_def invoke_release_def SetInnerCtx_def ebind_Inr_iff deref_Inr_iff
      split: option.splits if_splits)

lemma origin_step:
  assumes "thread_step b H later th (Running th')" and "origin opn eop u th"
  shows "origin opn eop u th'"
  using assms(1)
proof (cases rule: thread_step.cases)
  case (operation_takes_effect opn')
  then show ?thesis using assms(2) by (simp add: origin_def take_effect_def Let_def)
next
  case (proxy_moves k)
  then show ?thesis using assms(2) proxy_move_endOp
    by (fastforce simp: origin_def proxy_step_def proxy_enabled_def ebind_Inr_iff split: prod.splits if_splits)
next
  case begin_stores_context
  then show ?thesis using assms(2)
    by (auto simp: origin_def begin_store_def SetInnerCtx_def ebind_Inr_iff deref_Inr_iff split: option.splits if_splits)
next
  case begin_refuses
  then show ?thesis using assms(2)
    by (auto simp: origin_def begin_refuse_def ebind_Inr_iff split: if_splits)
next
  case end_operates
  then show ?thesis using assms(2)
    by (auto simp: origin_def end_operate_def ebind_Inr_iff split: if_splits)
next
  case (end_replies h body)
  then show ?thesis using assms(2)
    by (auto simp: origin_def end_reply_def ebind_Inr_iff split: if_splits)
qed (use assms(2) in \<open>auto simp: origin_def split: if_splits\<close>)

lemma reachable_origin:
  assumes "reachable b H later s0 (Running th)" and "origin opn eop u s0"
  shows "origin opn eop u th"
  using assms(1)
proof (induction "Running th" arbitrary: th)
  case initially
  then show ?case using assms(2) by simp
next
  case (stepped s)
  then show ?case using origin_step[of b H later s th] by blast
qed

lemma called_good:
  assumes "operation_ok conv later eo (opn u)"
  shows "request_inv conv later (called opn (Some eo) u)" and "origin opn (Some eo) u (called opn (Some eo) u)"
  using assms
  by (auto simp: request_inv_def end_inv_def called_inv_def quiet_def origin_def called_def new_threads_def begun_def)

lemma rejected_good:
  assumes "failed err" and "sendable conv err"
  shows "request_inv conv later (rejected err u)"
  using assms by (auto simp: request_inv_def end_inv_def refused_inv_def quiet_def rejected_def new_threads_def)

text \<open>The payload that the transport is shown and the end operation is run on.\<close>

definition final_payload :: "('c, 'u) IEndOperation \<Rightarrow> ('c, 'u) begin_result \<Rightarrow> ('c, 'u) ctxPayload" where
  "final_payload eo res =
     (if failed (br_status res)
      then \<lparr>endOp = Some eo, beginStatus = br_status res, innerCtx = Some DummyCtx\<rparr>
      else \<lparr>endOp = Some eo, beginStatus = Status0, innerCtx = br_context res\<rparr>)"

lemma request_inv_notified:
  assumes "request_inv conv later th" and "origin opn (Some eo) u th"
  shows "run_invoked (run th) \<in> {[], [final_payload eo (opn u)]} \<and> length (replies th) \<le> 1 \<and>
    (replies th \<noteq> [] \<longrightarrow> run_invoked (run th) = [final_payload eo (opn u)])"
proof -
  have len: "length (replies th) \<le> 1" and e: "replies th \<noteq> [] \<longrightarrow> end_at th \<noteq> End_Not_Called"
    using assms(1) by (cases "end_at th"; simp add: request_inv_def end_inv_def)+
  from assms(1) consider "called_inv conv later th" | "accepted_inv conv th" | "refused_inv conv th"
    by (auto simp: request_inv_def)
  then show ?thesis
  proof cases
    case 1
    then show ?thesis using len e by (auto simp: called_inv_def quiet_def begun_def)
  next
    case 2
    then show ?thesis using len e assms(2)
      by (auto simp: accepted_inv_def invoked_once_def origin_def final_payload_def split: if_splits)
  next
    case 3
    then show ?thesis using len e assms(2)
      by (auto simp: refused_inv_def invoked_once_def origin_def final_payload_def quiet_def begun_def
          split: if_splits begin_pc.splits)
  qed
qed

section \<open>Completions\<close>

text \<open>
  The completion that keeps the promise whenever the begin operation keeps its own: the callback is
  invoked later exactly if the operation succeeded and has not invoked it.
\<close>

definition finishes_later :: "('c, 'u) completion" where
  "finishes_later res = (if failed (br_status res) \<or> br_invokes res \<noteq> [] then [] else [br_context res])"

lemma finishes_later_once: "completes_once finishes_later res \<longleftrightarrow> follows_protocol res"
  by (cases "br_invokes res")
    (auto simp: completes_once_def finishes_later_def follows_protocol_def)

text \<open>A service that never invokes the callback: the transport hears nothing of the request.\<close>

lemma silent_service_unanswered:
  assumes "reachable b H later (called opn eop u) (Running th)"
    and "\<not> failed (br_status (opn u))" and "br_invokes (opn u) = []" and "later (opn u) = []"
  shows "run_invoked (run th) = [] \<and> replies th = []"
proof -
  let ?still = "\<lambda>th. proxy_calls th = [] \<and> run_invoked (run th) = [] \<and> replies th = [] \<and> end_at th = End_Not_Called"
  have "origin opn eop u (called opn eop u) \<and> ?still (called opn eop u)"
    by (simp add: origin_def called_def new_threads_def begun_def)
  with assms(1) have "origin opn eop u th \<and> ?still th"
  proof (induction "Running th" arbitrary: th)
    case (stepped s)
    then have o: "origin opn eop u s" and still: "?still s" by auto
    have "?still th"
      using stepped.hyps(3)
    proof (cases rule: thread_step.cases)
      case (operation_takes_effect opn')
      then show ?thesis using o still assms(3,4) by (simp add: origin_def take_effect_def Let_def)
    next
      case begin_refuses
      then show ?thesis using o assms(2) by (simp add: origin_def)
    qed (use still in \<open>auto simp: proxy_enabled_def begin_store_def ebind_Inr_iff\<close>)
    then show ?case using origin_step[OF stepped.hyps(3) o] by blast
  qed simp
  then show ?thesis by blast
qed

lemma request_inv_invoked:
  assumes "request_inv conv later th"
  shows "length (run_invoked (run th)) \<le> 1"
proof -
  have "quiet th \<Longrightarrow> ?thesis" by (auto simp: quiet_def begun_def)
  moreover have "invoked_once eop err x pc th \<Longrightarrow> ?thesis" for eop err x pc by (auto simp: invoked_once_def)
  ultimately show ?thesis
    using assms by (auto simp: request_inv_def called_inv_def accepted_inv_def refused_inv_def split: begin_pc.splits)
qed

end
