(* ===== verification/Simulation.thy ===== *)
theory Simulation
  imports Main
begin

text \<open>
  Refinement between transition systems, the proof rule with which the servers of both libraries are
  compared with their specifications.
\<close>

text \<open>
  A concrete system, restricted to an invariant of its own, and an abstraction function: every
  concrete step is an abstract step or none.
\<close>

locale simulation =
  fixes astep :: "'a \<Rightarrow> 'a \<Rightarrow> bool"
    and cstep :: "'c \<Rightarrow> 'c \<Rightarrow> bool"
    and abstract :: "'c \<Rightarrow> 'a"
    and keeps :: "'c \<Rightarrow> bool"
  assumes keeps_step: "keeps s \<Longrightarrow> cstep s s' \<Longrightarrow> keeps s'"
    and simulates: "keeps s \<Longrightarrow> cstep s s' \<Longrightarrow> abstract s' = abstract s \<or> astep (abstract s) (abstract s')"
begin

lemma runs_refine:
  assumes "cstep\<^sup>*\<^sup>* s s'" and "keeps s"
  shows "keeps s' \<and> astep\<^sup>*\<^sup>* (abstract s) (abstract s')"
  using assms(1)
proof (induction rule: rtranclp_induct)
  case base
  then show ?case using assms(2) by simp
next
  case (step t t')
  then have "abstract t' = abstract t \<or> astep (abstract t) (abstract t')" using simulates by blast
  then show ?case using step keeps_step by (metis rtranclp.rtrancl_into_rtrancl)
qed

text \<open>What every abstract step keeps holds of every run.\<close>

lemma invariant_transfers:
  assumes "\<And>a a'. P a \<Longrightarrow> astep a a' \<Longrightarrow> P a'"
    and "cstep\<^sup>*\<^sup>* s s'" and "keeps s" and "P (abstract s)"
  shows "P (abstract s')"
proof -
  have "astep\<^sup>*\<^sup>* (abstract s) (abstract s')" using runs_refine[OF assms(2,3)] by blast
  then show ?thesis by (induction rule: rtranclp_induct) (use assms(1,4) in blast)+
qed

end

end
