(* ===== verification/Handler_System.thy ===== *)
theory Handler_System
  imports Request_Invariant Simulation "HOL-Library.Multiset"
begin

text \<open>
  The request handler of src/fabric_rpc with any number of requests in progress: messages arrive
  at any time, each request has the threads of theory \<open>Request_Concurrency\<close>, and they all share the
  state of the services.  The calls of the services' operations overlap.  The specification is a
  machine that calls them one at a time; the order in which it calls them is that in which they
  take effect.
\<close>

section \<open>States and steps\<close>

text \<open>\<open>answer_order\<close> has the requests whose answer is determined, in that order.\<close>

record ('c, 'u) handler_system =
  requests :: "('c, 'u) threads list"
  shared :: 'u
  answer_order :: "nat list"

definition new_handler_system :: "'u \<Rightarrow> ('c, 'u) handler_system" where
  "new_handler_system u = \<lparr>requests = [], shared = u, answer_order = []\<rparr>"

definition threads_of :: "nat \<Rightarrow> ('c, 'u) handler_system \<Rightarrow> ('c, 'u) threads" where
  "threads_of i s = (requests s ! i)\<lparr>service_state := shared s\<rparr>"

fun answered_at :: "end_pc \<Rightarrow> bool" where
  "answered_at (End_Operated h body) = True"
| "answered_at (End_Returned h body) = True"
| "answered_at _ = False"

definition answered :: "('c, 'u) threads \<Rightarrow> bool" where
  "answered th = answered_at (end_at th)"

definition admit :: "('c, 'u) handler_system \<Rightarrow> ('c, 'u) system \<Rightarrow> ('c, 'u) handler_system exec" where
  "admit s sys =
     (case sys of Faulted e \<Rightarrow> Inl e | Running th \<Rightarrow> Inr (s\<lparr>requests := requests s @ [th]\<rparr>))"

definition resume ::
    "nat \<Rightarrow> ('c, 'u) handler_system \<Rightarrow> ('c, 'u) system \<Rightarrow> ('c, 'u) handler_system exec" where
  "resume i s sys =
     (case sys of
        Faulted e \<Rightarrow> Inl e
      | Running th \<Rightarrow>
          Inr (s\<lparr>requests := (requests s)[i := th], shared := service_state th,
                 answer_order := answer_order s @
                   (if answered th \<and> \<not> answered (requests s ! i) then [i] else [])\<rparr>))"

text \<open>
  The transport calls \<open>BeginProcessRequest\<close> with a well-formed message at any time, and any thread of
  any request moves.  \<open>later\<close> is what the services do with the callbacks.
\<close>

inductive handler_step ::
    "build \<Rightarrow> ('c, 'u) MiddleWare \<Rightarrow> IFabricRPCHeaderProtoConverter \<Rightarrow> ('c, 'u) completion \<Rightarrow>
     ('c, 'u) handler_system \<Rightarrow> ('c, 'u) handler_system exec \<Rightarrow> bool"
  for b :: build and route :: "('c, 'u) MiddleWare" and conv :: IFabricRPCHeaderProtoConverter
    and later :: "('c, 'u) completion"
where
  arrives:
    "wf_msg m \<Longrightarrow>
     handler_step b route conv later s (admit s (arrival b (handler_of route conv) m t clk clk_op (shared s)))"
| moves:
    "i < length (requests s) \<Longrightarrow> thread_step b (handler_of route conv) later (threads_of i s) sys \<Longrightarrow>
     handler_step b route conv later s (resume i s sys)"

inductive handler_reachable ::
    "build \<Rightarrow> ('c, 'u) MiddleWare \<Rightarrow> IFabricRPCHeaderProtoConverter \<Rightarrow> ('c, 'u) completion \<Rightarrow> 'u \<Rightarrow>
     ('c, 'u) handler_system exec \<Rightarrow> bool"
  for b :: build and route :: "('c, 'u) MiddleWare" and conv :: IFabricRPCHeaderProtoConverter
    and later :: "('c, 'u) completion" and u :: 'u
where
  idle: "handler_reachable b route conv later u (Inr (new_handler_system u))"
| moved: "handler_reachable b route conv later u (Inr s) \<Longrightarrow> handler_step b route conv later s r \<Longrightarrow>
    handler_reachable b route conv later u r"

section \<open>What the services promise\<close>

text \<open>The refusals before any service is called.\<close>

definition rejects ::
    "('c, 'u) MiddleWare \<Rightarrow> IFabricRPCHeaderProtoConverter \<Rightarrow> string \<Rightarrow> Status \<Rightarrow> bool" where
  "rejects route conv header err \<longleftrightarrow>
     (if header = ''''
      then err = Status2 (code_value INVALID_ARGUMENT) ''fabric rpc header is empty''
      else
        let (ok, h) = DeserializeRequestHeader conv header mk_FabricRPCRequestHeader
        in if \<not> ok then err = Status2 (code_value INVALID_ARGUMENT) ''Cannot parse fabric rpc header''
           else route (GetUrl h) (None, None) = (not_found (GetUrl h), None, None) \<and> err = not_found (GetUrl h))"

text \<open>
  A URL is refused or leads to two operations that keep their promises, and the statuses with which
  requests are refused can be sent.
\<close>

definition services_ok ::
    "('c, 'u) MiddleWare \<Rightarrow> IFabricRPCHeaderProtoConverter \<Rightarrow> ('c, 'u) completion \<Rightarrow> bool" where
  "services_ok route conv later \<longleftrightarrow>
     (\<forall>a. route a (None, None) = (not_found a, None, None) \<or>
       (\<exists>bo eo. route a (None, None) = (Status0, Some bo, Some eo) \<and>
         (\<forall>clk body t u. operation_ok conv later eo (bo clk body t u)))) \<and>
     (\<forall>header err. rejects route conv header err \<longrightarrow> sendable conv err)"

lemma begin_lookup_ok:
  assumes "services_ok route conv later" and "begin_lookup b (handler_of route conv) header = r"
  shows "(\<exists>err. r = Inr (Inl err) \<and> rejects route conv header err \<and> failed err) \<or>
    (\<exists>a bo eo. r = Inr (Inr (bo, Some eo)) \<and> route a (None, None) = (Status0, Some bo, Some eo) \<and>
      (\<forall>clk body t u. operation_ok conv later eo (bo clk body t u)))"
proof -
  obtain ok h where d: "DeserializeRequestHeader conv header mk_FabricRPCRequestHeader = (ok, h)"
    by (rule prod.exhaust)
  consider "header = ''''" | "header \<noteq> ''''" "\<not> ok"
    | "header \<noteq> ''''" ok "route (GetUrl h) (None, None) = (not_found (GetUrl h), None, None)"
    | bo eo where "header \<noteq> ''''" ok "route (GetUrl h) (None, None) = (Status0, Some bo, Some eo)"
        "\<forall>clk body t u. operation_ok conv later eo (bo clk body t u)"
    using assms(1) unfolding services_ok_def by metis
  then show ?thesis
  proof cases
    case (4 bo eo)
    then have "r = Inr (Inr (bo, Some eo))"
      using assms(2)[symmetric] d by (simp add: begin_lookup_def)
    then show ?thesis using 4(3,4) by blast
  qed (use assms(2)[symmetric] d in \<open>simp_all add: begin_lookup_def rejects_def\<close>)
qed

section \<open>Invariant\<close>

definition handler_inv ::
    "IFabricRPCHeaderProtoConverter \<Rightarrow> ('c, 'u) completion \<Rightarrow> ('c, 'u) handler_system \<Rightarrow> bool" where
  "handler_inv conv later s \<longleftrightarrow>
     (\<forall>th \<in> set (requests s). \<forall>u. request_inv conv later (th\<lparr>service_state := u\<rparr>)) \<and>
     distinct (answer_order s) \<and>
     (\<forall>i. i \<in> set (answer_order s) \<longleftrightarrow> i < length (requests s) \<and> answered (requests s ! i))"

lemma handler_inv_new: "handler_inv conv later (new_handler_system u)"
  by (simp add: handler_inv_def new_handler_system_def)

lemma handler_inv_request:
  assumes "handler_inv conv later s" and "i < length (requests s)"
  shows "request_inv conv later (threads_of i s)"
  using assms by (simp add: handler_inv_def threads_of_def)

text \<open>Once the begin operation has taken effect, the services' state does not matter to a request.\<close>

lemma request_inv_any_state:
  assumes "request_inv conv later th" and "begin_at th \<noteq> Operation_Called"
  shows "request_inv conv later (th\<lparr>service_state := u\<rparr>)"
proof -
  have "end_inv conv (th\<lparr>service_state := u\<rparr>)"
    using assms(1) by (auto simp: request_inv_def intro: end_inv_same)
  moreover have "accepted_inv conv (th\<lparr>service_state := u\<rparr>) = accepted_inv conv th"
    "refused_inv conv (th\<lparr>service_state := u\<rparr>) = refused_inv conv th"
    by (simp add: accepted_inv_def invoked_once_def)
      (cases "begin_at th"; simp add: refused_inv_def invoked_once_def quiet_def)
  ultimately show ?thesis using assms by (auto simp: request_inv_def called_inv_def)
qed

lemma thread_step_begun:
  assumes "thread_step b H later th (Running th')" and "request_inv conv later th"
  shows "begin_at th' \<noteq> Operation_Called"
proof
  assume called: "begin_at th' = Operation_Called"
  show False
    using assms(1)
  proof (cases rule: thread_step.cases)
    case (operation_takes_effect opn)
    then show False using called by (simp add: take_effect_def Let_def)
  next
    case (proxy_moves k)
    then have "begin_at th = Operation_Called" "proxy_calls th \<noteq> []"
      using called by (auto simp: proxy_step_def proxy_enabled_def ebind_Inr_iff split: prod.splits)
    then show False using assms(2) by (auto simp: request_inv_def called_inv_def accepted_inv_def refused_inv_def quiet_def)
  next
    case begin_stores_context
    then show False using called by (auto simp: begin_store_def ebind_Inr_iff)
  next
    case begin_refuses
    then show False using called by (auto simp: begin_refuse_def ebind_Inr_iff)
  next
    case transport_calls_end
    then show False using called assms(2)
      by (auto simp: request_inv_def called_inv_def accepted_inv_def refused_inv_def quiet_def begun_def)
  next
    case end_operates
    then show False using called assms(2)
      by (auto simp: end_operate_def ebind_Inr_iff request_inv_def called_inv_def accepted_inv_def refused_inv_def quiet_def)
  next
    case (end_replies h body)
    then show False using called assms(2)
      by (auto simp: end_reply_def ebind_Inr_iff request_inv_def called_inv_def accepted_inv_def refused_inv_def quiet_def)
  qed (use called in simp_all)
qed

text \<open>The answer of a request, once there is one, stays.\<close>

fun answer_at :: "IFabricRPCHeaderProtoConverter \<Rightarrow> end_pc \<Rightarrow> FRPCTransportMessage" where
  "answer_at conv (End_Operated h body) = reply_with conv h body"
| "answer_at conv (End_Returned h body) = reply_with conv h body"
| "answer_at conv _ = mk_FRPCTransportMessage"

definition answer_of :: "IFabricRPCHeaderProtoConverter \<Rightarrow> ('c, 'u) threads \<Rightarrow> FRPCTransportMessage" where
  "answer_of conv th = answer_at conv (end_at th)"

lemma thread_step_end:
  assumes "thread_step b H later th (Running th')"
  shows "end_at th' = end_at th \<or> (end_at th = End_Not_Called \<and> end_at th' = End_Called) \<or>
    (end_at th = End_Called \<and> end_operate b th = Inr th') \<or>
    (\<exists>h body. end_at th = End_Operated h body \<and> end_at th' = End_Returned h body)"
  using assms
  by (cases rule: thread_step.cases)
    (auto simp: take_effect_def Let_def proxy_step_def begin_store_def begin_refuse_def end_reply_def ebind_Inr_iff
      split: prod.splits)

lemma thread_step_answered:
  assumes "thread_step b H later th (Running th')" and "answered th"
  shows "answered th'" and "answer_of conv th' = answer_of conv th"
  using thread_step_end[OF assms(1)] assms(2) by (auto simp: answered_def answer_of_def)

text \<open>What a request is about does not change after its operation has taken effect.\<close>

lemma pending_same:
  assumes "thread_step b H later th (Running th')" and "begin_at th \<noteq> Operation_Called"
    and "begin_at th' \<noteq> Operation_Called"
  shows "pending_of th' = pending_of th"
proof -
  let ?opn = "\<lambda>_. \<lparr>br_status = op_status th, br_context = op_context th, br_invokes = [], br_state = undefined\<rparr>"
  have "origin ?opn (endOp (run_payload (run th))) undefined th" using assms(2) by (simp add: origin_def)
  from origin_step[OF assms(1) this] show ?thesis using assms(3) by (simp add: origin_def pending_of_def)
qed

lemma threads_of_sel [simp]:
  "begin_at (threads_of i s) = begin_at (requests s ! i)" "end_at (threads_of i s) = end_at (requests s ! i)"
  "answered (threads_of i s) = answered (requests s ! i)" "answer_of conv (threads_of i s) = answer_of conv (requests s ! i)"
  "pending_of (threads_of i s) = pending_of (requests s ! i)" "threads_left (threads_of i s) = threads_left (requests s ! i)"
  "service_state (threads_of i s) = shared s" "operation (threads_of i s) = operation (requests s ! i)"
  by (simp_all add: threads_of_def answered_def answer_of_def pending_of_def threads_left_def)

lemma handler_step_inv:
  assumes "handler_step b route conv later s r" and "services_ok route conv later" and "handler_inv conv later s"
  shows "\<exists>s'. r = Inr s' \<and> handler_inv conv later s'"
  using assms(1)
proof (cases rule: handler_step.cases)
  case (arrives m t clk clk_op)
  obtain msg where msg: "FRPC_CopyMsg (Some m) mk_FRPCTransportMessage = Inr msg"
    using arrives(2) by (simp add: FRPC_CopyMsg_wf)
  have "\<exists>th. arrival b (handler_of route conv) m t clk clk_op (shared s) = Running th \<and> \<not> answered th \<and>
      (\<forall>u. request_inv conv later (th\<lparr>service_state := u\<rparr>))"
    using begin_lookup_ok[OF assms(2) refl, of b "FRPC_GetHeader msg"]
  proof (elim disjE exE conjE)
    fix err assume e: "begin_lookup b (handler_of route conv) (FRPC_GetHeader msg) = Inr (Inl err)"
      "rejects route conv (FRPC_GetHeader msg) err" "failed err"
    have "sendable conv err" using assms(2) e(2) by (auto simp: services_ok_def)
    then have "request_inv conv later ((rejected err (shared s))\<lparr>service_state := u\<rparr>)" for u
      using rejected_good[OF e(3), of conv later u] by (simp add: rejected_def new_threads_def)
    then show ?thesis using e(1) msg by (simp add: arrival_def rejected_def new_threads_def answered_def)
  next
    fix a bo eo assume e: "begin_lookup b (handler_of route conv) (FRPC_GetHeader msg) = Inr (Inr (bo, Some eo))"
      "\<forall>clk body t u. operation_ok conv later eo (bo clk body t u)"
    let ?opn = "bo clk_op (FRPC_GetBody msg) (remaining_timeout t clk)"
    have "request_inv conv later ((called ?opn (Some eo) (shared s))\<lparr>service_state := u\<rparr>)" for u
      using called_good(1)[of conv later eo ?opn u] e(2) by (simp add: called_def new_threads_def)
    then show ?thesis using e(1) msg by (simp add: arrival_def called_def new_threads_def answered_def)
  qed
  then show ?thesis
    using assms(3) arrives(1) by (auto simp: admit_def handler_inv_def nth_append less_Suc_eq)
next
  case (moves i sys)
  note inv = handler_inv_request[OF assms(3) moves(2)]
  obtain th where th: "sys = Running th" "request_inv conv later th"
    using thread_step_good[OF moves(3) inv] by (auto simp: good_step_def)
  have any: "request_inv conv later (th\<lparr>service_state := u\<rparr>)" for u
    using request_inv_any_state[OF th(2)] thread_step_begun[OF moves(3)[unfolded th(1)] inv] by blast
  have keep: "answered (requests s ! i) \<Longrightarrow> answered th"
    using thread_step_answered(1)[OF moves(3)[unfolded th(1)]] by simp
  let ?s = "s\<lparr>requests := (requests s)[i := th], shared := service_state th,
    answer_order := answer_order s @ (if answered th \<and> \<not> answered (requests s ! i) then [i] else [])\<rparr>"
  have "\<forall>th' \<in> set (requests ?s). \<forall>u. request_inv conv later (th'\<lparr>service_state := u\<rparr>)"
    using assms(3) any set_update_subset_insert[of "requests s" i th] by (auto simp: handler_inv_def)
  moreover have "distinct (answer_order ?s)"
    using assms(3) by (auto simp: handler_inv_def)
  moreover have "k \<in> set (answer_order ?s) \<longleftrightarrow> k < length (requests ?s) \<and> answered (requests ?s ! k)" for k
    using assms(3) moves(2) keep by (cases "k = i") (auto simp: handler_inv_def)
  ultimately have "handler_inv conv later ?s" by (simp add: handler_inv_def)
  then show ?thesis using moves(1) th(1) by (simp add: resume_def)
qed

lemma handler_reachable_inv:
  assumes "handler_reachable b route conv later u r" and "services_ok route conv later"
  shows "\<exists>s. r = Inr s \<and> handler_inv conv later s"
  using assms(1)
proof induction
  case idle
  then show ?case by (simp add: handler_inv_new)
next
  case (moved s r)
  then show ?case using handler_step_inv[OF moved.hyps(2) assms(2)] by auto
qed

section \<open>The specification\<close>

text \<open>
  A machine that calls the operations of the services, one at a time: the calls and refusals that
  are open, the answers in order, each with what it answers, and the services' state.
\<close>

record ('c, 'u) call_machine =
  open_calls :: "('c, 'u) pending multiset"
  call_replies :: "(('c, 'u) pending \<times> FRPCTransportMessage) list"
  call_state :: 'u

definition begun_call :: "('c, 'u) IEndOperation \<Rightarrow> ('c, 'u) begin_result \<Rightarrow> ('c, 'u) pending" where
  "begun_call eo res =
     (if failed (br_status res) then Open_Refusal (br_status res) else Open_Call (Some eo) (br_context res))"

inductive call_step ::
    "build \<Rightarrow> ('c, 'u) MiddleWare \<Rightarrow> IFabricRPCHeaderProtoConverter \<Rightarrow> ('c, 'u) call_machine \<Rightarrow>
     ('c, 'u) call_machine \<Rightarrow> bool"
  for b :: build and route :: "('c, 'u) MiddleWare" and conv :: IFabricRPCHeaderProtoConverter
where
  call_begins:
    "route a (None, None) = (Status0, Some bo, Some eo) \<Longrightarrow> bo clk body t (call_state s) = res \<Longrightarrow>
     call_step b route conv s
       (s\<lparr>open_calls := add_mset (begun_call eo res) (open_calls s), call_state := br_state res\<rparr>)"
| call_rejected:
    "rejects route conv header err \<Longrightarrow>
     call_step b route conv s (s\<lparr>open_calls := add_mset (Open_Refusal err) (open_calls s)\<rparr>)"
| call_ends:
    "p \<in># open_calls s \<Longrightarrow> call_answer b p (call_state s) = Inr ((err, body), u) \<Longrightarrow>
     call_step b route conv s
       (s\<lparr>open_calls := open_calls s - {#p#},
          call_replies := call_replies s @ [(p, reply_with conv (header_of err) body)],
          call_state := u\<rparr>)"

section \<open>The handler refines it\<close>

definition in_progress :: "('c, 'u) threads \<Rightarrow> bool" where
  "in_progress th \<longleftrightarrow> begin_at th \<noteq> Operation_Called \<and> \<not> answered th"

definition open_part :: "('c, 'u) threads multiset \<Rightarrow> ('c, 'u) pending multiset" where
  "open_part ths = image_mset pending_of (filter_mset in_progress ths)"

definition reply_part ::
    "IFabricRPCHeaderProtoConverter \<Rightarrow> ('c, 'u) threads list \<Rightarrow> nat list \<Rightarrow>
     (('c, 'u) pending \<times> FRPCTransportMessage) list" where
  "reply_part conv ths order = map (\<lambda>i. (pending_of (ths ! i), answer_of conv (ths ! i))) order"

definition calls_of ::
    "IFabricRPCHeaderProtoConverter \<Rightarrow> ('c, 'u) handler_system \<Rightarrow> ('c, 'u) call_machine" where
  "calls_of conv s =
     \<lparr>open_calls = open_part (mset (requests s)), call_replies = reply_part conv (requests s) (answer_order s),
      call_state = shared s\<rparr>"

definition idle_calls :: "'u \<Rightarrow> ('c, 'u) call_machine" where
  "idle_calls u = \<lparr>open_calls = {#}, call_replies = [], call_state = u\<rparr>"

lemma calls_of_new [simp]: "calls_of conv (new_handler_system u) = idle_calls u"
  by (simp add: calls_of_def new_handler_system_def idle_calls_def open_part_def reply_part_def)

definition calls_service :: "('c, 'u) MiddleWare \<Rightarrow> ('c, 'u) threads \<Rightarrow> bool" where
  "calls_service route th \<longleftrightarrow>
     (\<exists>a bo eo clk body t. route a (None, None) = (Status0, Some bo, Some eo) \<and>
        operation th = Some (bo clk body t) \<and> endOp (run_payload (run th)) = Some eo)"

definition handler_ok ::
    "('c, 'u) MiddleWare \<Rightarrow> IFabricRPCHeaderProtoConverter \<Rightarrow> ('c, 'u) completion \<Rightarrow> ('c, 'u) handler_system \<Rightarrow> bool"
where
  "handler_ok route conv later s \<longleftrightarrow>
     services_ok route conv later \<and> handler_inv conv later s \<and>
     (\<forall>th \<in> set (requests s). begin_at th = Operation_Called \<longrightarrow> calls_service route th)"

lemma reply_part_arrives:
  assumes "\<forall>i \<in> set order. i < length ths"
  shows "reply_part conv (ths @ [th]) order = reply_part conv ths order"
  using assms by (simp add: reply_part_def nth_append)

text \<open>What the machine sees of a step of one request.\<close>

lemma calls_of_resume:
  assumes "handler_inv conv later s" and "i < length (requests s)"
    and "thread_step b (handler_of route conv) later (threads_of i s) (Running th)"
    and "resume i s (Running th) = Inr s'"
  shows "\<exists>M. open_calls (calls_of conv s) = open_part (add_mset (requests s ! i) M) \<and>
    calls_of conv s' = \<lparr>open_calls = open_part (add_mset th M),
      call_replies = call_replies (calls_of conv s) @
        (if answered th \<and> \<not> answered (requests s ! i) then [(pending_of th, answer_of conv th)] else []),
      call_state = service_state th\<rparr>"
proof -
  let ?r = "requests s ! i"
  have s': "requests s' = (requests s)[i := th]" "shared s' = service_state th"
    "answer_order s' = answer_order s @ (if answered th \<and> \<not> answered ?r then [i] else [])"
    using assms(4) by (auto simp: resume_def)
  obtain M where M: "mset (requests s) = add_mset ?r M"
    using assms(2) by (metis nth_mem_mset multi_member_split)
  then have M': "mset (requests s') = add_mset th M" using assms(2) by (simp add: s' mset_update)
  have inv: "request_inv conv later (threads_of i s)" by (rule handler_inv_request[OF assms(1,2)])
  have old: "pending_of th = pending_of ?r" "answer_of conv th = answer_of conv ?r" if "answered ?r"
  proof -
    have "begin_at ?r \<noteq> Operation_Called"
      using inv that by (auto simp: request_inv_def called_inv_def accepted_inv_def refused_inv_def quiet_def answered_def)
    then show "pending_of th = pending_of ?r"
      using pending_same[OF assms(3)] thread_step_begun[OF assms(3) inv] by simp
    show "answer_of conv th = answer_of conv ?r" using thread_step_answered(2)[OF assms(3)] that by simp
  qed
  have "reply_part conv (requests s') (answer_order s) = reply_part conv (requests s) (answer_order s)"
    unfolding reply_part_def
  proof (rule map_cong[OF refl])
    fix k assume "k \<in> set (answer_order s)"
    then have "answered (requests s ! k)" using assms(1) by (simp add: handler_inv_def)
    then show "(pending_of (requests s' ! k), answer_of conv (requests s' ! k)) =
        (pending_of (requests s ! k), answer_of conv (requests s ! k))"
      using old assms(2) by (cases "k = i") (simp_all add: s')
  qed
  moreover have "reply_part conv (requests s') (answer_order s') =
      reply_part conv (requests s') (answer_order s) @
        (if answered th \<and> \<not> answered ?r then [(pending_of th, answer_of conv th)] else [])"
    using assms(2) by (simp add: reply_part_def s')
  ultimately show ?thesis using M M' s'(2) by (intro exI[of _ M]) (simp add: calls_of_def)
qed

lemma open_part_add:
  "open_part (add_mset th M) = (if in_progress th then add_mset (pending_of th) (open_part M) else open_part M)"
  by (simp add: open_part_def)

lemma calls_of_sel [simp]: "call_state (calls_of conv s) = shared s"
  by (simp add: calls_of_def)

lemma take_effect_call:
  "pending_of (take_effect later opn th) =
     (let res = opn (service_state th) in
      if failed (br_status res) then Open_Refusal (br_status res)
      else Open_Call (endOp (run_payload (run th))) (br_context res))"
  "service_state (take_effect later opn th) = br_state (opn (service_state th))"
  "begin_at (take_effect later opn th) = Operation_Running" "end_at (take_effect later opn th) = end_at th"
  by (simp_all add: take_effect_def pending_of_def Let_def)

lemma moves_refines:
  assumes "handler_ok route conv later s" and "i < length (requests s)"
    and "thread_step b (handler_of route conv) later (threads_of i s) (Running th)"
    and "resume i s (Running th) = Inr s'"
  shows "calls_of conv s' = calls_of conv s \<or> call_step b route conv (calls_of conv s) (calls_of conv s')"
proof -
  let ?r = "requests s ! i"
  have inv: "handler_inv conv later s" using assms(1) by (simp add: handler_ok_def)
  note rinv = handler_inv_request[OF inv assms(2)]
  obtain M where M: "open_calls (calls_of conv s) = open_part (add_mset ?r M)"
    "calls_of conv s' = \<lparr>open_calls = open_part (add_mset th M),
      call_replies = call_replies (calls_of conv s) @
        (if answered th \<and> \<not> answered ?r then [(pending_of th, answer_of conv th)] else []),
      call_state = service_state th\<rparr>"
    using calls_of_resume[OF inv assms(2-4)] by blast
  have begun: "begin_at th \<noteq> Operation_Called" by (rule thread_step_begun[OF assms(3) rinv])
  show ?thesis
  proof (cases "begin_at ?r = Operation_Called")
    case True
    then obtain a bo eo clk body t where o: "route a (None, None) = (Status0, Some bo, Some eo)"
      "operation ?r = Some (bo clk body t)" "endOp (run_payload (run ?r)) = Some eo"
      using assms(1,2) True unfolding handler_ok_def calls_service_def by (meson nth_mem)
    have quiet: "proxy_calls (threads_of i s) = []" "end_at ?r = End_Not_Called" "run_invoked (run (threads_of i s)) = []"
      using rinv True by (auto simp: request_inv_def called_inv_def accepted_inv_def refused_inv_def quiet_def begun_def)
    have th: "th = take_effect later (bo clk body t) (threads_of i s)"
      using assms(3) True quiet o(2)
      by (cases rule: thread_step.cases) (auto simp: proxy_enabled_def)
    have "calls_of conv s' = (calls_of conv s)\<lparr>
        open_calls := add_mset (begun_call eo (bo clk body t (shared s))) (open_calls (calls_of conv s)),
        call_state := br_state (bo clk body t (shared s))\<rparr>"
      using M True quiet(2) o(3)
      by (simp add: th open_part_add in_progress_def answered_def take_effect_call begun_call_def Let_def threads_of_def
          calls_of_def)
    then show ?thesis using call_step.call_begins[where route = route and a = a and bo = bo and eo = eo and clk = clk and body = body
          and t = t and s = "calls_of conv s", OF o(1) refl, of b conv] by simp
  next
    case False
    have same: "pending_of th = pending_of ?r" using pending_same[OF assms(3)] False begun by simp
    show ?thesis
    proof (cases "answered th = answered ?r")
      case True
      have "service_state th = shared s"
        using assms(3)
      proof (cases rule: thread_step.cases)
        case (operation_takes_effect opn)
        then show ?thesis using False by simp
      next
        case end_operates
        then show ?thesis using True by (auto simp: end_operate_def ebind_Inr_iff answered_def)
      qed (auto simp: proxy_step_def begin_store_def begin_refuse_def end_reply_def ebind_Inr_iff split: prod.splits)
      then have "calls_of conv s' = calls_of conv s"
        using M True same False begun by (simp add: open_part_add in_progress_def calls_of_def)
      then show ?thesis ..
    next
      case newly: False
      then have e: "end_at ?r = End_Called" "end_operate b (threads_of i s) = Inr th"
        using thread_step_end[OF assms(3)] by (auto simp: answered_def)
      obtain err body u where ans: "call_answer b (pending_of ?r) (shared s) = Inr ((err, body), u)"
        "end_operate b (threads_of i s) = Inr ((threads_of i s)\<lparr>end_at := End_Operated (header_of err) body, service_state := u\<rparr>)"
        using end_operate_answers[OF rinv, of b] e(1) by auto
      have th: "end_at th = End_Operated (header_of err) body" "service_state th = u" using ans(2) e(2) by auto
      have p: "in_progress ?r" "\<not> in_progress th" using False e(1) th(1) by (simp_all add: in_progress_def answered_def)
      then have "pending_of ?r \<in># open_calls (calls_of conv s)" using M(1) by (simp add: open_part_add)
      from call_step.call_ends[OF this, of b err body u route conv] ans(1)
      have "call_step b route conv (calls_of conv s) ((calls_of conv s)\<lparr>
          open_calls := open_calls (calls_of conv s) - {#pending_of ?r#},
          call_replies := call_replies (calls_of conv s) @ [(pending_of ?r, reply_with conv (header_of err) body)],
          call_state := u\<rparr>)" by simp
      moreover have "calls_of conv s' = (calls_of conv s)\<lparr>
          open_calls := open_calls (calls_of conv s) - {#pending_of ?r#},
          call_replies := call_replies (calls_of conv s) @ [(pending_of ?r, reply_with conv (header_of err) body)],
          call_state := u\<rparr>"
        using M p same th e(1) by (simp add: open_part_add answered_def answer_of_def)
      ultimately show ?thesis by simp
    qed
  qed
qed

lemma handler_ok_step:
  assumes "handler_ok route conv later s" and "handler_step b route conv later s (Inr s')"
  shows "handler_ok route conv later s'" and
    "calls_of conv s' = calls_of conv s \<or> call_step b route conv (calls_of conv s) (calls_of conv s')"
proof -
  have ok: "services_ok route conv later" and inv: "handler_inv conv later s"
    and old: "\<forall>th \<in> set (requests s). begin_at th = Operation_Called \<longrightarrow> calls_service route th"
    using assms(1) by (simp_all add: handler_ok_def)
  have inv': "handler_inv conv later s'" using handler_step_inv[OF assms(2) ok inv] by simp
  have "(\<forall>th \<in> set (requests s'). begin_at th = Operation_Called \<longrightarrow> calls_service route th) \<and>
    (calls_of conv s' = calls_of conv s \<or> call_step b route conv (calls_of conv s) (calls_of conv s'))"
    using assms(2)
  proof (cases rule: handler_step.cases)
    case (arrives m t clk clk_op)
    then obtain th where th: "arrival b (handler_of route conv) m t clk clk_op (shared s) = Running th"
      "s' = s\<lparr>requests := requests s @ [th]\<rparr>"
      by (auto simp: admit_def split: system.splits)
    have order: "\<forall>i \<in> set (answer_order s). i < length (requests s)" using inv by (simp add: handler_inv_def)
    have calls: "calls_of conv s' = (calls_of conv s)\<lparr>open_calls :=
        (if in_progress th then add_mset (pending_of th) (open_calls (calls_of conv s)) else open_calls (calls_of conv s))\<rparr>"
      using reply_part_arrives[OF order, of conv th] by (simp add: th(2) calls_of_def open_part_add)
    show ?thesis
      using th(1)
    proof (cases rule: arrival_cases)
      case (1 msg err)
      then have r: "rejects route conv (FRPC_GetHeader msg) err" "failed err"
        using begin_lookup_ok[OF ok 1(2)] by auto
      have "calls_of conv s' = (calls_of conv s)\<lparr>open_calls := add_mset (Open_Refusal err) (open_calls (calls_of conv s))\<rparr>"
        using 1(3) r(2) by (simp add: calls in_progress_def rejected_def new_threads_def answered_def pending_of_def)
      then show ?thesis
        using call_step.call_rejected[OF r(1), of b "calls_of conv s"] old 1(3)
        by (simp add: th(2) rejected_def new_threads_def)
    next
      case (2 msg bop eop)
      then obtain a eo where "route a (None, None) = (Status0, Some bop, Some eo)" "eop = Some eo"
        using begin_lookup_ok[OF ok 2(2)] by auto
      then have "calls_service route th"
        unfolding calls_service_def 2(3)
        by (intro exI[of _ a] exI[of _ bop] exI[of _ eo] exI[of _ clk_op] exI[of _ "FRPC_GetBody msg"]
            exI[of _ "remaining_timeout t clk"]) (simp add: called_def new_threads_def begun_def)
      moreover have "calls_of conv s' = calls_of conv s"
        using 2(3) by (simp add: calls in_progress_def called_def new_threads_def)
      ultimately show ?thesis using old by (simp add: th(2))
    qed
  next
    case (moves i sys)
    then obtain th where th: "sys = Running th" by (cases sys) (auto simp: resume_def)
    have "requests s' = (requests s)[i := th]" using moves(1) th by (simp add: resume_def)
    moreover have "begin_at th \<noteq> Operation_Called"
      by (rule thread_step_begun[OF moves(3)[unfolded th] handler_inv_request[OF inv moves(2)]])
    ultimately have "\<forall>th \<in> set (requests s'). begin_at th = Operation_Called \<longrightarrow> calls_service route th"
      using old set_update_subset_insert[of "requests s" i th] by auto
    then show ?thesis
      using moves_refines[OF assms(1) moves(2) moves(3)[unfolded th]] moves(1) th by simp
  qed
  then show "handler_ok route conv later s'" and
    "calls_of conv s' = calls_of conv s \<or> call_step b route conv (calls_of conv s) (calls_of conv s')"
    using ok inv' by (simp_all add: handler_ok_def)
qed

interpretation handler: simulation "call_step b route conv"
    "\<lambda>s s'. handler_step b route conv later s (Inr s')" "calls_of conv" "handler_ok route conv later"
  by unfold_locales (use handler_ok_step in blast)+

lemma handler_reachable_runs:
  assumes "handler_reachable b route conv later u r" and "services_ok route conv later"
  shows "\<exists>s. r = Inr s \<and> (\<lambda>s s'. handler_step b route conv later s (Inr s'))\<^sup>*\<^sup>* (new_handler_system u) s"
  using assms(1)
proof induction
  case (moved s r)
  then obtain s' where "r = Inr s'"
    using handler_step_inv[OF moved.hyps(2) assms(2)] handler_reachable_inv[OF moved.hyps(1) assms(2)] by auto
  then show ?case using moved by (auto intro: rtranclp.rtrancl_into_rtrancl)
qed simp

text \<open>So whatever the threads do, the handler computes what calling the operations one at a time does.\<close>

lemma handler_refines:
  assumes "handler_reachable b route conv later u r" and "services_ok route conv later"
  shows "\<exists>s. r = Inr s \<and> handler_inv conv later s \<and> (call_step b route conv)\<^sup>*\<^sup>* (idle_calls u) (calls_of conv s)"
proof -
  obtain s where s: "r = Inr s"
    "(\<lambda>s s'. handler_step b route conv later s (Inr s'))\<^sup>*\<^sup>* (new_handler_system u) s"
    using handler_reachable_runs[OF assms] by blast
  have "handler_ok route conv later (new_handler_system u)"
    using assms(2) handler_inv_new by (simp add: handler_ok_def new_handler_system_def)
  from handler.runs_refine[OF s(2) this] show ?thesis using s(1) by (auto simp: handler_ok_def)
qed

text \<open>A reply that the transport has been given is the machine's answer to what the request is about.\<close>

lemma handler_reply_logged:
  assumes "handler_inv conv later s" and "th \<in> set (requests s)" and "replies th \<noteq> []"
  shows "replies th = [answer_of conv th]" and "(pending_of th, answer_of conv th) \<in> set (call_replies (calls_of conv s))"
proof -
  have "end_inv conv th"
    using assms(1,2) end_inv_same[of conv "th\<lparr>service_state := u\<rparr>" th for u] by (auto simp: handler_inv_def request_inv_def)
  then have e: "replies th = [answer_of conv th]" "answered th"
    using assms(3) by (cases "end_at th"; simp add: end_inv_def answer_of_def answered_def)+
  then show "replies th = [answer_of conv th]" by simp
  obtain i where "i < length (requests s)" "requests s ! i = th" using assms(2) by (auto simp: in_set_conv_nth)
  then show "(pending_of th, answer_of conv th) \<in> set (call_replies (calls_of conv s))"
    using e(2) assms(1) by (force simp: calls_of_def reply_part_def handler_inv_def)
qed

section \<open>Every request is answered\<close>

definition handler_left :: "('c, 'u) handler_system \<Rightarrow> nat" where
  "handler_left s = sum_list (map threads_left (requests s))"

text \<open>A step that is not an arrival.\<close>

definition handler_moves ::
    "build \<Rightarrow> ('c, 'u) MiddleWare \<Rightarrow> IFabricRPCHeaderProtoConverter \<Rightarrow> ('c, 'u) completion \<Rightarrow>
     ('c, 'u) handler_system \<Rightarrow> ('c, 'u) handler_system \<Rightarrow> bool" where
  "handler_moves b route conv later s s' \<longleftrightarrow>
     handler_step b route conv later s (Inr s') \<and> length (requests s') = length (requests s)"

lemma handler_moves_left:
  assumes "handler_moves b route conv later s s'" and "handler_inv conv later s"
  shows "handler_left s' < handler_left s"
proof -
  have len: "length (requests s') = length (requests s)" and step: "handler_step b route conv later s (Inr s')"
    using assms(1) by (simp_all add: handler_moves_def)
  show ?thesis
    using step
  proof (cases rule: handler_step.cases)
    case (moves i sys)
    obtain th where th: "sys = Running th" "threads_left th < threads_left (requests s ! i)"
      using thread_step_good[OF moves(3) handler_inv_request[OF assms(2) moves(2)]] by (auto simp: good_step_def)
    have "requests s' = (requests s)[i := th]" using moves(1) th(1) by (simp add: resume_def)
    then show ?thesis
      using moves(2) th(2) elem_le_sum_list[of i "map threads_left (requests s)"]
      by (simp add: handler_left_def map_update sum_list_update)
  qed (use len in \<open>auto simp: admit_def split: system.splits\<close>)
qed

lemma handler_moves_inv:
  assumes "handler_moves b route conv later s s'" and "services_ok route conv later" and "handler_inv conv later s"
  shows "handler_inv conv later s'"
  using handler_step_inv[OF _ assms(2,3)] assms(1) by (auto simp: handler_moves_def)

lemma handler_can_move:
  assumes "services_ok route conv later" and "handler_inv conv later s" and "handler_left s > 0"
  shows "\<exists>s'. handler_moves b route conv later s s'"
proof -
  have "\<exists>th \<in> set (requests s). threads_left th > 0"
    using assms(3) sum_list_eq_0_iff[of "map threads_left (requests s)"] unfolding handler_left_def
    by (auto simp del: sum_list_eq_0_iff)
  then obtain i where i: "i < length (requests s)" "threads_left (requests s ! i) > 0"
    by (auto simp: in_set_conv_nth)
  obtain sys where "thread_step b (handler_of route conv) later (threads_of i s) sys"
    using thread_can_step[OF handler_inv_request[OF assms(2) i(1)]] i(2) by auto
  from handler_step.moves[OF i(1) this] have st: "handler_step b route conv later s (resume i s sys)" .
  then obtain s' where "resume i s sys = Inr s'" using handler_step_inv[OF _ assms(1,2)] by blast
  then show ?thesis using st by (auto simp: handler_moves_def resume_def split: system.splits)
qed

lemma handler_runs_left:
  assumes "(handler_moves b route conv later ^^ n) s t" and "services_ok route conv later" and "handler_inv conv later s"
  shows "handler_inv conv later t \<and> n + handler_left t \<le> handler_left s"
  using assms(1)
proof (induction n arbitrary: t)
  case (Suc n)
  then obtain v where v: "(handler_moves b route conv later ^^ n) s v" "handler_moves b route conv later v t" by auto
  then show ?case
    using Suc.IH[OF v(1)] handler_moves_left[OF v(2)] handler_moves_inv[OF v(2) assms(2)] by fastforce
qed (use assms(3) in simp)

lemma handler_done:
  assumes "handler_inv conv later s" and "handler_left s = 0"
  shows "\<forall>th \<in> set (requests s). finished th"
proof
  fix th assume th: "th \<in> set (requests s)"
  have "request_inv conv later (th\<lparr>service_state := service_state th\<rparr>)"
    using assms(1) th unfolding handler_inv_def by blast
  then show "finished th" using threads_done[of conv later th] th assms(2) by (simp add: handler_left_def)
qed

text \<open>The threads, left alone, finish every request.\<close>

lemma handler_drains:
  assumes "services_ok route conv later" and "handler_inv conv later s"
  shows "\<exists>n t. (handler_moves b route conv later ^^ n) s t \<and> handler_left t = 0"
  using assms(2)
proof (induction "handler_left s" arbitrary: s rule: less_induct)
  case less
  show ?case
  proof (cases "handler_left s = 0")
    case True
    then show ?thesis by (intro exI[of _ 0] exI[of _ s]) simp
  next
    case False
    then obtain s1 where s1: "handler_moves b route conv later s s1"
      using handler_can_move[OF assms(1) less.prems] by blast
    obtain n t where "(handler_moves b route conv later ^^ n) s1 t" "handler_left t = 0"
      using less.hyps[OF handler_moves_left[OF s1 less.prems] handler_moves_inv[OF s1 assms(1) less.prems]] by blast
    then show ?thesis using relpowp_Suc_I2[of "handler_moves b route conv later", OF s1] by blast
  qed
qed

section \<open>Without the promises\<close>

text \<open>
  The promises are needed: a fault of \<open>BeginProcessRequest\<close> on a message is a fault of the system,
  and a request whose service never invokes the callback is never answered.
\<close>

lemma request_runs_in_system:
  assumes "reachable b (handler_of route conv) later th sys"
    and "handler_reachable b route conv later u (Inr s)" and "i < length (requests s)" and "threads_of i s = th"
  shows "case sys of
      Faulted e \<Rightarrow> handler_reachable b route conv later u (Inl e)
    | Running th' \<Rightarrow> \<exists>s'. handler_reachable b route conv later u (Inr s') \<and> i < length (requests s') \<and> threads_of i s' = th'"
  using assms(1)
proof induction
  case initially
  then show ?case using assms(2-4) by auto
next
  case (stepped th1 sys')
  then obtain s1 where s1: "handler_reachable b route conv later u (Inr s1)" "i < length (requests s1)" "threads_of i s1 = th1"
    by auto
  have st: "handler_step b route conv later s1 (resume i s1 sys')"
    using handler_step.moves[OF s1(2), of b route conv later sys'] stepped.hyps(2) s1(3) by simp
  have r: "handler_reachable b route conv later u (resume i s1 sys')" by (rule handler_reachable.moved[OF s1(1) st])
  show ?case
  proof (cases sys')
    case (Running th')
    let ?s = "s1\<lparr>requests := (requests s1)[i := th'], shared := service_state th',
      answer_order := answer_order s1 @ (if answered th' \<and> \<not> answered (requests s1 ! i) then [i] else [])\<rparr>"
    have "threads_of i ?s = th'" using s1(2) by (simp add: threads_of_def)
    moreover have "resume i s1 sys' = Inr ?s" using Running by (simp add: resume_def)
    ultimately show ?thesis using r s1(2) Running
      by (auto intro!: exI[of _ ?s])
  qed (use r in \<open>simp add: resume_def\<close>)
qed

lemma arrival_fault_reaches:
  assumes "handler_reachable b route conv later u (Inr s)" and "wf_msg m"
    and "BeginProcessRequest b (handler_of route conv) (Some m) t True clk clk_op (shared s) = Inl e"
  shows "handler_reachable b route conv later u (Inl e)"
proof -
  have r: "handler_reachable b route conv later u (admit s (arrival b (handler_of route conv) m t clk clk_op (shared s)))"
    by (rule handler_reachable.moved[OF assms(1) handler_step.arrives[OF assms(2)]])
  show ?thesis
  proof (cases "arrival b (handler_of route conv) m t clk clk_op (shared s)")
    case (Running th)
    have "service_state th = shared s"
      using Running by (cases rule: arrival_cases) (simp_all add: rejected_def called_def new_threads_def)
    then have "threads_of (length (requests s)) (s\<lparr>requests := requests s @ [th]\<rparr>) = th" by (simp add: threads_of_def)
    then show ?thesis
      using request_runs_in_system[of b route conv later th "Faulted e" u "s\<lparr>requests := requests s @ [th]\<rparr>" "length (requests s)"]
        arrival_alone(2)[OF Running, of later] assms(3) r Running by (simp add: admit_def)
  next
    case (Faulted e')
    then show ?thesis using arrival_alone(1)[OF Faulted] assms(3) r by (simp add: admit_def)
  qed
qed

end
