(* ===== verification/Tools.thy ===== *)
theory Tools
  imports Prelude
begin

text \<open>
  src/tool: the objects both libraries and the example programs hand to the transport.
  \<open>sync_async_context\<close> is an operation that is complete when it has been made,
  \<open>waitable_callback\<close> lets a thread wait for the transport's callback, and the handlers accept
  every connection and ignore every notification.  Reference counting is left out.
\<close>

section \<open>waitable_callback\<close>

text \<open>\<open>std::binary_semaphore\<close> counts to 1, and \<open>release\<close> must not exceed that.\<close>

record waitable_callback =
  bs :: nat

definition mk_waitable_callback :: waitable_callback where
  "mk_waitable_callback = \<lparr>bs = 0\<rparr>"

definition waitable_Invoke :: "waitable_callback \<Rightarrow> waitable_callback exec" where
  "waitable_Invoke cb =
     (if bs cb < 1 then Inr (cb\<lparr>bs := bs cb + 1\<rparr>) else Inl (Undefined ''bs_.release()''))"

definition waitable_Wait :: "waitable_callback \<Rightarrow> waitable_callback exec" where
  "waitable_Wait cb =
     (if 0 < bs cb then Inr (cb\<lparr>bs := bs cb - 1\<rparr>) else Inl (Blocked ''bs_.acquire()''))"

section \<open>sync_async_context\<close>

text \<open>The constructor invokes the callback (the boolean), through the pointer it was given.\<close>

record 'k sync_async_context =
  sync_callback :: "'k option"

definition mk_sync_async_context :: "'k option \<Rightarrow> ('k sync_async_context \<times> bool) exec" where
  "mk_sync_async_context callback =
     ebind (deref ''callback_'' callback) (\<lambda>_. Inr (\<lparr>sync_callback = callback\<rparr>, True))"

definition sync_IsCompleted :: "'k sync_async_context \<Rightarrow> bool" where
  "sync_IsCompleted ctx = True"

definition sync_CompletedSynchronously :: "'k sync_async_context \<Rightarrow> bool" where
  "sync_CompletedSynchronously ctx = True"

definition sync_get_Callback :: "'k sync_async_context \<Rightarrow> HRESULT \<times> 'k option" where
  "sync_get_Callback ctx = (S_OK, sync_callback ctx)"

definition sync_Cancel :: "'k sync_async_context \<Rightarrow> HRESULT" where
  "sync_Cancel ctx = S_OK"

section \<open>Handlers\<close>

definition tool_BeginProcessConnect ::
    "'conn \<Rightarrow> DWORD \<Rightarrow> 'k option \<Rightarrow> ((HRESULT \<times> 'k sync_async_context) \<times> bool) exec" where
  "tool_BeginProcessConnect clientConnection timeoutMilliseconds callback =
     ebind (mk_sync_async_context callback) (\<lambda>(ctx, invoked). Inr ((S_OK, ctx), invoked))"

definition tool_EndProcessConnect :: "'ctx \<Rightarrow> HRESULT" where
  "tool_EndProcessConnect ctx = S_OK"

definition tool_BeginProcessDisconnect ::
    "string \<Rightarrow> DWORD \<Rightarrow> 'k option \<Rightarrow> ((HRESULT \<times> 'k sync_async_context) \<times> bool) exec" where
  "tool_BeginProcessDisconnect clientId timeoutMilliseconds callback =
     ebind (mk_sync_async_context callback) (\<lambda>(ctx, invoked). Inr ((S_OK, ctx), invoked))"

definition tool_EndProcessDisconnect :: "'ctx \<Rightarrow> HRESULT" where
  "tool_EndProcessDisconnect ctx = S_OK"

definition tool_OnConnected :: "string \<Rightarrow> HRESULT" where
  "tool_OnConnected connectionAddress = S_OK"

definition tool_OnDisconnected :: "string \<Rightarrow> HRESULT \<Rightarrow> HRESULT" where
  "tool_OnDisconnected connectionAddress err = S_OK"

definition tool_HandleOneWay :: "'m \<Rightarrow> HRESULT" where
  "tool_HandleOneWay message = S_OK"

text \<open>\<open>msg_disposer\<close> leaves the messages as they are.\<close>

definition tool_Dispose :: "ULONG \<Rightarrow> 'm list \<Rightarrow> 'm list" where
  "tool_Dispose Count messages = messages"

lemmas tool_handler_defs =
  tool_BeginProcessConnect_def tool_EndProcessConnect_def tool_BeginProcessDisconnect_def
  tool_EndProcessDisconnect_def mk_sync_async_context_def

section \<open>Waiting for an operation\<close>

text \<open>
  How the code waits for an asynchronous operation of the transport, four times over: begin it
  with a waitable callback, wait, end it.  A \<open>handshake\<close> is the transport's part: the result of
  the begin call, how often the callback is invoked, what the context reports, and the result of
  the end call.
\<close>

record handshake =
  hs_begin :: HRESULT
  hs_invokes :: nat
  hs_completed :: bool
  hs_sync :: bool
  hs_end :: HRESULT

fun invoke_times :: "nat \<Rightarrow> waitable_callback \<Rightarrow> waitable_callback exec" where
  "invoke_times 0 cb = Inr cb"
| "invoke_times (Suc n) cb = ebind (waitable_Invoke cb) (invoke_times n)"

text \<open>The callback is invoked by the transport's thread, and \<open>Wait\<close> returns when it has been.\<close>

definition await :: "nat \<Rightarrow> unit exec" where
  "await n = ebind (invoke_times n mk_waitable_callback) (\<lambda>cb.
     ebind (waitable_Wait cb) (\<lambda>_. Inr ()))"

lemma await_eq:
  "await n =
     (if n = 0 then Inl (Blocked ''bs_.acquire()'')
      else if n = 1 then Inr ()
      else Inl (Undefined ''bs_.release()''))"
proof (cases n)
  case 0
  then show ?thesis by (simp add: await_def waitable_Wait_def mk_waitable_callback_def)
next
  case (Suc m)
  then show ?thesis
    by (cases m)
      (simp_all add: await_def waitable_Wait_def waitable_Invoke_def mk_waitable_callback_def)
qed

text \<open>The code waits without harm exactly when the transport invokes its callback once.\<close>

lemma await_returns_iff: "returns (await n) \<longleftrightarrow> n = 1"
  by (simp add: await_eq)

lemma await_once [simp]: "await (Suc 0) = Inr ()"
  by (simp add: await_eq)

section \<open>Synchronous contexts\<close>

text \<open>
  The contract of a context for an operation that is complete at once: making it invokes the
  callback, and it says so.  \<open>made\<close> is the context and whether the callback has been invoked.
\<close>

locale sync_context =
  fixes make :: "'k \<Rightarrow> ('ctx \<times> bool) exec"
    and completed :: "'ctx \<Rightarrow> bool"
    and synchronous :: "'ctx \<Rightarrow> bool"
  assumes invokes: "\<exists>ctx. make k = Inr (ctx, True)"
    and honest: "make k = Inr (ctx, invoked) \<Longrightarrow> completed ctx = invoked \<and> synchronous ctx = invoked"
begin

text \<open>Who begins such an operation with a waitable callback does not block, and may assert both.\<close>

definition begun :: "'k \<Rightarrow> HRESULT \<Rightarrow> handshake exec" where
  "begun k hr = ebind (make k) (\<lambda>(ctx, invoked).
     Inr \<lparr>hs_begin = S_OK, hs_invokes = (if invoked then 1 else 0), hs_completed = completed ctx,
          hs_sync = synchronous ctx, hs_end = hr\<rparr>)"

lemma begun_opens:
  assumes "begun k hr = Inr hs"
  shows "hs_begin hs = S_OK \<and> await (hs_invokes hs) = Inr () \<and> hs_completed hs \<and> hs_sync hs \<and> hs_end hs = hr"
  using assms invokes[of k] honest[of k] by (auto simp: begun_def await_eq)

lemma begun_returns: "returns (begun k hr)"
  using invokes[of k] by (auto simp: begun_def returns_iff)

end

interpretation sync_ctx: sync_context "\<lambda>k. mk_sync_async_context (Some k)" sync_IsCompleted
    sync_CompletedSynchronously
  by unfold_locales
    (auto simp: mk_sync_async_context_def sync_IsCompleted_def sync_CompletedSynchronously_def)

end
