(* ===== verification/Example_Services.thy ===== *)
theory Example_Services
  imports Operation Tools "HOL-Library.RBT"
begin

text \<open>
  Two services written against src/fabric_rpc: the hello service of
  examples/helloworld/helloworld_server.hpp and the to-do list of tests/todolist/server.hpp, a
  service with state.  They are the \<open>op_\<close> functions that the generated \<open>Route\<close> binds.
\<close>

section \<open>async_any_context\<close>

text \<open>The context class of both services: a callback and a content, \<open>std::any\<close>.\<close>

record ('k, 'a) async_any_context =
  aac_callback :: "'k option"
  aac_any :: 'a

definition mk_async_any_context :: "'k option \<Rightarrow> 'a \<Rightarrow> ('k, 'a) async_any_context" where
  "mk_async_any_context callback a = \<lparr>aac_callback = callback, aac_any = a\<rparr>"

definition aac_IsCompleted :: "('k, 'a) async_any_context \<Rightarrow> bool" where
  "aac_IsCompleted ctx = True"

definition aac_CompletedSynchronously :: "('k, 'a) async_any_context \<Rightarrow> bool" where
  "aac_CompletedSynchronously ctx = True"

definition aac_get_Callback :: "('k, 'a) async_any_context \<Rightarrow> HRESULT \<times> 'k option" where
  "aac_get_Callback ctx = (S_OK, aac_callback ctx)"

definition aac_Cancel :: "('k, 'a) async_any_context \<Rightarrow> HRESULT" where
  "aac_Cancel ctx = S_OK"

definition aac_get_any :: "('k, 'a) async_any_context \<Rightarrow> 'a" where
  "aac_get_any ctx = aac_any ctx"

text \<open>
  The services make one and invoke the callback with it before they return, so what the context
  says of itself is true.
\<close>

definition made_and_invoked :: "'a \<Rightarrow> 'k \<Rightarrow> (('k, 'a) async_any_context \<times> bool) exec" where
  "made_and_invoked a k =
     (let ctx = mk_async_any_context (Some k) a
      in ebind (deref ''callback'' (Some k)) (\<lambda>_. Inr (ctx, True)))"

interpretation any_ctx: sync_context "made_and_invoked a" aac_IsCompleted aac_CompletedSynchronously
  by unfold_locales
    (auto simp: made_and_invoked_def Let_def aac_IsCompleted_def aac_CompletedSynchronously_def)

section \<open>helloworld.FabricHello\<close>

text \<open>
  A context is the content it carries, here the reply text; the service has no state.
\<close>

definition BeginSayHello :: "string \<Rightarrow> DWORD \<Rightarrow> 'u \<Rightarrow> (string, 'u) begin_result" where
  "BeginSayHello fabricname timeoutMilliseconds u =
     (let msg = ''hello '' @ fabricname
      in \<lparr>br_status = Status0, br_context = Some (UserCtx msg),
          br_invokes = [Some (UserCtx msg)], br_state = u\<rparr>)"

definition EndSayHello ::
    "build \<Rightarrow> string async_ctx option \<Rightarrow> 'u \<Rightarrow> ((Status \<times> string) \<times> 'u) exec" where
  "EndSayHello b context u =
     (case context of
        Some (UserCtx message) \<Rightarrow> Inr ((Status0, message), u)
      | _ \<Rightarrow> Inl (NullDereference ''ctx''))"

definition hello_service :: "string codec \<Rightarrow> string codec \<Rightarrow> (string, 'u) generated_service" where
  "hello_service Req Resp =
     \<lparr>gs_package = ''helloworld'', gs_service = ''FabricHello'',
      gs_methods =
        [\<lparr>gm_name = ''SayHello'',
          gm_begin = BeginOperation_Invoke Req BeginSayHello,
          gm_end = EndOperation_Invoke Resp EndSayHello\<rparr>]\<rparr>"

lemma BeginSayHello_protocol: "follows_protocol (BeginSayHello n t u)"
  by (simp add: BeginSayHello_def follows_protocol_def Let_def)

section \<open>todolist.Todo\<close>

text \<open>The message \<open>Item\<close> of todolist.proto and the server's \<open>todoItem\<close>.\<close>

record Item =
  proto_id :: int
  proto_description :: string
  proto_completed :: bool

record todoItem =
  item_id :: int
  item_description :: string
  item_completed :: bool

definition FillProto :: "todoItem \<Rightarrow> Item" where
  "FillProto i =
     \<lparr>proto_id = item_id i, proto_description = item_description i,
      proto_completed = item_completed i\<rparr>"

definition FromProto :: "Item \<Rightarrow> todoItem" where
  "FromProto p =
     \<lparr>item_id = proto_id p, item_description = proto_description p,
      item_completed = proto_completed p\<rparr>"

lemma FillProto_FromProto [simp]: "FillProto (FromProto p) = p"
  by (simp add: FillProto_def FromProto_def)

lemma FromProto_FillProto [simp]: "FromProto (FillProto i) = i"
  by (simp add: FillProto_def FromProto_def)

text \<open>
  The contents of the contexts: a string for \<open>Find\<close>, an item for the other two.  \<open>items_\<close> is a
  \<open>std::map\<close>, which iterates in key order: a red-black tree of the library.
\<close>

datatype todo_ctx = StringCtx string | ItemCtx todoItem

type_synonym todo_items = "(int, todoItem) rbt"

definition BeginFind :: "unit \<Rightarrow> DWORD \<Rightarrow> todo_items \<Rightarrow> (todo_ctx, todo_items) begin_result" where
  "BeginFind request timeoutMilliseconds items =
     \<lparr>br_status = Status0, br_context = Some (UserCtx (StringCtx ''dummyStr'')),
      br_invokes = [Some (UserCtx (StringCtx ''dummyStr''))], br_state = items\<rparr>"

definition EndFind ::
    "build \<Rightarrow> todo_ctx async_ctx option \<Rightarrow> todo_items \<Rightarrow> ((Status \<times> Item list) \<times> todo_items) exec" where
  "EndFind b context items =
     (case context of
        Some (UserCtx (StringCtx content)) \<Rightarrow>
          ebind (cxx_assert b ''content == dummyStr'' (content = ''dummyStr'')) (\<lambda>_.
          Inr ((Status0, map (\<lambda>(_, i). FillProto i) (RBT.entries items)), items))
      | _ \<Rightarrow> Inl (NullDereference ''ctx''))"

definition BeginAddOne :: "Item \<Rightarrow> DWORD \<Rightarrow> todo_items \<Rightarrow> (todo_ctx, todo_items) begin_result" where
  "BeginAddOne p timeoutMilliseconds items =
     (if RBT.lookup items (proto_id p) \<noteq> None
      then \<lparr>br_status = Status2 (code_value INVALID_ARGUMENT)
                          (''id already exist: '' @ to_string (proto_id p)),
            br_context = None, br_invokes = [], br_state = items\<rparr>
      else let item = FromProto p
           in \<lparr>br_status = Status0, br_context = Some (UserCtx (ItemCtx item)),
               br_invokes = [Some (UserCtx (ItemCtx item))],
               br_state = RBT.insert (proto_id p) item items\<rparr>)"

text \<open>\<open>EndAddOne\<close> and \<open>EndDeleteOne\<close> have the same body.\<close>

definition EndAddOne ::
    "build \<Rightarrow> todo_ctx async_ctx option \<Rightarrow> todo_items \<Rightarrow> ((Status \<times> Item) \<times> todo_items) exec" where
  "EndAddOne b context items =
     (case context of
        Some (UserCtx (ItemCtx content)) \<Rightarrow> Inr ((Status0, FillProto content), items)
      | _ \<Rightarrow> Inl (NullDereference ''ctx''))"

definition BeginDeleteOne :: "int \<Rightarrow> DWORD \<Rightarrow> todo_items \<Rightarrow> (todo_ctx, todo_items) begin_result" where
  "BeginDeleteOne i timeoutMilliseconds items =
     (case RBT.lookup items i of
        None \<Rightarrow>
          \<lparr>br_status = Status2 (code_value INVALID_ARGUMENT) (''id not found: '' @ to_string i),
           br_context = None, br_invokes = [], br_state = items\<rparr>
      | Some item \<Rightarrow>
          \<lparr>br_status = Status0, br_context = Some (UserCtx (ItemCtx item)),
           br_invokes = [Some (UserCtx (ItemCtx item))],
           br_state = RBT.delete i items\<rparr>)"

definition EndDeleteOne ::
    "build \<Rightarrow> todo_ctx async_ctx option \<Rightarrow> todo_items \<Rightarrow> ((Status \<times> Item) \<times> todo_items) exec" where
  "EndDeleteOne b context items =
     (case context of
        Some (UserCtx (ItemCtx content)) \<Rightarrow> Inr ((Status0, FillProto content), items)
      | _ \<Rightarrow> Inl (NullDereference ''ctx''))"

definition todo_service ::
    "unit codec \<Rightarrow> Item list codec \<Rightarrow> Item codec \<Rightarrow> int codec \<Rightarrow>
     (todo_ctx, todo_items) generated_service" where
  "todo_service FindReq FindResp ItemMsg IdMsg =
     \<lparr>gs_package = ''todolist'', gs_service = ''Todo'',
      gs_methods =
        [\<lparr>gm_name = ''Find'',
          gm_begin = BeginOperation_Invoke FindReq BeginFind,
          gm_end = EndOperation_Invoke FindResp EndFind\<rparr>,
         \<lparr>gm_name = ''AddOne'',
          gm_begin = BeginOperation_Invoke ItemMsg BeginAddOne,
          gm_end = EndOperation_Invoke ItemMsg EndAddOne\<rparr>,
         \<lparr>gm_name = ''DeleteOne'',
          gm_begin = BeginOperation_Invoke IdMsg BeginDeleteOne,
          gm_end = EndOperation_Invoke ItemMsg EndDeleteOne\<rparr>]\<rparr>"

lemma todo_protocol:
  "follows_protocol (BeginFind r t s)" "follows_protocol (BeginAddOne p t s)"
  "follows_protocol (BeginDeleteOne i t s)"
  by (auto simp: BeginFind_def BeginAddOne_def BeginDeleteOne_def follows_protocol_def Let_def
      split: option.splits)

text \<open>The abstract state of the list, and the invariant that an item is stored under its id.\<close>

definition keyed :: "todo_items \<Rightarrow> bool" where
  "keyed items \<longleftrightarrow> (\<forall>i t. RBT.lookup items i = Some t \<longrightarrow> item_id t = i)"

lemma keyed_empty: "keyed RBT.empty"
  by (simp add: keyed_def)

lemma keyed_AddOne: "keyed items \<Longrightarrow> keyed (br_state (BeginAddOne p t items))"
  by (auto simp: keyed_def BeginAddOne_def Let_def FromProto_def)

lemma keyed_DeleteOne: "keyed items \<Longrightarrow> keyed (br_state (BeginDeleteOne i t items))"
  by (auto simp: keyed_def BeginDeleteOne_def RBT.lookup_delete restrict_map_def split: option.splits)

lemma AddOne_lookup:
  "RBT.lookup (br_state (BeginAddOne p t items)) =
     (if proto_id p \<in> dom (RBT.lookup items) then RBT.lookup items
      else (RBT.lookup items)(proto_id p \<mapsto> FromProto p))"
  by (auto simp: BeginAddOne_def Let_def domIff)

lemma DeleteOne_lookup:
  "RBT.lookup (br_state (BeginDeleteOne i t items)) = (RBT.lookup items)(i := None)"
  by (auto simp: BeginDeleteOne_def RBT.lookup_delete restrict_map_def fun_eq_iff split: option.splits)

end
