(* ===== verification/Rpc_Properties.thy ===== *)
theory Rpc_Properties
  imports Rpc_Call Handler_System Example_Services
begin

text \<open>
  The properties of src/fabric_rpc that its users rely on, each with an application at a
  concrete service.  The lemmas they rest on are in the theories of the components.
\<close>

section \<open>A concrete server\<close>

text \<open>The hello service with one-field messages and the proto3 header codecs of \<open>FRPC_Header\<close>.\<close>

definition demo_converter :: IFabricRPCHeaderProtoConverter where
  "demo_converter = FabricRPCHeaderProtoConverter request_header_codec reply_header_codec"

definition demo_services :: "(string, unit) generated_service list" where
  "demo_services = [hello_service text_codec text_codec]"

definition demo_url :: string where
  "demo_url = ''/helloworld.FabricHello/SayHello''"

lemma text_codec_laws [simp]: "codec_laws text_codec"
  by (simp add: text_codec_def)

lemma text_codec_roundtrips [simp]: "length s < 128 \<Longrightarrow> roundtrips text_codec s"
  by (simp add: text_codec_def) (simp add: string_field_def)

lemma demo_deliverable [simp]:
  assumes "0 \<le> GetErrorCode st" and "GetErrorCode st < 128" and "length (GetErrorMessage st) < 128"
    and "GetErrorMessage st \<noteq> ''''"
  shows "deliverable reply_header_codec st"
proof -
  have "wire reply_header_codec \<lparr>status_code = GetErrorCode st, status_message = GetErrorMessage st\<rparr> \<noteq> ''''"
    using assms(4) by (simp add: reply_header_codec_def string_field_def)
  then show ?thesis using assms by (simp add: deliverable_def Let_def)
qed

lemma demo_setting:
  "call_setting request_header_codec reply_header_codec text_codec text_codec demo_url ''bob''"
  by (simp add: call_setting_def demo_url_def) (simp add: request_header_codec_def string_field_def)

lemma demo_routes:
  "first_serves (map service_serves demo_services) demo_url =
     Some (BeginOperation_Invoke text_codec BeginSayHello, EndOperation_Invoke text_codec EndSayHello)"
  by (simp add: demo_services_def service_serves_def hello_service_def demo_url_def method_url_def
      package_prefix_def)

section \<open>An RPC is a local call\<close>



lemma service_route_hit:
  assumes "first_serves (map service_serves svcs) a = Some (bo, eo)"
  shows "FRPCRouter_Route (map Service_Route svcs) a ops = (Status0, Some bo, Some eo)"
  using assms service_router.hit[where svcs = svcs and u = a and bo = bo and eo = eo and ops = ops]
  by (simp add: comp_def)

lemma service_route_miss:
  assumes "first_serves (map service_serves svcs) a = None"
  shows "FRPCRouter_Route (map Service_Route svcs) a ops = (not_found a, ops)"
  using assms service_router.miss[where svcs = svcs and u = a and ops = ops]
  by (simp add: comp_def)

text \<open>
  C1: an RPC is a local call.  A generated client calls a server whose handler was initialised
  with a list of generated services, over a transport that delivers messages unchanged, and the
  first service that has the URL binds it to \<open>bop\<close> and \<open>eop\<close>.  If the two operations follow the
  asynchronous protocol and what they return fits the messages, then \<open>ExecClientBegin\<close>,
  \<open>BeginProcessRequest\<close>, the completion, \<open>EndProcessRequest\<close> and \<open>ExecClientEnd\<close> together give the
  status, the response and the service state that calling \<open>bop\<close> and \<open>eop\<close> directly gives, with
  the time-out that the three clock readings leave.
\<close>

theorem rpc_call_is_local_call:
  assumes "call_setting Q R P P' a request"
    and "Handler_Initialize b (map Service_Route svcs) (Some (FabricRPCHeaderProtoConverter Q R))
           mk_FRPCRequestHandler = Inr H"
    and "first_serves (map service_serves svcs) a =
           Some (BeginOperation_Invoke P bop, EndOperation_Invoke P' eop)"
    and "\<And>q t u. follows_protocol (bop q t u)"
    and "left = remaining_timeout (remaining_timeout (remaining_timeout t clk_client) clk) clk_op"
    and "local_call b bop eop request left u = Inr ((st, response), u')"
    and "failed st \<Longrightarrow> deliverable R st"
    and "\<And>p. response = Some p \<Longrightarrow> roundtrips P' p"
  shows "rpc_call b H (FabricRPCHeaderProtoConverter Q R) P P' t a request clk_client clk clk_op u =
         local_call b bop eop request left u"
proof -
  let ?conv = "FabricRPCHeaderProtoConverter Q R"
  let ?route = "FRPCRouter_Route (map Service_Route svcs)"
  have "svcs \<noteq> []" using assms(3) by auto
  then have H: "H = handler_of ?route ?conv"
    using assms(2) Handler_Initialize_ok[of "map Service_Route svcs" b ?conv] by simp
  show ?thesis
    unfolding H assms(6)
    by (rule rpc_call_local_call[where route = ?route and bop = bop and eop = eop, OF assms(1)
          service_route_hit[OF assms(3)] assms(5) assms(4) assms(6-8)])
qed

lemma demo_local_call:
  "local_call b BeginSayHello EndSayHello n t u = Inr ((Status0, Some (''hello '' @ n)), u)"
  by (simp add: local_call_def BeginSayHello_def EndSayHello_def Let_def)

theorem rpc_call_is_local_call_witness:
  "rpc_call Debug (handler_of (FRPCRouter_Route (map Service_Route demo_services)) demo_converter)
     demo_converter text_codec text_codec 1000 demo_url ''bob'' (0, 2000000) (0, 0) (0, 0) () =
   Inr ((Status0, Some ''hello bob''), ())"
proof -
  have "rpc_call Debug (handler_of (FRPCRouter_Route (map Service_Route demo_services)) demo_converter)
      demo_converter text_codec text_codec 1000 demo_url ''bob'' (0, 2000000) (0, 0) (0, 0) () =
    local_call Debug BeginSayHello EndSayHello ''bob''
      (remaining_timeout (remaining_timeout (remaining_timeout 1000 (0, 2000000)) (0, 0)) (0, 0)) ()"
    unfolding demo_converter_def
    by (rule rpc_call_is_local_call[OF demo_setting _ demo_routes _ refl demo_local_call])
      (simp_all add: Handler_Initialize_ok BeginSayHello_protocol demo_services_def)
  then show ?thesis by (simp add: demo_local_call)
qed

section \<open>One request under every interleaving\<close>

text \<open>
  C7: safety of a request.  The begin operation has been called; from then on its thread, the
  threads of the service that invoke the callback and the transport's thread move in any order.  If
  what the operation returns, the invocations of the callback and the end operation keep the
  promises of \<open>operation_ok\<close>, then no assertion fails and no null pointer is read; the transport is
  notified at most once, with the payload that the request ends with (the end operation and the
  service's context, or the error of the operation); and a reply is made at most once, after that.
\<close>

theorem request_threads_safe:
  assumes "reachable b (handler_of route conv) later (called opn (Some eo) u) s"
    and "operation_ok conv later eo (opn u)"
  shows "\<exists>th. s = Running th \<and>
           run_invoked (run th) \<in> {[], [final_payload eo (opn u)]} \<and>
           length (replies th) \<le> 1 \<and>
           (replies th \<noteq> [] \<longrightarrow> run_invoked (run th) = [final_payload eo (opn u)])"
proof -
  obtain th where th: "s = Running th" "request_inv conv later th"
    using reachable_inv[OF assms(1) called_good(1)[where opn = opn, OF assms(2)]] by blast
  have "origin opn (Some eo) u th"
    using reachable_origin[OF assms(1)[unfolded th(1)] called_good(2)[where opn = opn, OF assms(2)]] .
  from request_inv_notified[OF th(2) this] show ?thesis using th(1) by blast
qed

definition demo_end :: "(string, unit) IEndOperation" where
  "demo_end = EndOperation_Invoke text_codec EndSayHello"

definition demo_handler :: "(string, unit) FRPCRequestHandler" where
  "demo_handler = handler_of (FRPCRouter_Route (map Service_Route demo_services)) demo_converter"

lemma demo_can_send: "sendable demo_converter err"
  by (simp add: sendable_def demo_converter_def converter_defs reply_header_codec_def header_defs)

lemma demo_end_ok: "end_operation_ok demo_converter demo_end c"
  by (simp add: end_operation_ok_def demo_end_def EndOperation_Invoke_def EndSayHello_def text_codec_def
      demo_can_send)

lemma demo_EndProcessRequest:
  "EndProcessRequest b demo_handler (complete_payload demo_end ''hello bob'') u =
     Inr ((S_OK, reply_message demo_converter 0 ''OK'' (wire text_codec ''hello bob'')), u)"
  by (cases b)
    (simp_all add: EndProcessRequest_def end_stage_def demo_handler_def complete_payload_def
      demo_end_def EndOperation_Invoke_def EndSayHello_def demo_converter_def converter_defs
      text_codec_def reply_header_codec_def header_defs reply_message_def cxx_assert_Debug)

text \<open>
  A begin operation that leaves the completion to a thread of the service, and a run in which the
  service completes and the transport makes the reply before \<open>BeginProcessRequest\<close> has returned.
\<close>

definition slow_begin :: "unit \<Rightarrow> (string, unit) begin_result" where
  "slow_begin u =
     \<lparr>br_status = Status0, br_context = Some (UserCtx ''hello bob''), br_invokes = [], br_state = u\<rparr>"

lemma slow_begin_ok: "operation_ok demo_converter finishes_later demo_end (slow_begin u)"
  by (simp add: operation_ok_def finishes_later_once follows_protocol_def slow_begin_def demo_end_ok)

definition demo_threads :: "proxy_pc \<Rightarrow> end_pc \<Rightarrow> FRPCTransportMessage list \<Rightarrow> (string, unit) threads" where
  "demo_threads pc e rs =
     \<lparr>begin_at = Operation_Running, operation = Some slow_begin, op_status = Status0,
      op_context = Some (UserCtx ''hello bob''), on_begin = 0, proxy_calls = [(Some (UserCtx ''hello bob''), pc)],
      run = \<lparr>run_payload = \<lparr>endOp = Some demo_end, beginStatus = Status0,
               innerCtx = (if pc = Not_Invoked then None else Some (UserCtx ''hello bob''))\<rparr>,
             run_callback = \<lparr>transportCallback = True, wrapCtx = True\<rparr>,
             run_invoked = (if pc = Transport_Invoked then [complete_payload demo_end ''hello bob''] else [])\<rparr>,
      end_at = e, replies = rs, service_state = ()\<rparr>"

lemma demo_reply:
  "reachable b demo_handler finishes_later (called slow_begin (Some demo_end) ())
     (Running (demo_threads Transport_Invoked (End_Returned (header_of Status0) (wire text_codec ''hello bob''))
        [reply_message demo_converter 0 ''OK'' (wire text_codec ''hello bob'')]))"
proof -
  let ?p = "complete_payload demo_end ''hello bob''"
  let ?r = "reachable b demo_handler finishes_later (called slow_begin (Some demo_end) ())"
  let ?body = "wire text_codec ''hello bob''"
  note steps = reachable.stepped[of b demo_handler finishes_later]
  have "?r (Running (take_effect finishes_later slow_begin (called slow_begin (Some demo_end) ())))"
    by (rule steps[OF reachable.initially thread_step.operation_takes_effect])
      (simp_all add: called_def new_threads_def)
  then have "?r (Running (demo_threads Not_Invoked End_Not_Called []))"
    by (simp add: take_effect_def called_def new_threads_def begun_def new_ctxPayload_def slow_begin_def
        finishes_later_def demo_threads_def Let_def)
  from steps[OF this thread_step.proxy_moves[of _ 0]]
  have "?r (Running (demo_threads Context_Stored End_Not_Called []))"
    by (simp add: demo_threads_def proxy_enabled_def proxy_step_def invoke_store_def SetInnerCtx_def)
  from steps[OF this thread_step.proxy_moves[of _ 0]]
  have "?r (Running (demo_threads Transport_Invoked End_Not_Called []))"
    by (simp add: demo_threads_def proxy_enabled_def proxy_step_def invoke_transport_def complete_payload_def)
  from steps[OF this thread_step.transport_calls_end]
  have "?r (Running (demo_threads Transport_Invoked End_Called []))" by (simp add: demo_threads_def)
  from steps[OF this thread_step.end_operates]
  have "?r (Running (demo_threads Transport_Invoked (End_Operated (header_of Status0) ?body) []))"
    by (simp add: demo_threads_def end_operate_def end_stage_def demo_end_def EndOperation_Invoke_def EndSayHello_def
        text_codec_def header_of_def header_defs)
  from steps[OF this thread_step.end_replies]
  show ?thesis
    by (simp add: demo_threads_def end_reply_def reply_stage_def demo_handler_def demo_converter_def converter_defs
        reply_header_codec_def header_of_def header_defs reply_message_def)
qed

theorem request_threads_safe_witness:
  "\<exists>th :: (string, unit) threads.
     run_invoked (run th) = [final_payload demo_end (slow_begin ())] \<and> begin_at th = Operation_Running \<and>
     replies th = [reply_message demo_converter 0 ''OK'' (wire text_codec ''hello bob'')]"
proof -
  let ?th = "demo_threads Transport_Invoked (End_Returned (header_of Status0) (wire text_codec ''hello bob''))
    [reply_message demo_converter 0 ''OK'' (wire text_codec ''hello bob'')]"
  have "run_invoked (run ?th) = [final_payload demo_end (slow_begin ())]"
    using request_threads_safe[OF demo_reply[of Debug, unfolded demo_handler_def] slow_begin_ok]
    by (simp add: demo_threads_def)
  moreover have "begin_at ?th = Operation_Running"
    "replies ?th = [reply_message demo_converter 0 ''OK'' (wire text_codec ''hello bob'')]"
    by (simp_all add: demo_threads_def)
  ultimately show ?thesis by blast
qed

section \<open>Any number of requests\<close>

text \<open>
  C3: the handler is linearizable.  Any number of messages arrive at any time; each is handled by
  the code of \<open>BeginProcessRequest\<close>, its begin operation, the invocations of the callback and
  \<open>EndProcessRequest\<close>, on threads that interleave with those of all other requests, and the calls of
  the services' operations overlap.  If the services keep their promises, no fault occurs, and none
  would if \<open>BeginProcessRequest\<close> ran on any message from here; the transport is notified at most once
  for each request; and what has begun, what has been answered with which message, and the state of
  the services are those of a machine that calls the operations one at a time, in the order in which
  they take effect: each end operation once, with the context its begin operation returned.  Each
  reply is that machine's answer to the call or refusal of its request.
\<close>

theorem handler_is_linearizable:
  assumes "handler_reachable b route conv later u r" and "services_ok route conv later"
  shows "\<exists>s. r = Inr s \<and>
    (call_step b route conv)\<^sup>*\<^sup>* (idle_calls u) (calls_of conv s) \<and> distinct (answer_order s) \<and>
    (\<forall>th \<in> set (requests s). length (run_invoked (run th)) \<le> 1 \<and>
       (replies th \<noteq> [] \<longrightarrow>
          (\<exists>m. replies th = [m] \<and> (pending_of th, m) \<in> set (call_replies (calls_of conv s))))) \<and>
    (\<forall>m t clk clk_op. wf_msg m \<longrightarrow>
       returns (BeginProcessRequest b (handler_of route conv) (Some m) t True clk clk_op (shared s)))"
proof -
  obtain s where s: "r = Inr s" "handler_inv conv later s"
    "(call_step b route conv)\<^sup>*\<^sup>* (idle_calls u) (calls_of conv s)"
    using handler_refines[OF assms] by blast
  have "length (run_invoked (run th)) \<le> 1" if "th \<in> set (requests s)" for th
    using s(2) that request_inv_invoked[of conv later "th\<lparr>service_state := shared s\<rparr>"] by (simp add: handler_inv_def)
  moreover have "\<exists>m. replies th = [m] \<and> (pending_of th, m) \<in> set (call_replies (calls_of conv s))"
    if "th \<in> set (requests s)" "replies th \<noteq> []" for th
    using handler_reply_logged[OF s(2) that] by blast
  moreover have "returns (BeginProcessRequest b (handler_of route conv) (Some m) t True clk clk_op (shared s))"
    if "wf_msg m" for m t clk clk_op
  proof (cases "BeginProcessRequest b (handler_of route conv) (Some m) t True clk clk_op (shared s)")
    case (Inl e)
    from arrival_fault_reaches[OF assms(1)[unfolded s(1)] that this] show ?thesis
      using handler_reachable_inv[OF _ assms(2)] by blast
  qed simp
  ultimately show ?thesis using s by (auto simp: handler_inv_def)
qed

text \<open>The promises of generated services.\<close>

lemma generated_services_ok:
  assumes "\<And>s g clk body t u. s \<in> set svcs \<Longrightarrow> g \<in> set (gs_methods s) \<Longrightarrow>
      operation_ok conv later (gm_end g) (gm_begin g clk body t u)"
    and "\<And>err. sendable conv err"
  shows "services_ok (FRPCRouter_Route (map Service_Route svcs)) conv later"
  unfolding services_ok_def
proof (intro conjI allI impI)
  fix a
  show "FRPCRouter_Route (map Service_Route svcs) a (None, None) = (not_found a, None, None) \<or>
    (\<exists>bo eo. FRPCRouter_Route (map Service_Route svcs) a (None, None) = (Status0, Some bo, Some eo) \<and>
       (\<forall>clk body t u. operation_ok conv later eo (bo clk body t u)))"
  proof (cases "first_serves (map service_serves svcs) a")
    case None
    then show ?thesis using service_route_miss by blast
  next
    case (Some p)
    obtain bo eo where p: "p = (bo, eo)" by (rule prod.exhaust)
    have "\<exists>s \<in> set svcs. \<exists>g \<in> set (gs_methods s). bo = gm_begin g \<and> eo = gm_end g"
      using Some[unfolded p]
    proof (induction svcs)
      case (Cons s svcs)
      then show ?case
        by (cases "service_serves s a") (auto simp: service_serves_def dest!: map_of_SomeD)
    qed simp
    then show ?thesis using service_route_hit[OF Some[unfolded p]] assms(1) by blast
  qed
qed (rule assms(2))

lemma demo_services_ok:
  "services_ok (FRPCRouter_Route (map Service_Route demo_services)) demo_converter finishes_later"
proof (rule generated_services_ok[OF _ demo_can_send])
  fix s :: "(string, unit) generated_service" and g clk body t u
  assume "s \<in> set demo_services" and "g \<in> set (gs_methods s)"
  then have g: "gm_begin g = BeginOperation_Invoke text_codec BeginSayHello" "gm_end g = demo_end"
    by (simp_all add: demo_services_def hello_service_def demo_end_def)
  show "operation_ok demo_converter finishes_later (gm_end g) (gm_begin g clk body t u)"
    unfolding g operation_ok_def finishes_later_once
    by (simp add: demo_can_send demo_end_ok BeginOperation_follows_protocol[OF BeginSayHello_protocol])
qed

text \<open>A message arrives, and its begin operation takes effect.\<close>

definition demo_message :: IFabricTransportMessage where
  "demo_message = request_view (wire request_header_codec \<lparr>url = demo_url\<rparr>) (wire text_codec ''bob'')"

definition demo_arrived :: "(string, unit) handler_system" where
  "demo_arrived =
     \<lparr>requests = [take_effect finishes_later
        (BeginOperation_Invoke text_codec BeginSayHello (0, 0) (wire text_codec ''bob'') (remaining_timeout 1000 (0, 0)))
        (called (BeginOperation_Invoke text_codec BeginSayHello (0, 0) (wire text_codec ''bob'')
           (remaining_timeout 1000 (0, 0))) (Some demo_end) ())],
      shared = (), answer_order = []\<rparr>"

lemma demo_arrived_reachable:
  "handler_reachable b (FRPCRouter_Route (map Service_Route demo_services)) demo_converter finishes_later ()
     (Inr demo_arrived)"
proof -
  let ?route = "FRPCRouter_Route (map Service_Route demo_services)"
  let ?opn = "BeginOperation_Invoke text_codec BeginSayHello (0, 0) (wire text_codec ''bob'')
    (remaining_timeout 1000 (0, 0))"
  let ?s = "new_handler_system () :: (string, unit) handler_system"
  let ?th = "called ?opn (Some demo_end) ()"
  have n: "names_url demo_converter demo_message demo_url"
    unfolding demo_converter_def demo_message_def by (rule setting_names_url[OF demo_setting])
  have body: "body_text demo_message = wire text_codec ''bob''"
    unfolding demo_message_def by (rule setting_body[OF demo_setting])
  have "arrival b (handler_of ?route demo_converter) demo_message 1000 (0, 0) (0, 0) () = Running ?th"
    using n body service_route_hit[OF demo_routes, of "(None, None)"]
    by (simp add: arrival_def begin_lookup_def names_url_def FRPC_CopyMsg_wf GetUrl_def demo_end_def)
  then have "handler_step b ?route demo_converter finishes_later ?s (Inr (?s\<lparr>requests := [?th]\<rparr>))"
    using handler_step.arrives[of demo_message b ?route demo_converter finishes_later ?s 1000 "(0, 0)" "(0, 0)"] n
    by (simp add: admit_def new_handler_system_def names_url_def)
  from handler_reachable.moved[OF handler_reachable.idle this]
  have r: "handler_reachable b ?route demo_converter finishes_later () (Inr (?s\<lparr>requests := [?th]\<rparr>))" .
  have th: "threads_of 0 (?s\<lparr>requests := [?th]\<rparr>) = ?th"
    by (simp add: threads_of_def called_def new_threads_def new_handler_system_def)
  have "thread_step b (handler_of ?route demo_converter) finishes_later ?th (Running (take_effect finishes_later ?opn ?th))"
    by (rule thread_step.operation_takes_effect) (simp_all add: called_def new_threads_def)
  from handler_step.moves[of 0 "?s\<lparr>requests := [?th]\<rparr>", unfolded th, OF _ this]
  have "handler_step b ?route demo_converter finishes_later (?s\<lparr>requests := [?th]\<rparr>)
      (resume 0 (?s\<lparr>requests := [?th]\<rparr>) (Running (take_effect finishes_later ?opn ?th)))" by simp
  moreover have "resume 0 (?s\<lparr>requests := [?th]\<rparr>) (Running (take_effect finishes_later ?opn ?th)) = Inr demo_arrived"
    by (simp add: resume_def demo_arrived_def new_handler_system_def answered_def take_effect_def Let_def called_def
        new_threads_def)
  ultimately show ?thesis using handler_reachable.moved[OF r] by simp
qed

theorem handler_is_linearizable_witness:
  "(call_step Debug (FRPCRouter_Route (map Service_Route demo_services)) demo_converter)\<^sup>*\<^sup>*
     (idle_calls ()) (calls_of demo_converter demo_arrived) \<and>
   open_calls (calls_of demo_converter demo_arrived) = {#Open_Call (Some demo_end) (Some (UserCtx ''hello bob''))#}"
proof
  show "(call_step Debug (FRPCRouter_Route (map Service_Route demo_services)) demo_converter)\<^sup>*\<^sup>*
     (idle_calls ()) (calls_of demo_converter demo_arrived)"
    using handler_is_linearizable[OF demo_arrived_reachable[of Debug] demo_services_ok] by auto
  show "open_calls (calls_of demo_converter demo_arrived) = {#Open_Call (Some demo_end) (Some (UserCtx ''hello bob''))#}"
    by (simp add: calls_of_def demo_arrived_def open_part_def in_progress_def answered_def take_effect_call
        called_def new_threads_def begun_def BeginOperation_wire BeginSayHello_def Let_def)
qed

text \<open>
  C6: the handler answers every request, if the services complete theirs.  From any reachable
  state, without further arrivals, the threads of the requests in progress take at most
  \<open>handler_left s\<close> steps; they can go on until every request is done; and when no thread can move,
  \<open>BeginProcessRequest\<close> has returned for every request, every invocation of its callback proxy is
  over, and it has exactly one reply.  That a service completes its requests is the promise
  \<open>completes_once\<close>, part of \<open>services_ok\<close>: nothing in the steps makes it.
\<close>

theorem handler_answers_every_request:
  assumes "handler_reachable b route conv later u (Inr s)" and "services_ok route conv later"
  shows "(\<exists>n t. (handler_moves b route conv later ^^ n) s t \<and> (\<forall>th \<in> set (requests t). finished th)) \<and>
    (\<forall>n t. (handler_moves b route conv later ^^ n) s t \<longrightarrow>
      n \<le> handler_left s \<and>
      ((\<forall>t'. \<not> handler_moves b route conv later t t') \<longrightarrow> (\<forall>th \<in> set (requests t). finished th)))"
proof -
  have inv: "handler_inv conv later s" using handler_reachable_inv[OF assms] by simp
  obtain n t where t: "(handler_moves b route conv later ^^ n) s t" "handler_left t = 0"
    using handler_drains[OF assms(2) inv] by blast
  have "n \<le> handler_left s \<and>
      ((\<forall>t'. \<not> handler_moves b route conv later t t') \<longrightarrow> (\<forall>th \<in> set (requests t). finished th))"
    if "(handler_moves b route conv later ^^ n) s t" for n t
    using handler_runs_left[OF that assms(2) inv] handler_can_move[OF assms(2), where s = t]
      handler_done[of conv later t] by auto
  then show ?thesis
    using t handler_runs_left[OF t(1) assms(2) inv] handler_done[OF _ t(2), of conv later] by blast
qed

theorem handler_answers_every_request_witness:
  "\<exists>n t. (handler_moves Debug (FRPCRouter_Route (map Service_Route demo_services)) demo_converter finishes_later ^^ n)
      demo_arrived t \<and> (\<forall>th \<in> set (requests t). finished th)"
  using handler_answers_every_request[OF demo_arrived_reachable[of Debug] demo_services_ok] by blast

section \<open>Requests that never reach a service\<close>

text \<open>What a client and the service see of a request that is refused with a given status.\<close>

definition refused_with ::
    "build \<Rightarrow> ('c, 'u) FRPCRequestHandler \<Rightarrow> IFabricRPCHeaderProtoConverter \<Rightarrow> 'p codec \<Rightarrow>
     IFabricTransportMessage \<Rightarrow> DWORD \<Rightarrow> int \<times> int \<Rightarrow> int \<times> int \<Rightarrow> 'u \<Rightarrow> Status \<Rightarrow> bool" where
  "refused_with b H conv P m t clk clk_op u err \<longleftrightarrow>
     (case serve b H m t clk clk_op u of
        Inl e \<Rightarrow> False
      | Inr ((hr, reply), u') \<Rightarrow>
          hr = S_OK \<and> body_text reply = '''' \<and>
          ExecClientEnd (delivering_client hr reply) conv P (Some ()) () =
            Inr ((client_status err, None), ()))"

lemma refused_withI:
  assumes "BeginProcessRequest b (handler_of route (FabricRPCHeaderProtoConverter Q R)) (Some m) t True
             clk clk_op u = Inr (refused eop err, u')"
    and "failed err" and "codec_laws R" and "deliverable R err"
  shows "refused_with b (handler_of route (FabricRPCHeaderProtoConverter Q R))
           (FabricRPCHeaderProtoConverter Q R) P m t clk clk_op u err \<and>
         (\<exists>v. serve b (handler_of route (FabricRPCHeaderProtoConverter Q R)) m t clk clk_op u = Inr (v, u'))"
proof -
  let ?conv = "FabricRPCHeaderProtoConverter Q R"
  let ?h = "wire R \<lparr>status_code = GetErrorCode err, status_message = GetErrorMessage err\<rparr>"
  have S: "serve b (handler_of route ?conv) m t clk clk_op u = Inr ((S_OK, request_view ?h ''''), u')"
    by (rule serve_refused[OF assms refl])
  have len: "length ?h < 2 ^ 32" using assms(4) by (simp add: deliverable_def Let_def)
  have "ExecClientEnd (delivering_client S_OK (request_view ?h '''')) ?conv P (Some ()) () =
      Inr (client_result ?conv P ?h '''', ())"
    using len by (subst ExecClientEnd_reply[where m = "request_view ?h ''''" and w' = "()"])
      (simp_all add: delivering_client_def)
  also have "client_result ?conv P ?h '''' = (client_status err, None)"
    using client_reads_status[OF assms(3,4,2)] .
  finally show ?thesis using S by (simp add: refused_with_def)
qed

text \<open>
  C34: a request for a URL that none of the services has is answered, in either build, with
  \<open>NOT_FOUND\<close> and the text naming the URL; the reply has no body, the client ends with that
  status and no response, and no service's state has changed.
\<close>

theorem unknown_method_refused:
  assumes "Handler_Initialize b (map Service_Route svcs) (Some (FabricRPCHeaderProtoConverter Q R))
             mk_FRPCRequestHandler = Inr H" and "svcs \<noteq> []"
    and "names_url (FabricRPCHeaderProtoConverter Q R) m a"
    and "\<And>s g. s \<in> set svcs \<Longrightarrow> g \<in> set (gs_methods s) \<Longrightarrow>
           method_url (gs_package s) (gs_service s) (gm_name g) \<noteq> a"
    and "codec_laws R" and "deliverable R (Status2 5 (''method not found: '' @ a))"
  shows "refused_with b H (FabricRPCHeaderProtoConverter Q R) P m t clk clk_op u
           (Status2 5 (''method not found: '' @ a)) \<and>
         (\<exists>v. serve b H m t clk clk_op u = Inr (v, u))"
proof -
  have "first_serves (map service_serves svcs) a = None"
    using assms(4)
  proof (induction svcs)
    case (Cons s svcs)
    have "a \<notin> dom (service_serves s)" using Cons.prems[of s] by (auto simp: service_serves_dom)
    then have "service_serves s a = None" by (cases "service_serves s a") (auto dest: domI)
    then show ?case using Cons by simp
  qed simp
  note route = service_route_miss[OF this, of "(None, None)"]
  have H: "H = handler_of (FRPCRouter_Route (map Service_Route svcs)) (FabricRPCHeaderProtoConverter Q R)"
    using assms(1,2) Handler_Initialize_ok[of "map Service_Route svcs" b "FabricRPCHeaderProtoConverter Q R"]
    by simp
  have nf: "Status2 5 (''method not found: '' @ a) = not_found a" by (simp add: not_found_def)
  show ?thesis
    unfolding H nf using assms(6)
    by (intro refused_withI[OF Begin_unknown_url[where route = "FRPCRouter_Route (map Service_Route svcs)",
            OF assms(3) route] _ assms(5)]) (simp_all only: nf not_found_simps simp_thms)
qed

definition demo_bye :: IFabricTransportMessage where
  "demo_bye = request_view (wire request_header_codec \<lparr>url = ''/helloworld.FabricHello/Bye''\<rparr>) ''''"

lemma demo_bye_names: "names_url demo_converter demo_bye ''/helloworld.FabricHello/Bye''"
  unfolding demo_converter_def demo_bye_def
  by (rule proto_converter.request_names_url)
    (simp_all, simp_all add: request_header_codec_def string_field_def)

theorem unknown_method_refused_witness:
  "refused_with Release demo_handler demo_converter text_codec demo_bye 1000 (0, 0) (0, 0) ()
     (Status2 5 ''method not found: /helloworld.FabricHello/Bye'')"
  using unknown_method_refused[where b = Release and svcs = demo_services and P = text_codec
      and t = 1000 and clk = "(0, 0)" and clk_op = "(0, 0)" and u = "()" and H = demo_handler,
      OF _ _ demo_bye_names[unfolded demo_converter_def] _ reply_header_codec_laws]
  by (simp add: Handler_Initialize_ok demo_handler_def demo_converter_def demo_services_def
      hello_service_def method_url_def package_prefix_def)

text \<open>
  A request with an empty header, or with a header that does not parse, is answered with
  \<open>INVALID_ARGUMENT\<close> before any routing: the client ends with the status of that case and no
  service's state has changed, whatever the services are.
\<close>

lemma malformed_header_refused:
  assumes "Handler_Initialize b svcs (Some (FabricRPCHeaderProtoConverter Q R))
             mk_FRPCRequestHandler = Inr H" and "svcs \<noteq> []"
    and "wf_msg m"
    and "if header_text m = '''' then err = ''fabric rpc header is empty''
         else ParseFromArray Q (header_text m) (int_of_size (length (header_text m))) = None \<and>
              err = ''Cannot parse fabric rpc header''"
    and "codec_laws R" and "deliverable R (Status2 3 err)"
  shows "refused_with b H (FabricRPCHeaderProtoConverter Q R) P m t clk clk_op u (Status2 3 err) \<and>
         (\<exists>v. serve b H m t clk clk_op u = Inr (v, u))"
proof -
  let ?conv = "FabricRPCHeaderProtoConverter Q R"
  have H: "H = handler_of (FRPCRouter_Route svcs) ?conv"
    using assms(1,2) Handler_Initialize_ok[of svcs b ?conv] by simp
  have "BeginProcessRequest b H (Some m) t True clk clk_op u = Inr (refused None (Status2 3 err), u)"
  proof (cases "header_text m = ''''")
    case True
    then show ?thesis unfolding H using assms(4) Begin_empty_header[OF assms(3)] by simp
  next
    case False
    then have "\<not> fst (DeserializeRequestHeader ?conv (header_text m) mk_FabricRPCRequestHeader)"
      using assms(4) by (simp add: converter_defs)
    then show ?thesis unfolding H using assms(4) False Begin_bad_header[OF assms(3) False] by simp
  qed
  from refused_withI[OF this[unfolded H] _ assms(5,6)] show ?thesis unfolding H by simp
qed

lemma malformed_header_refused_witness:
  "refused_with Debug demo_handler demo_converter text_codec (request_view ''x'' ''y'') 1000
     (0, 0) (0, 0) () (Status2 3 ''Cannot parse fabric rpc header'')"
  using malformed_header_refused[where b = Debug and svcs = "map Service_Route demo_services"
      and P = text_codec and Q = request_header_codec and t = 1000 and clk = "(0, 0)"
      and clk_op = "(0, 0)" and u = "()" and H = demo_handler and m = "request_view ''x'' ''y''",
      OF _ _ _ _ reply_header_codec_laws]
  by (simp add: Handler_Initialize_ok demo_handler_def demo_converter_def demo_services_def
      request_header_codec_def read_string_field_def)

text \<open>
  A request whose body does not parse as the method's request message is answered with
  \<open>INVALID_ARGUMENT\<close> and \<open>cannot parse body\<close>; the service's function is not called, so its state
  is unchanged.
\<close>

lemma unparseable_body_refused:
  assumes "Handler_Initialize b (map Service_Route svcs) (Some (FabricRPCHeaderProtoConverter Q R))
             mk_FRPCRequestHandler = Inr H"
    and "names_url (FabricRPCHeaderProtoConverter Q R) m a"
    and "first_serves (map service_serves svcs) a = Some (BeginOperation_Invoke P bop, eo)"
    and "ParseFromArray P (body_text m) (int_of_size (length (body_text m))) = None"
    and "codec_laws R" and "deliverable R (Status2 3 ''cannot parse body'')"
  shows "refused_with b H (FabricRPCHeaderProtoConverter Q R) P' m t clk clk_op u
           (Status2 3 ''cannot parse body'') \<and>
         (\<exists>v. serve b H m t clk clk_op u = Inr (v, u))"
proof -
  let ?route = "FRPCRouter_Route (map Service_Route svcs)"
  let ?res = "BeginOperation_Invoke P bop clk_op (body_text m) (remaining_timeout t clk) u"
  have "svcs \<noteq> []" using assms(3) by auto
  then have H: "H = handler_of ?route (FabricRPCHeaderProtoConverter Q R)"
    using assms(1) Handler_Initialize_ok[of "map Service_Route svcs" b "FabricRPCHeaderProtoConverter Q R"]
    by simp
  note bad = BeginOperation_bad_body[OF assms(4)]
  have "BeginProcessRequest b (handler_of ?route (FabricRPCHeaderProtoConverter Q R)) (Some m) t True
      clk clk_op u = Inr (refused (Some eo) (br_status ?res), br_state ?res)"
    by (rule Begin_operation_failed[where route = ?route and bo = "BeginOperation_Invoke P bop" and a = a])
      (use assms(2) service_route_hit[OF assms(3)] in \<open>simp_all add: bad\<close>)
  then show ?thesis
    unfolding H using refused_withI[OF _ _ assms(5), of b ?route Q m t clk clk_op u "Some eo"
        "Status2 3 ''cannot parse body''" u P'] assms(6) by (simp add: bad)
qed

definition demo_garbled :: IFabricTransportMessage where
  "demo_garbled = request_view (wire request_header_codec \<lparr>url = demo_url\<rparr>) ''z''"

lemma demo_garbled_names: "names_url demo_converter demo_garbled demo_url"
  unfolding demo_converter_def demo_garbled_def
  by (rule proto_converter.request_names_url)
    (simp_all add: demo_url_def, simp_all add: request_header_codec_def string_field_def)

lemma unparseable_body_refused_witness:
  "refused_with Debug demo_handler demo_converter text_codec demo_garbled 1000 (0, 0) (0, 0) ()
     (Status2 3 ''cannot parse body'')"
  using unparseable_body_refused[where b = Debug and svcs = demo_services and P' = text_codec
      and t = 1000 and clk = "(0, 0)" and clk_op = "(0, 0)" and u = "()" and H = demo_handler,
      OF _ demo_garbled_names[unfolded demo_converter_def] demo_routes _ reply_header_codec_laws]
  by (simp add: Handler_Initialize_ok demo_handler_def demo_converter_def demo_services_def
      demo_garbled_def text_codec_def read_string_field_def)

section \<open>The callback protocol\<close>

text \<open>
  The proxy calls the transport at most once.  After an invocation of the proxy that
  returned, no further invocation returns, with whatever context and in either build: the
  request context it would pass on has been released.
\<close>

lemma proxy_invokes_transport_once:
  assumes "Callback_Invoke b x r = Inr r'"
  shows "\<not> returns (Callback_Invoke b' y r') \<and>
         (\<exists>p. run_invoked r' = run_invoked r @ [p] \<and> innerCtx p \<noteq> None)"
proof
  show "\<not> returns (Callback_Invoke b' y r')"
    by (rule Callback_Invoke_again[OF Callback_Invoke_releases[OF assms]])
  show "\<exists>p. run_invoked r' = run_invoked r @ [p] \<and> innerCtx p \<noteq> None"
    using Callback_Invoke_shows_context[OF assms] by blast
qed

lemma proxy_invokes_transport_once_witness:
  "\<not> returns (Callback_Invoke Release (Some DummyCtx)
      (begun \<lparr>endOp = Some demo_end, beginStatus = Status0, innerCtx = Some (UserCtx ''m'')\<rparr> True))"
  using proxy_invokes_transport_once[of Debug "Some (UserCtx ''m'')"
      "begun \<lparr>endOp = Some demo_end, beginStatus = Status0, innerCtx = Some (UserCtx ''m'')\<rparr> False"
      "begun \<lparr>endOp = Some demo_end, beginStatus = Status0, innerCtx = Some (UserCtx ''m'')\<rparr> True"
      Release "Some DummyCtx"]
  by (simp add: begun_def Callback_Invoke_def SetInnerCtx_same)

text \<open>
  The context that counts is the one the callback was invoked with.  When a begin operation
  invokes the callback with one context and returns another, a debug build stops at the check in
  \<open>SetInnerCtx\<close>; a release build goes on and \<open>EndProcessRequest\<close> is given the first.
\<close>

lemma mismatched_context:
  assumes "names_url conv m a" and "route a (None, None) = (Status0, Some bo, Some eo)"
    and "bo clk_op (body_text m) (remaining_timeout t clk) u =
      \<lparr>br_status = Status0, br_context = Some (UserCtx cr), br_invokes = [Some (UserCtx ci)],
       br_state = u'\<rparr>"
    and "ci \<noteq> cr"
  shows "BeginProcessRequest b (handler_of route conv) (Some m) t True clk clk_op u =
    (case b of
       Debug \<Rightarrow> Inl (AssertionFailed ''innerCtx == context'')
     | Release \<Rightarrow>
         Inr (begun \<lparr>endOp = Some eo, beginStatus = Status0, innerCtx = Some (UserCtx ci)\<rparr> True, u'))"
proof -
  have "wf_msg m" using assms(1) by (simp add: names_url_def)
  moreover note begin_stage_hit[where route = route and bo = bo and m = m and t = t and clk = clk
      and clk_op = clk_op and u = u and b = b, OF assms(1-3)]
  ultimately show ?thesis
    using assms(4)
    by (cases b)
      (simp_all add: BeginProcessRequest_def FRPC_CopyMsg_wf begun_def new_ctxPayload_def Let_def
        Callback_Invoke_first SetInnerCtx_first SetInnerCtx_def cxx_assert_Debug)
qed

definition two_contexts :: "(string, unit) IBeginOperation" where
  "two_contexts clk body t u =
     \<lparr>br_status = Status0, br_context = Some (UserCtx ''b''), br_invokes = [Some (UserCtx ''a'')],
      br_state = u\<rparr>"

lemma mismatched_context_witness:
  "BeginProcessRequest Debug (handler_of (\<lambda>a ops. (Status0, Some two_contexts, Some demo_end)) demo_converter)
     (Some demo_garbled) 1000 True (0, 0) (0, 0) () = Inl (AssertionFailed ''innerCtx == context'')"
  by (subst mismatched_context[where a = demo_url and bo = two_contexts and eo = demo_end
        and ci = "''a''" and cr = "''b''" and u' = "()"])
    (simp_all add: two_contexts_def demo_garbled_names)

text \<open>In the system of all requests this is a fault that can be reached; the promises exclude it.\<close>

lemma mismatched_context_reached:
  "handler_reachable Debug (\<lambda>a ops. (Status0, Some two_contexts, Some demo_end)) demo_converter later ()
     (Inl (AssertionFailed ''innerCtx == context''))"
proof -
  have "wf_msg demo_garbled" using demo_garbled_names by (simp add: names_url_def)
  from arrival_fault_reaches[OF handler_reachable.idle this, of Debug _ _ 1000 "(0, 0)" "(0, 0)"]
  show ?thesis using mismatched_context_witness by (simp add: new_handler_system_def)
qed

lemma two_contexts_promise: "\<not> completes_once later (two_contexts clk body t u)"
  by (simp add: completes_once_def two_contexts_def follows_protocol_def)

section \<open>Replies without a message\<close>

text \<open>
  An end operation whose status has an empty message.  A debug build stops at the assertion
  in \<open>EndProcessRequest\<close>, also when the operation succeeded.  A release build sends the reply; if
  the operation succeeded and the codec writes the default header as no bytes, as proto3 does,
  the client takes the reply for one without a header: it ends with \<open>UNKNOWN\<close> and drops the
  response, although the service has done its work.
\<close>

lemma empty_status_message:
  assumes "endOp p = Some eo" and "innerCtx p = Some c" and "\<not> failed (beginStatus p)"
    and "\<And>b. eo b (Some c) '''' u = Inr ((Status2 0 '''', reply_str), u')"
    and "SerializeToString R \<lparr>status_code = 0, status_message = ''''\<rparr> = (True, '''')"
    and "length reply_str < 2 ^ 32"
  shows "EndProcessRequest Debug (handler_of route (FabricRPCHeaderProtoConverter Q R)) p u =
           Inl (AssertionFailed ''err.GetErrorMessage().size() != 0'') \<and>
         (\<exists>hr reply v.
           EndProcessRequest Release (handler_of route (FabricRPCHeaderProtoConverter Q R)) p u =
             Inr ((hr, reply), u') \<and>
           FRPC_GetHeaderAndBodyBuffer reply = Inr v \<and> body_text v = reply_str \<and>
           ExecClientEnd (delivering_client hr v) (FabricRPCHeaderProtoConverter Q R) P (Some ()) () =
             Inr ((Status2 2 ''Server returned empty header'', None), ()))"
proof
  let ?conv = "FabricRPCHeaderProtoConverter Q R"
  show "EndProcessRequest Debug (handler_of route ?conv) p u =
      Inl (AssertionFailed ''err.GetErrorMessage().size() != 0'')"
    by (rule End_empty_message[OF assms(3,1,2) assms(4)]) simp
  have "EndProcessRequest Release (handler_of route ?conv) p u =
      Inr ((S_OK, FRPC_Initialize '''' reply_str mk_FRPCTransportMessage), u')"
    using assms by (subst End_operation[OF assms(3,1,2) assms(4)])
      (simp_all add: reply_message_def converter_defs header_defs)
  moreover have "ExecClientEnd (delivering_client S_OK (request_view '''' reply_str)) ?conv P (Some ()) () =
      Inr ((Status2 2 ''Server returned empty header'', None), ())"
    by (subst ExecClientEnd_reply[where m = "request_view '''' reply_str" and w' = "()"])
      (simp_all add: delivering_client_def client_result_def)
  ultimately show "\<exists>hr reply v.
      EndProcessRequest Release (handler_of route ?conv) p u = Inr ((hr, reply), u') \<and>
      FRPC_GetHeaderAndBodyBuffer reply = Inr v \<and> body_text v = reply_str \<and>
      ExecClientEnd (delivering_client hr v) ?conv P (Some ()) () =
        Inr ((Status2 2 ''Server returned empty header'', None), ())"
    using assms(6) by auto
qed

definition silent_end :: "(string, unit) IEndOperation" where
  "silent_end b context reply u = Inr ((Status2 0 '''', ''data''), u)"

lemma empty_status_message_witness:
  "EndProcessRequest Debug (handler_of (\<lambda>a ops. (not_found a, ops)) demo_converter)
     \<lparr>endOp = Some silent_end, beginStatus = Status0, innerCtx = Some (UserCtx ''m'')\<rparr> () =
   Inl (AssertionFailed ''err.GetErrorMessage().size() != 0'')"
  unfolding demo_converter_def
  by (rule conjunct1[OF empty_status_message[where eo = silent_end and c = "UserCtx ''m''"
        and reply_str = "''data''" and u' = "()" and P = text_codec]])
    (simp_all add: silent_end_def reply_header_codec_def string_field_def)

section \<open>Routing\<close>

definition url_table ::
    "('c, 'u) generated_service \<Rightarrow> (string \<times> ('c, 'u) IBeginOperation \<times> ('c, 'u) IEndOperation) list" where
  "url_table s =
     map (\<lambda>g. (method_url (gs_package s) (gs_service s) (gm_name g), gm_begin g, gm_end g)) (gs_methods s)"

lemma first_serves_concat:
  "first_serves (map service_serves svcs) u = map_of (concat (map url_table svcs)) u"
  by (induction svcs)
    (auto simp: service_serves_def url_table_def map_add_def split: option.splits)

lemma first_serves_append:
  "first_serves (xs @ ys) u = (case first_serves xs u of None \<Rightarrow> first_serves ys u | Some p \<Rightarrow> Some p)"
  by (induction xs) (auto split: option.splits)

lemma router_eq:
  "FRPCRouter_Route (map Service_Route svcs) u ops =
     (case map_of (concat (map url_table svcs)) u of
        None \<Rightarrow> (not_found u, ops)
      | Some (bo, eo) \<Rightarrow> (Status0, Some bo, Some eo))"
  using service_route_hit[of svcs u] service_route_miss[of svcs u]
  by (auto simp: first_serves_concat[symmetric] split: option.splits)

text \<open>
  C33: routing is one table.  A router over generated services answers a URL like one lookup in
  the table of all their methods, in the order of the services and of their methods; a router of
  two such routers is the router of the joined list; and a URL in no table gives \<open>NOT_FOUND\<close>
  with the out-parameters as they were.
\<close>

theorem routing_is_one_table:
  "FRPCRouter_Route (map Service_Route svcs) u ops =
     (case map_of (concat (map url_table svcs)) u of
        None \<Rightarrow> (Status2 5 (''method not found: '' @ u), ops)
      | Some (bo, eo) \<Rightarrow> (Status0, Some bo, Some eo)) \<and>
   FRPCRouter_Route [FRPCRouter_Route (map Service_Route svcs), FRPCRouter_Route (map Service_Route svcs')] u ops =
     FRPCRouter_Route (map Service_Route (svcs @ svcs')) u ops"
proof
  show "FRPCRouter_Route (map Service_Route svcs) u ops =
     (case map_of (concat (map url_table svcs)) u of
        None \<Rightarrow> (Status2 5 (''method not found: '' @ u), ops)
      | Some (bo, eo) \<Rightarrow> (Status0, Some bo, Some eo))"
    by (simp add: router_eq not_found_def split: option.splits)
  show "FRPCRouter_Route [FRPCRouter_Route (map Service_Route svcs), FRPCRouter_Route (map Service_Route svcs')] u ops =
     FRPCRouter_Route (map Service_Route (svcs @ svcs')) u ops"
    unfolding router_eq[of "svcs @ svcs'"]
    by (auto simp: router_eq map_add_def split: option.splits)
qed

section \<open>Time-outs\<close>

text \<open>
  C27: the time-out a service is given.  A client calls \<open>ExecClientBegin\<close> with a time-out; what it
  hands to the transport, message and time-out, is handed to \<open>BeginProcessRequest\<close> of a handler
  that routes the URL to the service's operation \<open>bop\<close>.  On clocks that do not run backwards \<open>bop\<close>
  is called, whatever it does with it, with exactly the caller's time-out less the whole
  milliseconds that the client, the handler and the operation have used, and with zero when
  nothing is left: the time-out never wraps around and never exceeds what the caller allowed.
\<close>

theorem service_timeout_budget:
  assumes "call_setting Q R P P' a request"
    and "Handler_Initialize b (map Service_Route svcs) (Some (FabricRPCHeaderProtoConverter Q R))
           mk_FRPCRequestHandler = Inr H"
    and "first_serves (map service_serves svcs) a = Some (BeginOperation_Invoke P bop, eo)"
    and "\<And>t u. follows_protocol (bop request t u)"
    and "s1 \<le> e1" and "s2 \<le> e2" and "s3 \<le> e3"
  shows "\<exists>m sent left r.
    ExecClientBegin b recording_client (FabricRPCHeaderProtoConverter Q R) P t a request (s1, e1) None =
      Inr ((Status0, Some ()), Some (m, sent)) \<and>
    BeginProcessRequest b H (Some m) sent True (s2, e2) (s3, e3) u = Inr (r, br_state (bop request left u)) \<and>
    (failed (br_status (bop request left u)) \<longrightarrow> beginStatus (run_payload r) = br_status (bop request left u)) \<and>
    (\<not> failed (br_status (bop request left u)) \<longrightarrow> innerCtx (run_payload r) = br_context (bop request left u)) \<and>
    uint left =
      max 0 (uint t - (e1 - s1) div 1000000 - (e2 - s2) div 1000000 - (e3 - s3) div 1000000)"
proof -
  let ?conv = "FabricRPCHeaderProtoConverter Q R" and ?route = "FRPCRouter_Route (map Service_Route svcs)"
  let ?m = "request_view (wire Q \<lparr>url = a\<rparr>) (wire P request)"
  let ?sent = "remaining_timeout t (s1, e1)"
  define left where "left = remaining_timeout (remaining_timeout ?sent (s2, e2)) (s3, e3)"
  let ?res = "bop request left u"
  have "svcs \<noteq> []" using assms(3) by auto
  then have H: "H = handler_of ?route ?conv"
    using assms(2) Handler_Initialize_ok[of "map Service_Route svcs" b ?conv] by simp
  have B: "BeginOperation_Invoke P bop (s3, e3) (body_text ?m) (remaining_timeout ?sent (s2, e2)) u = ?res"
    using assms(1) setting_body[OF assms(1)] by (simp add: BeginOperation_wire call_setting_def left_def)
  note n = setting_names_url[OF assms(1)] and hit = service_route_hit[OF assms(3), of "(None, None)"]
  have "\<exists>r. BeginProcessRequest b H (Some ?m) ?sent True (s2, e2) (s3, e3) u = Inr (r, br_state ?res) \<and>
    (failed (br_status ?res) \<longrightarrow> beginStatus (run_payload r) = br_status ?res) \<and>
    (\<not> failed (br_status ?res) \<longrightarrow> innerCtx (run_payload r) = br_context ?res)"
  proof (cases "failed (br_status ?res)")
    case True
    have "BeginProcessRequest b H (Some ?m) ?sent True (s2, e2) (s3, e3) u =
        Inr (refused (Some eo) (br_status ?res), br_state ?res)"
      unfolding H by (rule Begin_operation_failed[where route = ?route and bo = "BeginOperation_Invoke P bop", OF n hit B assms(4)[of left u] True])
    then show ?thesis using True by (simp add: refused_def begun_def)
  next
    case False
    obtain c where c: "br_context ?res = Some (UserCtx c)" "set (br_invokes ?res) \<subseteq> {Some (UserCtx c)}"
      "length (br_invokes ?res) \<le> 1"
      using assms(4)[of left u] False by (auto simp: follows_protocol_def)
    have "br_invokes ?res = (if br_invokes ?res \<noteq> [] then [Some (UserCtx c)] else [])"
      using c(2,3) by (cases "br_invokes ?res") auto
    from Begin_operation_ok[where route = ?route and bo = "BeginOperation_Invoke P bop", OF n hit B False c(1) this, of b]
    show ?thesis using False c(1) unfolding H by (simp add: begun_def)
  qed
  moreover have "uint left =
      max 0 (uint t - (e1 - s1) div 1000000 - (e2 - s2) div 1000000 - (e3 - s3) div 1000000)"
  proof -
    have "0 \<le> (e1 - s1) div 1000000" "0 \<le> (e2 - s2) div 1000000" "0 \<le> (e3 - s3) div 1000000"
      using assms(5-7) by (simp_all add: pos_imp_zdiv_nonneg_iff)
    then have "max 0 (max 0 (max 0 (uint t - (e1 - s1) div 1000000) - (e2 - s2) div 1000000) -
        (e3 - s3) div 1000000) =
      max 0 (uint t - (e1 - s1) div 1000000 - (e2 - s2) div 1000000 - (e3 - s3) div 1000000)"
      by (simp add: max_def)
    then show ?thesis using assms(5-7) by (simp add: left_def uint_remaining_timeout)
  qed
  ultimately show ?thesis using client_sends[OF assms(1), of b t "(s1, e1)"] by blast
qed

text \<open>A service that keeps the time-out it is given as its state.\<close>

definition timing_begin :: "string \<Rightarrow> DWORD \<Rightarrow> DWORD \<Rightarrow> (string, DWORD) begin_result" where
  "timing_begin n t u =
     \<lparr>br_status = Status0, br_context = Some (UserCtx n), br_invokes = [], br_state = t\<rparr>"

definition timing_services :: "(string, DWORD) generated_service list" where
  "timing_services =
     [\<lparr>gs_package = ''helloworld'', gs_service = ''FabricHello'',
       gs_methods = [\<lparr>gm_name = ''SayHello'', gm_begin = BeginOperation_Invoke text_codec timing_begin,
                      gm_end = EndOperation_Invoke text_codec EndSayHello\<rparr>]\<rparr>]"

theorem service_timeout_budget_witness:
  "\<exists>m sent left r.
    ExecClientBegin Debug recording_client demo_converter text_codec 1000 demo_url ''bob'' (5, 3000005) None =
      Inr ((Status0, Some ()), Some (m, sent)) \<and>
    BeginProcessRequest Debug (handler_of (FRPCRouter_Route (map Service_Route timing_services)) demo_converter)
      (Some m) sent True (0, 2500000) (0, 999999) 0 = Inr (r, left) \<and> uint left = 995"
proof -
  have "first_serves (map service_serves timing_services) demo_url =
      Some (BeginOperation_Invoke text_codec timing_begin, EndOperation_Invoke text_codec EndSayHello)"
    by (simp add: timing_services_def service_serves_def demo_url_def method_url_def package_prefix_def)
  from service_timeout_budget[where b = Debug and ?s1.0 = 5 and ?e1.0 = 3000005 and ?s2.0 = 0 and ?e2.0 = 2500000
      and ?s3.0 = 0 and ?e3.0 = 999999 and t = 1000 and u = 0, OF demo_setting Handler_Initialize_ok this]
  show ?thesis
    unfolding demo_converter_def
    by (auto simp: timing_services_def timing_begin_def follows_protocol_def)
qed

section \<open>What the client makes of a reply\<close>

text \<open>
  C28: the client end is total and consistent.  Whatever the transport answers with, as long as
  its buffers are as long as they say, \<open>ExecClientEnd\<close> returns: a result of the transport other
  than \<open>S_OK\<close>, even a success code, is a transport error that carries it; and a response is
  handed out exactly when the status is OK.
\<close>

theorem client_end_total:
  assumes "EndRequest client context w = ((hr, reply), w')" and "pred_option wf_msg reply"
  shows "\<exists>st response. ExecClientEnd client conv P context w = Inr ((st, response), w') \<and>
           (response \<noteq> None \<longleftrightarrow> \<not> failed st) \<and>
           (hr \<noteq> S_OK \<longrightarrow> IsTransportError st \<and> GetTransportErrorCode st = hr)"
proof (cases "hr = S_OK")
  case False
  then show ?thesis
    using ExecClientEnd_transport_error[OF assms(1) False, of conv P]
    by (simp add: status_defs)
next
  case True
  show ?thesis
  proof (cases reply)
    case None
    then have "ExecClientEnd client conv P context w =
        Inr ((Status2 (code_value UNKNOWN) ''Server returned empty header'', None), w')"
      using assms(1) True by (simp add: ExecClientEnd_def FRPC_CopyMsg_null)
    then show ?thesis using True by auto
  next
    case (Some m)
    then have "ExecClientEnd client conv P context w =
        Inr (client_result conv P (header_text m) (body_text m), w')"
      using assms True by (intro ExecClientEnd_reply) auto
    moreover obtain st response where
      r: "client_result conv P (header_text m) (body_text m) = (st, response)" by fastforce
    moreover have "response \<noteq> None \<longleftrightarrow> \<not> failed st"
      using client_result_ok_iff[of conv P "header_text m" "body_text m"] r by simp
    ultimately show ?thesis using True by auto
  qed
qed

theorem client_end_total_witness:
  "\<exists>st response. ExecClientEnd (delivering_client 1 (request_view '''' '''')) demo_converter text_codec
       (Some ()) () = Inr ((st, response), ()) \<and>
     (response \<noteq> None \<longleftrightarrow> \<not> failed st) \<and>
     ((1::HRESULT) \<noteq> S_OK \<longrightarrow> IsTransportError st \<and> GetTransportErrorCode st = 1)"
  by (rule client_end_total[where reply = "Some (request_view '''' '''')"])
    (simp_all add: delivering_client_def)

text \<open>
  The two client calls judge the transport's result differently.  A success code other than
  \<open>S_OK\<close> from \<open>BeginRequest\<close> lets \<open>ExecClientBegin\<close> succeed, the same code from \<open>EndRequest\<close>
  makes \<open>ExecClientEnd\<close> report a transport error; a failure code is a transport error in both.
\<close>

lemma transport_result_judged:
  assumes "codec_laws Q" and "roundtrips Q \<lparr>url = a\<rparr>" and "codec_laws P" and "roundtrips P request"
    and "\<And>m t w. BeginRequest client m t w = ((hr, x), w)" and "\<And>y w. EndRequest client y w = ((hr, m), w)"
    and "hr \<noteq> S_OK"
  shows "\<exists>st st' w'.
    ExecClientBegin b client (FabricRPCHeaderProtoConverter Q R) P t a request clk w = Inr ((st, x), w') \<and>
    (failed st \<longleftrightarrow> FAILED hr) \<and> (FAILED hr \<longrightarrow> IsTransportError st) \<and>
    ExecClientEnd client (FabricRPCHeaderProtoConverter Q R) P' x w = Inr ((st', None), w') \<and>
    IsTransportError st'"
proof -
  have "ExecClientBegin b client (FabricRPCHeaderProtoConverter Q R) P t a request clk w =
    Inr ((if FAILED hr
          then Status3 (code_value FABRIC_TRANSPORT_ERROR) ''BeginRequest failed'' hr
          else Status0, x), w)"
    by (rule ExecClientBegin_sends[where h = "wire Q \<lparr>url = a\<rparr>" and d = "wire P request"])
      (use assms in \<open>simp_all add: roundtripsD converter_defs header_defs\<close>)
  then show ?thesis
    using ExecClientEnd_transport_error[OF assms(6,7), of "FabricRPCHeaderProtoConverter Q R" P' x w]
    by (simp add: status_defs)
qed

lemma transport_result_judged_witness:
  "\<exists>st st' w'.
    ExecClientBegin Debug \<lparr>BeginRequest = (\<lambda>m t w. ((1, Some ()), w)),
                           EndRequest = (\<lambda>y w. ((1, None), w))\<rparr>
      (FabricRPCHeaderProtoConverter request_header_codec reply_header_codec) text_codec 10 ''/a'' ''q''
      (0, 0) () = Inr ((st, Some ()), w') \<and>
    (failed st \<longleftrightarrow> FAILED 1) \<and> (FAILED 1 \<longrightarrow> IsTransportError st) \<and>
    ExecClientEnd \<lparr>BeginRequest = (\<lambda>m t w. ((1, Some ()), w)), EndRequest = (\<lambda>y w. ((1, None), w))\<rparr>
      (FabricRPCHeaderProtoConverter request_header_codec reply_header_codec) text_codec (Some ()) () =
      Inr ((st', None), w') \<and> IsTransportError st'"
  by (rule transport_result_judged[where m = None]) (simp_all add: S_OK_def)

section \<open>Messages on the wire\<close>

text \<open>
  C31: copying a message reads back what was put in, up to the 32-bit size fields.  The copy that
  \<open>CopyMsg\<close> takes of a \<open>tool_transport_msg\<close> or of another \<open>FRPCTransportMessage\<close> holds the first
  \<open>n mod 2 ^ 32\<close> bytes of a header and of a body of \<open>n\<close> bytes; so every text below 4 GiB survives
  and a longer one is cut without an error.
\<close>

theorem copied_message:
  "(\<exists>v. tool_GetHeaderAndBodyBuffer (mk_tool_transport_msg body header) True True True = Some v \<and>
        FRPC_CopyMsg (Some v) m =
          Inr (FRPC_Initialize (take (length header mod 2 ^ 32) header) (take (length body mod 2 ^ 32) body) m)) \<and>
   (\<exists>v. FRPC_GetHeaderAndBodyBuffer (FRPC_Initialize header body m') = Inr v \<and>
        FRPC_CopyMsg (Some v) m =
          Inr (FRPC_Initialize (take (length header mod 2 ^ 32) header) (take (length body mod 2 ^ 32) body) m))"
proof -
  have "FRPC_GetHeaderAndBodyBuffer (FRPC_Initialize header body m') =
      FRPC_GetHeaderAndBodyBuffer (FRPC_Initialize header body mk_FRPCTransportMessage)"
    by (simp add: frpc_message_defs)
  then show ?thesis
    using tool_msg.view_make[where h = header and b = body] frpc_msg.view_make[where h = header and b = body]
    by (auto simp: FRPC_CopyMsg_wf deref_Inr_iff)
qed

text \<open>
  C32: reading a chunked body.  \<open>get_body\<close> returns exactly when the stated count is within the
  buffer array and no buffer up to it states more bytes than it has; it then returns the chunks'
  bytes in order, and the reader of \<open>FRPCTransportMessage\<close> agrees with it.  Otherwise it reads
  out of bounds.
\<close>

theorem chunked_body:
  "(\<exists>w. get_body (Some m) =
      (if readable_chunks (MsgBuffers m) (unat (msgBufferCount m))
       then Inr (concat (map buffer_text (take (unat (msgBufferCount m)) (MsgBuffers m))))
       else Inl (OutOfBounds w))) \<and>
   FRPC_get_body (Some m) = get_body (Some m)"
  using get_body_cases[of m] by (simp add: FRPC_readers_eq)

text \<open>
  C30: a converter is a faithful channel.  On headers that survive the wire, serializing and
  deserializing gives the header back whatever header object is filled, and different headers
  have different bytes: no two URLs and no two statuses are confused.
\<close>

theorem headers_roundtrip:
  assumes "codec_laws Q" and "roundtrips Q h" and "roundtrips Q h'"
    and "codec_laws R" and "roundtrips R r" and "roundtrips R r'"
  shows "DeserializeRequestHeader (FabricRPCHeaderProtoConverter Q R)
           (snd (SerializeRequestHeader (FabricRPCHeaderProtoConverter Q R) h)) hdr = (True, h) \<and>
         DeserializeReplyHeader (FabricRPCHeaderProtoConverter Q R)
           (snd (SerializeReplyHeader (FabricRPCHeaderProtoConverter Q R) r)) rhdr = (True, r) \<and>
         (SerializeRequestHeader (FabricRPCHeaderProtoConverter Q R) h =
            SerializeRequestHeader (FabricRPCHeaderProtoConverter Q R) h' \<longleftrightarrow> GetUrl h = GetUrl h') \<and>
         (SerializeReplyHeader (FabricRPCHeaderProtoConverter Q R) r =
            SerializeReplyHeader (FabricRPCHeaderProtoConverter Q R) r' \<longleftrightarrow> r = r')"
proof -
  have q: "codec_laws Q \<and> roundtrips Q h" "codec_laws Q \<and> roundtrips Q h'"
    and r: "codec_laws R \<and> roundtrips R r" "codec_laws R \<and> roundtrips R r'" using assms by simp_all
  have "SerializeRequestHeader (FabricRPCHeaderProtoConverter Q R) h =
          SerializeRequestHeader (FabricRPCHeaderProtoConverter Q R) h' \<longleftrightarrow> GetUrl h = GetUrl h'"
    using proto_converter.ser_req[OF q(1), where R = R] proto_converter.ser_req[OF q(2), where R = R]
      proto_converter.req_wire_inj[OF q]
    by (cases h; cases h') (auto simp: GetUrl_def)
  moreover have "SerializeReplyHeader (FabricRPCHeaderProtoConverter Q R) r =
           SerializeReplyHeader (FabricRPCHeaderProtoConverter Q R) r' \<longleftrightarrow> r = r'"
    using proto_converter.ser_rep[OF r(1), where Q = Q] proto_converter.ser_rep[OF r(2), where Q = Q]
      proto_converter.rep_wire_inj[OF r]
    by auto
  ultimately show ?thesis
    using proto_converter.request_transfer[OF q(1)] proto_converter.reply_transfer[OF r(1)] by simp
qed

theorem headers_roundtrip_witness:
  "SerializeRequestHeader demo_converter \<lparr>url = ''/a/b''\<rparr> \<noteq>
     SerializeRequestHeader demo_converter \<lparr>url = ''/a/c''\<rparr> \<and>
   DeserializeReplyHeader demo_converter
     (snd (SerializeReplyHeader demo_converter \<lparr>status_code = 5, status_message = ''no''\<rparr>))
     mk_FabricRPCReplyHeader = (True, \<lparr>status_code = 5, status_message = ''no''\<rparr>)"
  using headers_roundtrip[of request_header_codec "\<lparr>url = ''/a/b''\<rparr>" "\<lparr>url = ''/a/c''\<rparr>"
      reply_header_codec "\<lparr>status_code = 5, status_message = ''no''\<rparr>"
      "\<lparr>status_code = 5, status_message = ''no''\<rparr>"]
  by (simp add: demo_converter_def GetUrl_def)

section \<open>The to-do list\<close>

text \<open>
  A session of the to-do server: requests served one after the other by the pairs of operations
  the generated \<open>Route\<close> binds, each with the item it answers.
\<close>

datatype todo_request = Add Item | Delete int

definition todo_serve ::
    "build \<Rightarrow> todo_request \<Rightarrow> DWORD \<Rightarrow> todo_items \<Rightarrow> ((Status \<times> Item option) \<times> todo_items) exec" where
  "todo_serve b r t items =
     (case r of
        Add p \<Rightarrow> local_call b BeginAddOne EndAddOne p t items
      | Delete i \<Rightarrow> local_call b BeginDeleteOne EndDeleteOne i t items)"

fun todo_session ::
    "build \<Rightarrow> todo_request list \<Rightarrow> DWORD \<Rightarrow> todo_items \<Rightarrow> ((Status \<times> Item option) list \<times> todo_items) exec"
where
  "todo_session b [] t items = Inr ([], items)"
| "todo_session b (r # rs) t items =
     ebind (todo_serve b r t items) (\<lambda>(a, items').
     ebind (todo_session b rs t items') (\<lambda>(as, items''). Inr (a # as, items'')))"

text \<open>The specification: a finite map from ids to items.\<close>

fun todo_spec :: "todo_request \<Rightarrow> (int \<rightharpoonup> Item) \<Rightarrow> (Status \<times> Item option) \<times> (int \<rightharpoonup> Item)" where
  "todo_spec (Add p) m =
     (case m (proto_id p) of
        Some _ \<Rightarrow> ((Status2 3 (''id already exist: '' @ to_string (proto_id p)), None), m)
      | None \<Rightarrow> ((Status0, Some p), m(proto_id p \<mapsto> p)))"
| "todo_spec (Delete i) m =
     (case m i of
        None \<Rightarrow> ((Status2 3 (''id not found: '' @ to_string i), None), m)
      | Some p \<Rightarrow> ((Status0, Some p), m(i := None)))"

fun todo_spec_session ::
    "todo_request list \<Rightarrow> (int \<rightharpoonup> Item) \<Rightarrow> (Status \<times> Item option) list \<times> (int \<rightharpoonup> Item)" where
  "todo_spec_session [] m = ([], m)"
| "todo_spec_session (r # rs) m =
     (let (a, m') = todo_spec r m; (as, m'') = todo_spec_session rs m' in (a # as, m''))"

definition todo_abs :: "todo_items \<Rightarrow> int \<rightharpoonup> Item" where
  "todo_abs items = map_option FillProto \<circ> RBT.lookup items"

lemma todo_serve_refines:
  assumes "keyed items"
  shows "\<exists>a items'. todo_serve b r t items = Inr (a, items') \<and> keyed items' \<and>
           todo_spec r (todo_abs items) = (a, todo_abs items')"
proof (cases r)
  case (Add p)
  show ?thesis
  proof (cases "RBT.lookup items (proto_id p)")
    case None
    then show ?thesis
      using Add keyed_AddOne[OF assms, of p t]
      by (auto simp: todo_serve_def local_call_def BeginAddOne_def EndAddOne_def todo_abs_def Let_def
          fun_eq_iff)
  next
    case (Some i)
    then show ?thesis
      using Add assms
      by (simp add: todo_serve_def local_call_def BeginAddOne_def todo_abs_def client_status_def)
  qed
next
  case (Delete i)
  show ?thesis
  proof (cases "RBT.lookup items i")
    case None
    then show ?thesis
      using Delete assms
      by (simp add: todo_serve_def local_call_def BeginDeleteOne_def todo_abs_def client_status_def)
  next
    case (Some x)
    then show ?thesis
      using Delete keyed_DeleteOne[OF assms, of i t]
      by (auto simp: todo_serve_def local_call_def BeginDeleteOne_def EndDeleteOne_def todo_abs_def
          fun_eq_iff RBT.lookup_delete restrict_map_def)
  qed
qed

text \<open>
  C15: the to-do server implements a finite map.  From a list in which every item is under its
  own id, any sequence of add and delete requests is answered, in both builds, as the map
  specification answers it: an add of an existing id and a delete of a missing one are refused
  and change nothing, a delete returns the item it removes.  \<open>Find\<close> then returns the items of the
  map, each once, in the order of their ids.
\<close>

theorem todo_session_refines:
  assumes "keyed items"
  shows "\<exists>answers items'. todo_session b rs t items = Inr (answers, items') \<and> keyed items' \<and>
           todo_spec_session rs (todo_abs items) = (answers, todo_abs items') \<and>
           (\<exists>its. local_call b BeginFind EndFind () t items' = Inr ((Status0, Some its), items') \<and>
                  set its = ran (todo_abs items') \<and> sorted (map proto_id its) \<and> distinct (map proto_id its))"
  using assms
proof (induction rs arbitrary: items)
  case Nil
  define its where "its = map (\<lambda>(_, i). FillProto i) (RBT.entries items)"
  have "local_call b BeginFind EndFind () t items = Inr ((Status0, Some its), items)"
    by (simp add: local_call_def BeginFind_def EndFind_def Let_def its_def)
  moreover have "map proto_id its = map fst (RBT.entries items)"
    using Nil by (auto simp: its_def keyed_def FillProto_def lookup_in_tree[symmetric])
  moreover have "set its = ran (todo_abs items)"
    by (auto simp: its_def ran_def todo_abs_def lookup_in_tree[symmetric] image_iff) blast
  ultimately show ?case
    using Nil RBT.sorted_entries[of items] RBT.distinct_entries[of items] by simp
next
  case (Cons r rs)
  obtain a items1 where step: "todo_serve b r t items = Inr (a, items1)" "keyed items1"
    "todo_spec r (todo_abs items) = (a, todo_abs items1)"
    using todo_serve_refines[OF Cons.prems, of b r t] by blast
  from Cons.IH[OF step(2)] step(1,3) show ?case by (auto simp: Let_def split: prod.splits)
qed

theorem todo_session_refines_witness:
  "\<exists>answers items'.
     todo_session Release [Add \<lparr>proto_id = 7, proto_description = ''x'', proto_completed = False\<rparr>, Delete 7, Delete 7]
       100 RBT.empty = Inr (answers, items') \<and> keyed items' \<and>
     answers = [(Status0, Some \<lparr>proto_id = 7, proto_description = ''x'', proto_completed = False\<rparr>),
                (Status0, Some \<lparr>proto_id = 7, proto_description = ''x'', proto_completed = False\<rparr>),
                (Status2 3 (''id not found: '' @ to_string 7), None)]"
  using todo_session_refines[OF keyed_empty, of Release
      "[Add \<lparr>proto_id = 7, proto_description = ''x'', proto_completed = False\<rparr>, Delete 7, Delete 7]" 100]
  by (auto simp: todo_abs_def Let_def)

end
