(* ===== verification/Item_Queue.thy ===== *)
theory Item_Queue
  imports Prelude "HOL-Library.Multiset"
begin

text \<open>
  \<open>basic_item_queue\<close> (basic_item_queue.hpp): items that wait for a consumer, or consumers that
  wait for an item.  A consumer is an event to set and a cell to store the item in; both are
  named.  What an operation does outside the queue, storing an item in a cell and setting an
  event, is its result.  \<open>std::vector\<close> appends and removes at its back.
\<close>

section \<open>The queue\<close>

record ('e, 'p) queue_entry =
  q_event :: 'e
  q_item :: 'p

record ('e, 'p, 't) item_queue =
  items :: "'t list"
  queue_entries :: "('e, 'p) queue_entry list"

text \<open>\<open>*cell = item; event->set()\<close>.\<close>

datatype ('e, 'p, 't) handover = Handover (h_event: 'e) (h_cell: 'p) (h_item: 't)

definition mk_item_queue :: "('e, 'p, 't) item_queue" where
  "mk_item_queue = \<lparr>items = [], queue_entries = []\<rparr>"

definition queue_push ::
    "'t \<Rightarrow> ('e, 'p, 't) item_queue \<Rightarrow> ('e, 'p, 't) item_queue \<times> ('e, 'p, 't) handover option" where
  "queue_push item q =
     (if queue_entries q = []
      then (q\<lparr>items := items q @ [item]\<rparr>, None)
      else
        let e = last (queue_entries q)
        in (q\<lparr>queue_entries := butlast (queue_entries q)\<rparr>, Some (Handover (q_event e) (q_item e) item)))"

definition queue_async_pop ::
    "'e \<Rightarrow> 'p \<Rightarrow> ('e, 'p, 't) item_queue \<Rightarrow> ('e, 'p, 't) item_queue \<times> ('e, 'p, 't) handover option" where
  "queue_async_pop event msgout q =
     (if items q = []
      then (q\<lparr>queue_entries := queue_entries q @ [\<lparr>q_event = event, q_item = msgout\<rparr>]\<rparr>, None)
      else
        let item = last (items q)
        in (q\<lparr>items := butlast (items q)\<rparr>, Some (Handover event msgout item)))"

definition queue_cancel :: "'e \<Rightarrow> ('e, 'p, 't) item_queue \<Rightarrow> ('e, 'p, 't) item_queue" where
  "queue_cancel event q =
     (if queue_entries q = [] then q
      else
        let e = last (queue_entries q)
        in if q_event e = event then q\<lparr>queue_entries := butlast (queue_entries q)\<rparr> else q)"

text \<open>The destructor.\<close>

definition queue_destroy :: "build \<Rightarrow> ('e, 'p, 't) item_queue \<Rightarrow> unit exec" where
  "queue_destroy b q =
     ebind (cxx_assert b ''items_.empty()'' (items q = [])) (\<lambda>_.
     cxx_assert b ''queue_entries_.empty()'' (queue_entries q = []))"

lemmas queue_defs = queue_push_def queue_async_pop_def queue_cancel_def

section \<open>The contract of a hand-over point\<close>

text \<open>
  What the connection manager and the connections rely on: an item is kept or handed to one
  consumer that was waiting, a consumer is kept or given one item that was waiting, and items
  and consumers never wait at the same time.  \<open>stored\<close> and \<open>parked\<close> are the items and consumers
  that wait.
\<close>

locale hand_over =
  fixes push :: "'t \<Rightarrow> 'q \<Rightarrow> 'q \<times> ('e, 'p, 't) handover option"
    and pop :: "'e \<Rightarrow> 'p \<Rightarrow> 'q \<Rightarrow> 'q \<times> ('e, 'p, 't) handover option"
    and cancel :: "'e \<Rightarrow> 'q \<Rightarrow> 'q"
    and stored :: "'q \<Rightarrow> 't multiset"
    and parked :: "'q \<Rightarrow> ('e \<times> 'p) multiset"
  assumes push_stores: "parked q = {#} \<Longrightarrow> push x q = (q', h) \<Longrightarrow>
      h = None \<and> stored q' = stored q + {#x#} \<and> parked q' = {#}"
    and push_wakes: "parked q \<noteq> {#} \<Longrightarrow> push x q = (q', h) \<Longrightarrow>
      \<exists>e p. h = Some (Handover e p x) \<and> parked q = parked q' + {#(e, p)#} \<and> stored q' = stored q"
    and pop_parks: "stored q = {#} \<Longrightarrow> pop e p q = (q', h) \<Longrightarrow>
      h = None \<and> parked q' = parked q + {#(e, p)#} \<and> stored q' = {#}"
    and pop_takes: "stored q \<noteq> {#} \<Longrightarrow> pop e p q = (q', h) \<Longrightarrow>
      \<exists>x. h = Some (Handover e p x) \<and> stored q = stored q' + {#x#} \<and> parked q' = parked q"
    and cancel_stored: "stored (cancel e q) = stored q"
    and cancel_parked: "parked (cancel e q) \<subseteq># parked q \<and>
      (\<forall>w \<in># parked q - parked (cancel e q). fst w = e)"
begin

definition exclusive :: "'q \<Rightarrow> bool" where
  "exclusive q \<longleftrightarrow> stored q = {#} \<or> parked q = {#}"

lemma push_exclusive: "exclusive q \<Longrightarrow> push x q = (q', h) \<Longrightarrow> exclusive q'"
  using push_stores[of q x q' h] push_wakes[of q x q' h]
  by (cases "parked q = {#}") (auto simp: exclusive_def)

lemma pop_exclusive: "exclusive q \<Longrightarrow> pop e p q = (q', h) \<Longrightarrow> exclusive q'"
  using pop_parks[of q e p q' h] pop_takes[of q e p q' h]
  by (cases "stored q = {#}") (auto simp: exclusive_def)

lemma cancel_exclusive: "exclusive q \<Longrightarrow> exclusive (cancel e q)"
  using cancel_stored[of e q] cancel_parked[of e q] by (auto simp: exclusive_def)

text \<open>Conservation: what an operation is given is in the queue afterwards or in its hand-over.\<close>

definition delivered :: "('e, 'p, 't) handover option \<Rightarrow> 't multiset" where
  "delivered h = (case h of None \<Rightarrow> {#} | Some w \<Rightarrow> {#h_item w#})"

definition woken :: "('e, 'p, 't) handover option \<Rightarrow> ('e \<times> 'p) multiset" where
  "woken h = (case h of None \<Rightarrow> {#} | Some w \<Rightarrow> {#(h_event w, h_cell w)#})"

lemma push_conserves:
  assumes "push x q = (q', h)"
  shows "stored q + {#x#} = stored q' + delivered h" and "parked q = parked q' + woken h"
  using push_stores[of q x q' h] push_wakes[of q x q' h] assms
  by (cases "parked q = {#}"; auto simp: delivered_def woken_def)+

lemma pop_conserves:
  assumes "pop e p q = (q', h)"
  shows "stored q = stored q' + delivered h" and "parked q + {#(e, p)#} = parked q' + woken h"
  using pop_parks[of q e p q' h] pop_takes[of q e p q' h] assms
  by (cases "stored q = {#}"; auto simp: delivered_def woken_def)+

end

section \<open>The queue keeps the contract\<close>

definition queue_stored :: "('e, 'p, 't) item_queue \<Rightarrow> 't multiset" where
  "queue_stored q = mset (items q)"

definition queue_parked :: "('e, 'p, 't) item_queue \<Rightarrow> ('e \<times> 'p) multiset" where
  "queue_parked q = mset (map (\<lambda>w. (q_event w, q_item w)) (queue_entries q))"

lemma mset_butlast: "xs \<noteq> [] \<Longrightarrow> mset xs = mset (butlast xs) + {#last xs#}"
  by (metis append_butlast_last_id mset_append mset_single_iff)

lemma mset_map_butlast:
  "xs \<noteq> [] \<Longrightarrow> mset (map f xs) = mset (map f (butlast xs)) + {#f (last xs)#}"
  by (metis last_map list.map_disc_iff map_butlast mset_butlast)

lemma queue_push_law:
  assumes "queue_push x q = (q', h)"
  shows "queue_parked q = {#} \<Longrightarrow>
      h = None \<and> queue_stored q' = queue_stored q + {#x#} \<and> queue_parked q' = {#}"
    and "queue_parked q \<noteq> {#} \<Longrightarrow>
      \<exists>e p. h = Some (Handover e p x) \<and> queue_parked q = queue_parked q' + {#(e, p)#} \<and>
        queue_stored q' = queue_stored q"
  using assms mset_map_butlast[of "queue_entries q"]
  by (auto simp: queue_push_def queue_parked_def queue_stored_def Let_def split: if_splits)

lemma queue_pop_law:
  assumes "queue_async_pop e p q = (q', h)"
  shows "queue_stored q = {#} \<Longrightarrow>
      h = None \<and> queue_parked q' = queue_parked q + {#(e, p)#} \<and> queue_stored q' = {#}"
    and "queue_stored q \<noteq> {#} \<Longrightarrow>
      \<exists>x. h = Some (Handover e p x) \<and> queue_stored q = queue_stored q' + {#x#} \<and>
        queue_parked q' = queue_parked q"
  using assms mset_butlast[of "items q"]
  by (auto simp: queue_async_pop_def queue_parked_def queue_stored_def Let_def split: if_splits)

lemma queue_cancel_law:
  "queue_stored (queue_cancel e q) = queue_stored q"
  "queue_parked (queue_cancel e q) \<subseteq># queue_parked q \<and>
    (\<forall>w \<in># queue_parked q - queue_parked (queue_cancel e q). fst w = e)"
proof -
  show "queue_stored (queue_cancel e q) = queue_stored q"
    by (simp add: queue_cancel_def queue_stored_def Let_def)
  show "queue_parked (queue_cancel e q) \<subseteq># queue_parked q \<and>
      (\<forall>w \<in># queue_parked q - queue_parked (queue_cancel e q). fst w = e)"
  proof (cases "queue_entries q \<noteq> [] \<and> q_event (last (queue_entries q)) = e")
    case True
    then have c: "queue_cancel e q = q\<lparr>queue_entries := butlast (queue_entries q)\<rparr>"
      by (auto simp: queue_cancel_def)
    have "queue_parked q = queue_parked (queue_cancel e q) + {#(e, q_item (last (queue_entries q)))#}"
      using True mset_map_butlast[of "queue_entries q" "\<lambda>w. (q_event w, q_item w)"]
      by (simp add: c queue_parked_def)
    then show ?thesis by simp
  next
    case False
    then have "queue_cancel e q = q" by (auto simp: queue_cancel_def Let_def)
    then show ?thesis by simp
  qed
qed

interpretation item_queue: hand_over
  queue_push queue_async_pop queue_cancel queue_stored queue_parked
  by unfold_locales (erule queue_push_law queue_pop_law queue_cancel_law | assumption | rule queue_cancel_law)+

section \<open>Histories\<close>

text \<open>A sequence of calls, under the queue's mutex, and the hand-overs it makes, in order.\<close>

datatype ('e, 'p, 't) queue_call = Push 't | Pop 'e 'p | Cancel 'e

fun queue_call_step ::
    "('e, 'p, 't) queue_call \<Rightarrow> ('e, 'p, 't) item_queue \<Rightarrow>
     ('e, 'p, 't) item_queue \<times> ('e, 'p, 't) handover option" where
  "queue_call_step (Push x) q = queue_push x q"
| "queue_call_step (Pop e p) q = queue_async_pop e p q"
| "queue_call_step (Cancel e) q = (queue_cancel e q, None)"

fun queue_run ::
    "('e, 'p, 't) queue_call list \<Rightarrow> ('e, 'p, 't) item_queue \<Rightarrow>
     ('e, 'p, 't) item_queue \<times> ('e, 'p, 't) handover list" where
  "queue_run [] q = (q, [])"
| "queue_run (c # cs) q =
     (let (q', h) = queue_call_step c q; (q'', hs) = queue_run cs q'
      in (q'', (case h of None \<Rightarrow> hs | Some w \<Rightarrow> w # hs)))"

definition pushed :: "('e, 'p, 't) queue_call list \<Rightarrow> 't multiset" where
  "pushed cs = mset (concat (map (\<lambda>c. case c of Push x \<Rightarrow> [x] | _ \<Rightarrow> []) cs))"

definition consumers :: "('e, 'p, 't) queue_call list \<Rightarrow> ('e \<times> 'p) multiset" where
  "consumers cs = mset (concat (map (\<lambda>c. case c of Pop e p \<Rightarrow> [(e, p)] | _ \<Rightarrow> []) cs))"

lemma pushed_simps [simp]:
  "pushed [] = {#}" "pushed (Push x # cs) = {#x#} + pushed cs"
  "pushed (Pop e p # cs) = pushed cs" "pushed (Cancel e # cs) = pushed cs"
  by (simp_all add: pushed_def)

lemma consumers_simps [simp]:
  "consumers [] = {#}" "consumers (Push x # cs) = consumers cs"
  "consumers (Pop e p # cs) = {#(e, p)#} + consumers cs" "consumers (Cancel e # cs) = consumers cs"
  by (simp_all add: consumers_def)

lemma queue_call_exclusive:
  assumes "item_queue.exclusive q"
  shows "item_queue.exclusive (fst (queue_call_step c q))"
proof (cases c)
  case (Push x)
  then show ?thesis using item_queue.push_exclusive[OF assms, of x] by (cases "queue_push x q") simp
next
  case (Pop e p)
  then show ?thesis using item_queue.pop_exclusive[OF assms, of e p] by (cases "queue_async_pop e p q") simp
next
  case (Cancel e)
  then show ?thesis using item_queue.cancel_exclusive[OF assms] by simp
qed

lemma queue_call_conserves:
  assumes "queue_call_step c q = (q', h)"
  shows "queue_stored q + pushed [c] = queue_stored q' + item_queue.delivered h"
    and "\<exists>gone. queue_parked q + consumers [c] = queue_parked q' + gone + item_queue.woken h \<and>
           set_mset gone \<subseteq> {w. c = Cancel (fst w)}"
proof -
  show "queue_stored q + pushed [c] = queue_stored q' + item_queue.delivered h"
    using assms item_queue.push_conserves(1)[of _ q q' h] item_queue.pop_conserves(1)[of _ _ q q' h]
    by (cases c) (auto simp: item_queue.delivered_def queue_cancel_law)
  show "\<exists>gone. queue_parked q + consumers [c] = queue_parked q' + gone + item_queue.woken h \<and>
           set_mset gone \<subseteq> {w. c = Cancel (fst w)}"
  proof (cases c)
    case (Push x)
    then show ?thesis using assms item_queue.push_conserves(2)[of x q q' h]
      by (intro exI[of _ "{#}"]) simp
  next
    case (Pop e p)
    then show ?thesis using assms item_queue.pop_conserves(2)[of e p q q' h]
      by (intro exI[of _ "{#}"]) simp
  next
    case (Cancel e)
    then show ?thesis using assms queue_cancel_law(2)[of e q]
      by (intro exI[of _ "queue_parked q - queue_parked q'"])
        (auto simp: item_queue.woken_def dest: in_diffD)
  qed
qed

lemma queue_run_Cons:
  assumes "queue_call_step c q = (q', h)"
  shows "fst (queue_run (c # cs) q) = fst (queue_run cs q')"
    and "snd (queue_run (c # cs) q) = (case h of None \<Rightarrow> [] | Some w \<Rightarrow> [w]) @ snd (queue_run cs q')"
  using assms by (auto split: prod.splits option.splits)

lemma queue_run_exclusive: "item_queue.exclusive q \<Longrightarrow> item_queue.exclusive (fst (queue_run cs q))"
proof (induction cs arbitrary: q)
  case (Cons c cs)
  obtain q' h where s: "queue_call_step c q = (q', h)" by fastforce
  then have "item_queue.exclusive q'" using queue_call_exclusive[OF Cons.prems, of c] by simp
  then show ?case using Cons.IH[of q'] queue_run_Cons(1)[OF s] by simp
qed simp

lemma pushed_Cons: "pushed (c # cs) = pushed [c] + pushed cs"
  by (cases c) simp_all

lemma consumers_Cons: "consumers (c # cs) = consumers [c] + consumers cs"
  by (cases c) simp_all

lemma queue_run_items:
  "queue_stored q + pushed cs =
     queue_stored (fst (queue_run cs q)) + mset (map h_item (snd (queue_run cs q)))"
proof (induction cs arbitrary: q)
  case (Cons c cs)
  obtain q' h where s: "queue_call_step c q = (q', h)" by fastforce
  have "queue_stored q + pushed (c # cs) = queue_stored q' + item_queue.delivered h + pushed cs"
    using queue_call_conserves(1)[OF s] by (simp only: pushed_Cons[of c cs] add.assoc[symmetric])
  also have "\<dots> = queue_stored q' + pushed cs + item_queue.delivered h"
    by (simp only: ac_simps)
  also have "\<dots> = queue_stored (fst (queue_run cs q')) + mset (map h_item (snd (queue_run cs q'))) +
      item_queue.delivered h"
    by (simp only: Cons.IH)
  finally show ?case
    unfolding queue_run_Cons[OF s] by (simp add: item_queue.delivered_def split: option.splits)
qed simp

lemma queue_run_consumers:
  "\<exists>gone. queue_parked q + consumers cs =
      queue_parked (fst (queue_run cs q)) + gone +
      mset (map (\<lambda>w. (h_event w, h_cell w)) (snd (queue_run cs q))) \<and>
    set_mset gone \<subseteq> {w. Cancel (fst w) \<in> set cs}"
proof (induction cs arbitrary: q)
  case (Cons c cs)
  obtain q' h where s: "queue_call_step c q = (q', h)" by fastforce
  obtain g1 where g1: "queue_parked q + consumers [c] = queue_parked q' + g1 + item_queue.woken h"
    "set_mset g1 \<subseteq> {w. c = Cancel (fst w)}" using queue_call_conserves(2)[OF s] by blast
  obtain g2 where g2: "queue_parked q' + consumers cs = queue_parked (fst (queue_run cs q')) + g2 +
      mset (map (\<lambda>w. (h_event w, h_cell w)) (snd (queue_run cs q')))"
    "set_mset g2 \<subseteq> {w. Cancel (fst w) \<in> set cs}" using Cons.IH[of q'] by blast
  have "queue_parked q + consumers (c # cs) = (queue_parked q + consumers [c]) + consumers cs"
    by (simp only: consumers_Cons[of c cs] add.assoc)
  also have "\<dots> = (queue_parked q' + consumers cs) + (g1 + item_queue.woken h)"
    unfolding g1(1) by (simp only: ac_simps)
  also have "\<dots> = queue_parked (fst (queue_run cs q')) + (g1 + g2) +
      (item_queue.woken h + mset (map (\<lambda>w. (h_event w, h_cell w)) (snd (queue_run cs q'))))"
    unfolding g2(1) by (simp only: ac_simps)
  finally have "queue_parked q + consumers (c # cs) =
      queue_parked (fst (queue_run (c # cs) q)) + (g1 + g2) +
      mset (map (\<lambda>w. (h_event w, h_cell w)) (snd (queue_run (c # cs) q)))"
    unfolding queue_run_Cons[OF s] by (simp add: item_queue.woken_def split: option.splits)
  moreover have "set_mset (g1 + g2) \<subseteq> {w. Cancel (fst w) \<in> set (c # cs)}"
    using g1(2) g2(2) by auto
  ultimately show ?case by blast
qed simp

text \<open>Last in, first out: pops of a queue that nobody waits on take the newest items first.\<close>

lemma queue_run_pops:
  assumes "length ws \<le> length (items q)"
  shows "queue_run (map (\<lambda>(e, p). Pop e p) ws) q =
    (q\<lparr>items := take (length (items q) - length ws) (items q)\<rparr>,
     map2 (\<lambda>(e, p) x. Handover e p x) ws (take (length ws) (rev (items q))))"
  using assms
proof (induction ws arbitrary: q)
  case (Cons w ws)
  obtain e p where w: "w = (e, p)" by fastforce
  have ne: "items q \<noteq> []" using Cons.prems by auto
  let ?q1 = "q\<lparr>items := butlast (items q)\<rparr>"
  have "items q = butlast (items q) @ [last (items q)]" using ne by simp
  then have rv: "rev (items q) = last (items q) # rev (butlast (items q))"
    by (metis rev.simps(2) rev_rev_ident rev_swap)
  have "take (length (items ?q1) - length ws) (items ?q1) =
      take (length (items q) - length (w # ws)) (items q)"
    by (simp add: take_butlast butlast_conv_take min_def)
  then show ?case
    using Cons.IH[of ?q1] Cons.prems ne w by (simp add: rv queue_async_pop_def Let_def)
qed simp

text \<open>Pushing into a queue without consumers, and waiting at a queue without items.\<close>

lemma queue_run_append:
  "queue_run (cs @ ds) q =
     (fst (queue_run ds (fst (queue_run cs q))),
      snd (queue_run cs q) @ snd (queue_run ds (fst (queue_run cs q))))"
proof (induction cs arbitrary: q)
  case (Cons c cs)
  obtain q' h where "queue_call_step c q = (q', h)" by fastforce
  then show ?case using Cons.IH[of q'] by (auto split: prod.splits option.splits)
qed simp

lemma queue_run_pushes:
  assumes "queue_entries q = []"
  shows "queue_run (map Push xs) q = (q\<lparr>items := items q @ xs\<rparr>, [])"
  using assms
  by (induction xs arbitrary: q) (simp_all add: queue_push_def)

lemma queue_run_waits:
  assumes "items q = []"
  shows "queue_run (map (\<lambda>(e, p). Pop e p) ws) q =
    (q\<lparr>queue_entries := queue_entries q @ map (\<lambda>(e, p). \<lparr>q_event = e, q_item = p\<rparr>) ws\<rparr>, [])"
  using assms
  by (induction ws arbitrary: q) (auto simp: queue_async_pop_def)

lemma zip_take_left: "zip (take (length ys) xs) ys = zip xs ys"
  by (induction xs ys rule: list_induct2') simp_all

lemma zip_take_right: "zip xs (take (length xs) ys) = zip xs ys"
  by (induction xs ys rule: list_induct2') simp_all

lemma queue_run_pops_all:
  "snd (queue_run (map (\<lambda>(e, p). Pop e p) ws) q) = map2 (\<lambda>(e, p) x. Handover e p x) ws (rev (items q))"
proof (cases "length ws \<le> length (items q)")
  case True
  then show ?thesis using queue_run_pops[OF True] by (simp add: zip_take_right)
next
  case False
  let ?n = "length (items q)"
  have "length (take ?n ws) \<le> length (items q)" by simp
  note first = queue_run_pops[OF this]
  have split: "map (\<lambda>(e, p). Pop e p) ws =
      map (\<lambda>(e, p). Pop e p) (take ?n ws) @ map (\<lambda>(e, p). Pop e p) (drop ?n ws)"
    by (metis append_take_drop_id map_append)
  have "fst (queue_run (map (\<lambda>(e, p). Pop e p) (take ?n ws)) q) = q\<lparr>items := []\<rparr>"
    using False first by simp
  then have "snd (queue_run (map (\<lambda>(e, p). Pop e p) ws) q) =
      snd (queue_run (map (\<lambda>(e, p). Pop e p) (take ?n ws)) q)"
    using queue_run_waits[of "q\<lparr>items := []\<rparr>" "drop ?n ws"] by (simp add: split queue_run_append)
  also have "\<dots> = map2 (\<lambda>(e, p) x. Handover e p x) (take ?n ws) (rev (items q))"
    using False first by simp
  also have "zip (take ?n ws) (rev (items q)) = zip ws (rev (items q))"
    using zip_take_left[of "rev (items q)" ws] by simp
  finally show ?thesis .
qed

lemma queue_run_pushes_all:
  "snd (queue_run (map Push xs) q) =
     map2 (\<lambda>w x. Handover (q_event w) (q_item w) x) (rev (queue_entries q)) xs"
proof (induction xs arbitrary: q)
  case (Cons x xs)
  show ?case
  proof (cases "queue_entries q = []")
    case True
    then show ?thesis using queue_run_pushes[OF True, of "x # xs"] by simp
  next
    case False
    then have "queue_entries q = butlast (queue_entries q) @ [last (queue_entries q)]" by simp
    then have rv: "rev (queue_entries q) = last (queue_entries q) # rev (butlast (queue_entries q))"
      by (metis rev.simps(2) rev_rev_ident rev_swap)
    then show ?thesis
      using False Cons.IH[of "q\<lparr>queue_entries := butlast (queue_entries q)\<rparr>"]
      by (auto simp: rv queue_push_def Let_def split: prod.splits)
  qed
qed simp

end
