(* ===== verification/Parse.thy ===== *)
theory Parse
  imports FRPC_Header
begin

text \<open>
  src/fabric_rpc2, parse.hpp and parse.cpp: reading and writing headers and bodies with
  \<open>absl::Status\<close> as the error value, and the helper that generated services call.  A pointer
  argument that the code compares with null is an option, or the fact that it is not null.
\<close>

section \<open>Reading\<close>

definition status_from_header :: "'s absl_api \<Rightarrow> reply_header option \<Rightarrow> 's" where
  "status_from_header A h =
     (case h of
        None \<Rightarrow> InvalidArgumentError A ''parse_from_header has nullptr''
      | Some hdr \<Rightarrow>
          let ec = status_code hdr
          in if ec > kDoNotUse A \<or> ec < 0
             then InvalidArgumentError A
                    (''reply_header has unknown statuscode: '' @ int_alphanum A ec)
             else mk_status A ec (status_message hdr))"

text \<open>The message is \<open>Some\<close> when it was filled by a successful parse.\<close>

definition parse_proto_payload :: "'s absl_api \<Rightarrow> 'm codec \<Rightarrow> string \<Rightarrow> bool \<Rightarrow> 's \<times> 'm option" where
  "parse_proto_payload A C data ret_given =
     (if \<not> ret_given then (InvalidArgumentError A ''parse_proto_payload has nullptr'', None)
      else
        (case ParseFromString C data of
           None \<Rightarrow> (UnknownError A ''parse_proto_payload failed'', None)
         | Some m \<Rightarrow> (OkStatus A, Some m)))"

definition parse_reply_header :: "'s absl_api \<Rightarrow> reply_header codec \<Rightarrow> string \<Rightarrow> 's" where
  "parse_reply_header A R data =
     (let (ec, h) = parse_proto_payload A R data True
      in if \<not> st_ok A ec then ec else status_from_header A h)"

definition parse_request_header ::
    "'s absl_api \<Rightarrow> request_header codec \<Rightarrow> string \<Rightarrow> string \<Rightarrow> 's \<times> string" where
  "parse_request_header A Q data url_ret =
     (case ParseFromString Q data of
        None \<Rightarrow> (InvalidArgumentError A ''cannot parse request header'', url_ret)
      | Some header \<Rightarrow> (OkStatus A, url header))"

section \<open>Writing\<close>

definition serialize_proto_payload ::
    "'s absl_api \<Rightarrow> 'm codec \<Rightarrow> 'm option \<Rightarrow> string option \<Rightarrow> 's \<times> string option" where
  "serialize_proto_payload A C data ret =
     (case (data, ret) of
        (Some m, Some r) \<Rightarrow>
          (let (ok, s) = SerializeToString C m
           in if \<not> ok then (UnknownError A ''serialize_proto_payload failed'', Some s)
              else (OkStatus A, Some s))
      | _ \<Rightarrow> (InvalidArgumentError A ''serialize_proto_payload has nullptr'', ret))"

definition serialize_reply_header ::
    "'s absl_api \<Rightarrow> reply_header codec \<Rightarrow> 's \<Rightarrow> string option \<Rightarrow> 's \<times> string option" where
  "serialize_reply_header A R st ret =
     (let header = \<lparr>status_code = raw_code A st, status_message = st_message A st\<rparr>
      in serialize_proto_payload A R (Some header) ret)"

text \<open>
  The body of a generated method: \<open>fn\<close> is the service's own coroutine, from the request to a
  status, the reply object it leaves, and the service's state.
\<close>

definition codegen_handler_helper ::
    "'s absl_api \<Rightarrow> 'q codec \<Rightarrow> 'p codec \<Rightarrow> string \<Rightarrow> string option \<Rightarrow> ('q \<Rightarrow> 'u \<Rightarrow> ('s \<times> 'p) \<times> 'u) \<Rightarrow>
     'u \<Rightarrow> ('s \<times> string option) \<times> 'u" where
  "codegen_handler_helper A P P' req resp fn u =
     (let (st, p1) = parse_proto_payload A P req True
      in if \<not> st_ok A st then ((st, resp), u)
         else
           let ((st, p2), u') = fn (the p1) u
           in if \<not> st_ok A st then ((st, resp), u')
              else (serialize_proto_payload A P' (Some p2) resp, u'))"

section \<open>What they compute\<close>

lemma parse_proto_payload_ok_iff:
  assumes "absl_laws A"
  shows "st_ok A (fst (parse_proto_payload A C data g)) \<longleftrightarrow> g \<and> ParseFromString C data \<noteq> None"
    and "snd (parse_proto_payload A C data g) = (if g then ParseFromString C data else None)"
  using absl_lawsD[OF assms] absl_OkStatus[OF assms]
  by (auto simp: parse_proto_payload_def split: option.splits)

text \<open>A status whose header can travel: in the range of codes, and its header survives the wire.\<close>

definition status_header :: "'s absl_api \<Rightarrow> 's \<Rightarrow> reply_header" where
  "status_header A st = \<lparr>status_code = raw_code A st, status_message = st_message A st\<rparr>"

definition sendable_status :: "'s absl_api \<Rightarrow> reply_header codec \<Rightarrow> 's \<Rightarrow> bool" where
  "sendable_status A R st \<longleftrightarrow>
     0 \<le> raw_code A st \<and> raw_code A st \<le> kDoNotUse A \<and> roundtrips R (status_header A st) \<and>
     mk_status A (raw_code A st) (st_message A st) = st"

lemma serialize_reply_header_sendable:
  assumes "codec_laws R" and "sendable_status A R st"
  shows "serialize_reply_header A R st (Some r) = (OkStatus A, Some (wire R (status_header A st)))"
  using assms roundtripsD[of R "status_header A st"]
  by (simp add: serialize_reply_header_def serialize_proto_payload_def sendable_status_def status_header_def)

lemma parse_reply_header_sendable:
  assumes "absl_laws A" and "codec_laws R" and "sendable_status A R st"
  shows "parse_reply_header A R (wire R (status_header A st)) = st"
proof -
  note rt = roundtripsD[of R "status_header A st"]
  have "ParseFromString R (wire R (status_header A st)) = Some (status_header A st)"
    using assms rt by (simp add: sendable_status_def)
  then have "parse_reply_header A R (wire R (status_header A st)) =
      status_from_header A (Some (status_header A st))"
    using absl_OkStatus[OF assms(1)] by (simp add: parse_reply_header_def parse_proto_payload_def)
  then show ?thesis
    using assms(3) by (auto simp: status_from_header_def sendable_status_def status_header_def Let_def)
qed

lemma status_from_header_out_of_range:
  assumes "absl_laws A" and "status_code h > kDoNotUse A \<or> status_code h < 0"
  shows "status_from_header A (Some h) =
    mk_status A 3 (''reply_header has unknown statuscode: '' @ to_string (status_code h))"
  using assms by (simp add: status_from_header_def Let_def absl_lawsD)

text \<open>The generated method on a request that survives the wire.\<close>

lemma codegen_handler_helper_wire:
  assumes "absl_laws A" and "codec_laws P" and "roundtrips P q"
  shows "codegen_handler_helper A P P' (wire P q) resp fn u =
    (let ((st, p2), u') = fn q u
     in if \<not> st_ok A st then ((st, resp), u') else (serialize_proto_payload A P' (Some p2) resp, u'))"
  using roundtripsD[OF assms(2,3)] absl_OkStatus[OF assms(1)]
  by (simp add: codegen_handler_helper_def parse_proto_payload_def)

lemma codegen_handler_helper_bad:
  assumes "absl_laws A" and "ParseFromString P req = None"
  shows "codegen_handler_helper A P P' req resp fn u =
    ((mk_status A 2 ''parse_proto_payload failed'', resp), u)"
  using assms by (simp add: codegen_handler_helper_def parse_proto_payload_def absl_lawsD)

end
