(* ===== verification/Request_Context.thy ===== *)
theory Request_Context
  imports Parse Transport_Message
begin

text \<open>
  The asynchronous context of src/fabric_rpc2 (any_context.hpp), the content it carries for a
  request, and \<open>request\<close> (request.hpp, request.cpp): how a reply is stored and the transport is
  told.  Invoking the transport's callback is the boolean in the result of an operation.
\<close>

section \<open>any_context\<close>

record 't any_context =
  ac_content :: 't
  is_completed :: bool

definition mk_any_context :: "build \<Rightarrow> bool \<Rightarrow> 't \<Rightarrow> 't any_context exec" where
  "mk_any_context b callback content =
     ebind (cxx_assert b ''callback != nullptr'' callback) (\<lambda>_.
     Inr \<lparr>ac_content = content, is_completed = False\<rparr>)"

definition set_content :: "'t \<Rightarrow> 't any_context \<Rightarrow> 't any_context" where
  "set_content content ctx = ctx\<lparr>ac_content := content\<rparr>"

definition get_content :: "'t any_context \<Rightarrow> 't" where
  "get_content ctx = ac_content ctx"

definition any_context_complete :: "'t any_context \<Rightarrow> 't any_context \<times> bool" where
  "any_context_complete ctx =
     (if is_completed ctx then (ctx, False) else (ctx\<lparr>is_completed := True\<rparr>, True))"

definition any_context_IsCompleted :: "'t any_context \<Rightarrow> bool" where
  "any_context_IsCompleted ctx = is_completed ctx"

definition any_context_CompletedSynchronously :: "'t any_context \<Rightarrow> bool" where
  "any_context_CompletedSynchronously ctx = False"

definition any_context_Cancel :: "'t any_context \<Rightarrow> HRESULT" where
  "any_context_Cancel ctx = S_OK"

section \<open>The content of a request's context\<close>

text \<open>\<open>hr\<close> is an \<open>HRESULT\<close> that the constructor leaves uninitialised.\<close>

record context_content =
  cc_hr :: "HRESULT option"
  reply_msg :: "IFabricTransportMessage option"

definition new_content :: context_content where
  "new_content = \<lparr>cc_hr = None, reply_msg = None\<rparr>"

type_synonym request_context = "context_content any_context"

section \<open>request\<close>

text \<open>A request refers to its context by the index of the context in the server's heap.\<close>

record request =
  conn_id :: string
  rq_msg :: "IFabricTransportMessage option"
  rq_ctx :: nat

definition get_conn_id :: "request \<Rightarrow> string" where
  "get_conn_id r = conn_id r"

definition get_request_msg :: "request \<Rightarrow> IFabricTransportMessage option" where
  "get_request_msg r = rq_msg r"

text \<open>\<open>request::complete\<close> on the context it refers to.\<close>

definition request_complete ::
    "build \<Rightarrow> HRESULT \<Rightarrow> IFabricTransportMessage option \<Rightarrow> request_context \<Rightarrow>
     (request_context \<times> bool) exec" where
  "request_complete b hr reply ctx =
     ebind (if hr = S_OK then cxx_assert b ''reply_msg'' (reply \<noteq> None) else Inr ()) (\<lambda>_.
     let content = (get_content ctx)\<lparr>cc_hr := Some hr, reply_msg := reply\<rparr>
     in Inr (any_context_complete (set_content content ctx)))"

definition complete_rpc_error ::
    "build \<Rightarrow> 's absl_api \<Rightarrow> reply_header codec \<Rightarrow> 's \<Rightarrow> request_context \<Rightarrow>
     (request_context \<times> bool) exec" where
  "complete_rpc_error b A R st ctx =
     (let header = \<lparr>status_code = raw_code A st, status_message = st_message A st\<rparr>;
          msg = tool_message '''' (SerializeAsString R header)
      in request_complete b S_OK (Some msg) ctx)"

text \<open>\<open>basic_msg_handler::EndProcessRequest\<close>: what the transport fetches after its callback.\<close>

definition Msg_EndProcessRequest ::
    "build \<Rightarrow> request_context \<Rightarrow> (HRESULT \<times> IFabricTransportMessage option) exec" where
  "Msg_EndProcessRequest b ctx =
     (let content = get_content ctx
      in case cc_hr content of
           None \<Rightarrow> Inl (Uninitialised ''content.hr'')
         | Some hr \<Rightarrow>
             if hr \<noteq> S_OK then Inr (hr, None)
             else ebind (cxx_assert b ''content.reply_msg'' (reply_msg content \<noteq> None)) (\<lambda>_.
                  Inr (S_OK, reply_msg content)))"

section \<open>Completing a request\<close>

text \<open>The first completion stores the result and tells the transport; the context is then done.\<close>

lemma request_complete_first:
  assumes "\<not> is_completed ctx"
  shows "request_complete b S_OK (Some m) ctx =
    Inr (\<lparr>ac_content = \<lparr>cc_hr = Some S_OK, reply_msg = Some m\<rparr>, is_completed = True\<rparr>, True)"
  using assms
  by (cases ctx; cases "ac_content ctx")
    (simp add: request_complete_def any_context_complete_def set_content_def get_content_def)

lemma request_complete_invokes_iff:
  "request_complete b hr m ctx = Inr (ctx', invoked) \<Longrightarrow>
     (invoked \<longleftrightarrow> \<not> is_completed ctx) \<and> is_completed ctx' \<and>
     ac_content ctx' = (ac_content ctx)\<lparr>cc_hr := Some hr, reply_msg := m\<rparr>"
  by (auto simp: request_complete_def any_context_complete_def set_content_def get_content_def
      ebind_Inr_iff Let_def split: if_splits)

lemma EndProcessRequest_completed:
  assumes "request_complete b hr m ctx = Inr (ctx', invoked)" and "hr = S_OK \<Longrightarrow> m \<noteq> None"
  shows "Msg_EndProcessRequest b' ctx' = Inr (hr, if hr = S_OK then m else None)"
  using request_complete_invokes_iff[OF assms(1)] assms(2)
  by (simp add: Msg_EndProcessRequest_def get_content_def)

lemma EndProcessRequest_before_completion:
  assumes "cc_hr (ac_content ctx) = None"
  shows "Msg_EndProcessRequest b ctx = Inl (Uninitialised ''content.hr'')"
  using assms by (simp add: Msg_EndProcessRequest_def get_content_def)

end
