(* ===== verification/Connection_Manager.thy ===== *)
theory Connection_Manager
  imports Item_Queue Request_Context
begin

text \<open>
  \<open>basic_connection_manager\<close> (basic_connection_manager.hpp): the table of connections by client
  id, a request queue for each, and the queue of connections that wait to be accepted.  Request
  queues are shared objects: the manager owns a heap of them and an entry refers to one by its
  index.  Both mutexes make every operation one step.
\<close>

section \<open>State and operations\<close>

record conn_manager_entry =
  entry_conn :: string
  entry_queue :: nat

record ('e, 'p) connection_manager =
  conns :: "string \<rightharpoonup> conn_manager_entry"
  conn_queue :: "('e, 'p, conn_manager_entry) item_queue"
  queues :: "('e, 'p, request) item_queue list"

definition mk_connection_manager :: "('e, 'p) connection_manager" where
  "mk_connection_manager = \<lparr>conns = Map.empty, conn_queue = mk_item_queue, queues = []\<rparr>"

text \<open>
  \<open>std::map::insert\<close> keeps the entry a key already has; the new entry is queued in any case.
\<close>

definition add_conn ::
    "string \<Rightarrow> ('e, 'p) connection_manager \<Rightarrow>
     ('e, 'p) connection_manager \<times> ('e, 'p, conn_manager_entry) handover option" where
  "add_conn key m =
     (let entry = \<lparr>entry_conn = key, entry_queue = length (queues m)\<rparr>;
          conns' = (case conns m key of None \<Rightarrow> (conns m)(key \<mapsto> entry) | Some _ \<Rightarrow> conns m);
          (cq, h) = queue_push entry (conn_queue m)
      in (m\<lparr>conns := conns', conn_queue := cq, queues := queues m @ [mk_item_queue]\<rparr>, h))"

definition mgr_async_pop ::
    "'e \<Rightarrow> 'p \<Rightarrow> ('e, 'p) connection_manager \<Rightarrow>
     ('e, 'p) connection_manager \<times> ('e, 'p, conn_manager_entry) handover option" where
  "mgr_async_pop event out m =
     (let (cq, h) = queue_async_pop event out (conn_queue m) in (m\<lparr>conn_queue := cq\<rparr>, h))"

text \<open>\<open>std::map::at\<close> throws for a missing key, in a \<open>noexcept\<close> function: the process ends.\<close>

definition disconnect :: "string \<Rightarrow> ('e, 'p) connection_manager \<Rightarrow> ('e, 'p) connection_manager exec" where
  "disconnect i m =
     (case conns m i of
        None \<Rightarrow> Inl (Terminated ''disconnect: conns_.at'')
      | Some entry \<Rightarrow> Inr (m\<lparr>conns := (conns m)(i := None)\<rparr>))"

definition post_request ::
    "request \<Rightarrow> ('e, 'p) connection_manager \<Rightarrow>
     (('e, 'p) connection_manager \<times> ('e, 'p, request) handover option) exec" where
  "post_request req m =
     (case conns m (get_conn_id req) of
        None \<Rightarrow> Inl (Terminated ''post_request: conns_.at'')
      | Some entry \<Rightarrow>
          let k = entry_queue entry; (q, h) = queue_push req (queues m ! k)
          in Inr (m\<lparr>queues := (queues m)[k := q]\<rparr>, h))"

definition mgr_cancel :: "'e \<Rightarrow> ('e, 'p) connection_manager \<Rightarrow> ('e, 'p) connection_manager" where
  "mgr_cancel event m = m\<lparr>conn_queue := queue_cancel event (conn_queue m)\<rparr>"

text \<open>The destructor: its own assertion, then those of the connection queue.\<close>

definition mgr_destroy :: "build \<Rightarrow> ('e, 'p) connection_manager \<Rightarrow> unit exec" where
  "mgr_destroy b m =
     ebind (cxx_assert b ''conns_.empty()'' (conns m = Map.empty)) (\<lambda>_.
     queue_destroy b (conn_queue m))"

lemmas manager_defs =
  add_conn_def mgr_async_pop_def disconnect_def post_request_def mgr_cancel_def

section \<open>The handlers that call it\<close>

text \<open>
  \<open>basic_connection_handler\<close>: the context is completed before the call returns, so the callback
  is invoked (the boolean) although the context reports that it was not synchronous.
\<close>

definition BeginProcessConnect ::
    "build \<Rightarrow> string \<Rightarrow> bool \<Rightarrow> ('e, 'p) connection_manager \<Rightarrow>
     ((unit any_context \<times> bool) \<times> ('e, 'p) connection_manager \<times>
      ('e, 'p, conn_manager_entry) handover option) exec" where
  "BeginProcessConnect b client callback m =
     (let (m', h) = add_conn client m
      in ebind (mk_any_context b callback ()) (\<lambda>ctx.
         ebind (deref ''callback_'' (if callback then Some () else None)) (\<lambda>_.
         Inr (any_context_complete ctx, m', h))))"

definition BeginProcessDisconnect ::
    "build \<Rightarrow> string \<Rightarrow> bool \<Rightarrow> ('e, 'p) connection_manager \<Rightarrow>
     ((unit any_context \<times> bool) \<times> ('e, 'p) connection_manager) exec" where
  "BeginProcessDisconnect b client callback m =
     ebind (disconnect client m) (\<lambda>m'.
     ebind (mk_any_context b callback ()) (\<lambda>ctx.
     ebind (deref ''callback_'' (if callback then Some () else None)) (\<lambda>_.
     Inr (any_context_complete ctx, m'))))"

text \<open>The calls of the two handlers that only return.\<close>

definition EndProcessConnect :: "'ctx \<Rightarrow> HRESULT" where
  "EndProcessConnect ctx = S_OK"

definition EndProcessDisconnect :: "'ctx \<Rightarrow> HRESULT" where
  "EndProcessDisconnect ctx = S_OK"

definition Msg_HandleOneWay :: "string \<Rightarrow> IFabricTransportMessage option \<Rightarrow> HRESULT" where
  "Msg_HandleOneWay client message = S_OK"

text \<open>
  \<open>basic_msg_handler::BeginProcessRequest\<close>: a new context, which becomes number \<open>n\<close> of the
  heap, and a request for it.
\<close>

definition Msg_BeginProcessRequest ::
    "build \<Rightarrow> string \<Rightarrow> IFabricTransportMessage option \<Rightarrow> bool \<Rightarrow> nat \<Rightarrow>
     ('e, 'p) connection_manager \<Rightarrow>
     (request_context \<times> ('e, 'p) connection_manager \<times> ('e, 'p, request) handover option) exec" where
  "Msg_BeginProcessRequest b client message callback n m =
     ebind (mk_any_context b callback new_content) (\<lambda>ctx.
     ebind (post_request \<lparr>conn_id = client, rq_msg = message, rq_ctx = n\<rparr> m) (\<lambda>(m', h).
     Inr (ctx, m', h)))"

section \<open>The table and the queues\<close>

text \<open>Every connection has a queue of its own, and the entry of its id is for that id.\<close>

definition manager_wf :: "('e, 'p) connection_manager \<Rightarrow> bool" where
  "manager_wf m \<longleftrightarrow>
     (\<forall>i e. conns m i = Some e \<longrightarrow> entry_conn e = i \<and> entry_queue e < length (queues m)) \<and>
     (\<forall>i j d e. conns m i = Some d \<longrightarrow> conns m j = Some e \<longrightarrow> entry_queue d = entry_queue e \<longrightarrow> i = j)"

lemma manager_wf_new: "manager_wf mk_connection_manager"
  by (simp add: manager_wf_def mk_connection_manager_def)

definition new_entry :: "string \<Rightarrow> ('e, 'p) connection_manager \<Rightarrow> conn_manager_entry" where
  "new_entry i m = \<lparr>entry_conn = i, entry_queue = length (queues m)\<rparr>"

lemma new_entry_sel [simp]:
  "entry_conn (new_entry i m) = i" "entry_queue (new_entry i m) = length (queues m)"
  by (simp_all add: new_entry_def)

lemma add_conn_eq:
  "add_conn i m =
     (m\<lparr>conns := (case conns m i of None \<Rightarrow> (conns m)(i \<mapsto> new_entry i m) | Some _ \<Rightarrow> conns m),
        conn_queue := fst (queue_push (new_entry i m) (conn_queue m)),
        queues := queues m @ [mk_item_queue]\<rparr>,
      snd (queue_push (new_entry i m) (conn_queue m)))"
  unfolding new_entry_def by (simp add: add_conn_def Let_def split: prod.splits)

lemma manager_wf_add_conn:
  assumes "manager_wf m"
  shows "manager_wf (fst (add_conn i m))"
proof -
  have lt: "entry_queue e < length (queues m) \<and> entry_conn e = j" if "conns m j = Some e" for j e
    using assms that by (simp add: manager_wf_def)
  have inj: "j = k" if "conns m j = Some d" "conns m k = Some e" "entry_queue d = entry_queue e" for j k d e
    using assms that unfolding manager_wf_def by blast
  show ?thesis
  proof (cases "conns m i")
    case None
    then show ?thesis
      unfolding manager_wf_def add_conn_eq
      by (auto dest: lt inj)
  next
    case (Some e)
    then show ?thesis
      unfolding manager_wf_def add_conn_eq by (auto dest: lt inj)
  qed
qed

lemma manager_wf_disconnect: "manager_wf m \<Longrightarrow> disconnect i m = Inr m' \<Longrightarrow> manager_wf m'"
  unfolding manager_wf_def disconnect_def
  by (auto split: option.splits if_splits)

lemma manager_wf_post: "manager_wf m \<Longrightarrow> post_request r m = Inr (m', h) \<Longrightarrow> manager_wf m'"
  unfolding manager_wf_def post_request_def
  by (auto simp: Let_def split: option.splits prod.splits)

lemma manager_wf_pop: "manager_wf m \<Longrightarrow> manager_wf (fst (mgr_async_pop e p m))"
  by (auto simp: manager_wf_def mgr_async_pop_def Let_def split: prod.splits)

text \<open>A posted request goes to the queue of its connection and to no other.\<close>

lemma post_request_known:
  assumes "conns m (conn_id r) = Some e"
  shows "post_request r m =
    Inr (m\<lparr>queues := (queues m)[entry_queue e := fst (queue_push r (queues m ! entry_queue e))]\<rparr>,
         snd (queue_push r (queues m ! entry_queue e)))"
  using assms by (simp add: post_request_def get_conn_id_def Let_def split: prod.splits)

lemma post_request_isolated:
  assumes "manager_wf m" and "post_request r m = Inr (m', h)"
    and "conns m j = Some d" and "j \<noteq> conn_id r"
  shows "queues m' ! entry_queue d = queues m ! entry_queue d"
proof -
  obtain e where e: "conns m (conn_id r) = Some e"
    using assms(2) by (auto simp: post_request_def get_conn_id_def split: option.splits)
  then have "entry_queue e \<noteq> entry_queue d" using assms(1,3,4) unfolding manager_wf_def by metis
  then show ?thesis using post_request_known[OF e] assms(2) by auto
qed

lemma post_request_unknown:
  "conns m (conn_id r) = None \<Longrightarrow> \<not> returns (post_request r m)"
  by (simp add: post_request_def get_conn_id_def)

text \<open>A second connection with an id in use keeps the first in the table but is queued as well.\<close>

lemma add_conn_duplicate:
  assumes "conns m i = Some e" and "add_conn i m = (m', h)"
  shows "conns m' = conns m"
  using assms by (auto simp: add_conn_eq)

end
