(* ===== verification/Middleware.thy ===== *)
theory Middleware
  imports Parse Transport_Message Operation
begin

text \<open>
  The server's request processing of src/fabric_rpc2: the \<open>service\<close> interface (service.hpp), the
  generated services of the second plugin, and \<open>middleware\<close> (middleware.hpp), which reads a
  request, routes it by the name of the service and builds the reply.  A coroutine is the
  function from the services' state to its result and the new state.
\<close>

section \<open>Services\<close>

text \<open>\<open>execute(url, req, resp)\<close>: the string \<open>resp\<close> points to is passed and returned.\<close>

record ('s, 'u) service =
  svc_name :: string
  svc_execute :: "string \<Rightarrow> string \<Rightarrow> string \<Rightarrow> 'u \<Rightarrow> ('s \<times> string) \<times> 'u"

text \<open>What a pointer to a string points to.\<close>

definition pointee :: "string \<Rightarrow> string option \<Rightarrow> string" where
  "pointee old p = (case p of None \<Rightarrow> old | Some s \<Rightarrow> s)"

lemma pointee_simps [simp]: "pointee old (Some s) = s" "pointee old None = old"
  by (simp_all add: pointee_def)

text \<open>
  A method of a generated service: its name, and \<open>codegen_handler_helper\<close> at its messages and
  the user's function.
\<close>

record ('s, 'u) generated_handler =
  gh_name :: string
  gh_run :: "string \<Rightarrow> string option \<Rightarrow> 'u \<Rightarrow> ('s \<times> string option) \<times> 'u"

fun generated_execute ::
    "'s absl_api \<Rightarrow> string \<Rightarrow> string \<Rightarrow> ('s, 'u) generated_handler list \<Rightarrow> string \<Rightarrow> string \<Rightarrow>
     string \<Rightarrow> 'u \<Rightarrow> ('s \<times> string) \<times> 'u" where
  "generated_execute A package service [] u req resp st =
     ((UnimplementedError A (''url: '' @ u @ '' not found''), resp), st)"
| "generated_execute A package service (h # hs) u req resp st =
     (if u = method_url package service (gh_name h)
      then let ((s, r), st') = gh_run h req (Some resp) st in ((s, pointee resp r), st')
      else generated_execute A package service hs u req resp st)"

text \<open>The plugin writes one constant name into every service.\<close>

definition generated_name :: string where
  "generated_name = ''helloworld.FabricHello''"

definition generated2_service ::
    "'s absl_api \<Rightarrow> string \<Rightarrow> string \<Rightarrow> ('s, 'u) generated_handler list \<Rightarrow> ('s, 'u) service" where
  "generated2_service A package service hs =
     \<lparr>svc_name = generated_name, svc_execute = generated_execute A package service hs\<rparr>"

section \<open>middleware\<close>

text \<open>The services of a middleware, in the order of their registration.\<close>

definition mk_middleware :: "('s, 'u) service list" where
  "mk_middleware = []"

definition middleware_add_service ::
    "('s, 'u) service \<Rightarrow> ('s, 'u) service list \<Rightarrow> ('s, 'u) service list" where
  "middleware_add_service svc svcs = svcs @ [svc]"

fun middleware_dispatch ::
    "'s absl_api \<Rightarrow> ('s, 'u) service list \<Rightarrow> string \<Rightarrow> string \<Rightarrow> string \<Rightarrow> 'u \<Rightarrow>
     ('s \<times> string) \<times> 'u" where
  "middleware_dispatch A [] u payload resp st = ((UnimplementedError A ''url not found'', resp), st)"
| "middleware_dispatch A (svc # svcs) u payload resp st =
     (if \<not> starts_with (tl u) (svc_name svc) then middleware_dispatch A svcs u payload resp st
      else svc_execute svc u payload resp st)"

definition middleware_execute_inner ::
    "'s absl_api \<Rightarrow> request_header codec \<Rightarrow> ('s, 'u) service list \<Rightarrow> IFabricTransportMessage option \<Rightarrow>
     string \<Rightarrow> 'u \<Rightarrow> (('s \<times> string) \<times> 'u) exec" where
  "middleware_execute_inner A Q svcs req resp_str st =
     ebind (get_header req) (\<lambda>hdr.
     let (ec, u) = parse_request_header A Q hdr ''''
     in if \<not> st_ok A ec then Inr ((ec, resp_str), st)
        else if length u = 0 then Inr ((InvalidArgumentError A ''url is empty'', resp_str), st)
        else if \<not> starts_with u ''/'' then Inr ((InvalidArgumentError A ''invalid url'', resp_str), st)
        else
          ebind (get_body req) (\<lambda>payload.
          Inr (middleware_dispatch A svcs u payload resp_str st)))"

definition middleware_execute ::
    "build \<Rightarrow> 's absl_api \<Rightarrow> request_header codec \<Rightarrow> reply_header codec \<Rightarrow> ('s, 'u) service list \<Rightarrow>
     IFabricTransportMessage option \<Rightarrow> 'u \<Rightarrow> (IFabricTransportMessage \<times> 'u) exec" where
  "middleware_execute b A Q R svcs req st =
     ebind (middleware_execute_inner A Q svcs req '''' st) (\<lambda>((ec, resp_str), st').
     let (must_ok, resp_header) = serialize_reply_header A R ec (Some '''')
     in ebind (cxx_assert b ''must_ok.ok()'' (st_ok A must_ok)) (\<lambda>_.
        Inr (tool_message resp_str (pointee '''' resp_header), st')))"

section \<open>The contract of a service\<close>

text \<open>
  A service promises a table of URLs, and the answer \<open>UNIMPLEMENTED\<close> with the reply and the
  state untouched for every other URL.
\<close>

locale url_service =
  fixes A :: "'s absl_api"
    and execute :: "string \<Rightarrow> string \<Rightarrow> string \<Rightarrow> 'u \<Rightarrow> ('s \<times> string) \<times> 'u"
    and methods :: "string \<rightharpoonup> (string \<Rightarrow> string option \<Rightarrow> 'u \<Rightarrow> ('s \<times> string option) \<times> 'u)"
  assumes known: "methods u = Some run \<Longrightarrow>
      execute u req resp st = (let ((s, r), st') = run req (Some resp) st in ((s, pointee resp r), st'))"
    and unknown: "methods u = None \<Longrightarrow>
      execute u req resp st = ((UnimplementedError A (''url: '' @ u @ '' not found''), resp), st)"
begin

lemma unknown_state: "u \<notin> dom methods \<Longrightarrow> snd (execute u req resp st) = st"
  by (simp add: unknown domIff)

lemma unknown_code:
  assumes "absl_laws A" and "u \<notin> dom methods"
  shows "raw_code A (fst (fst (execute u req resp st))) = 12"
  using assms by (simp add: unknown domIff absl_lawsD)

end

definition handler_table ::
    "string \<Rightarrow> string \<Rightarrow> ('s, 'u) generated_handler list \<Rightarrow>
     string \<rightharpoonup> (string \<Rightarrow> string option \<Rightarrow> 'u \<Rightarrow> ('s \<times> string option) \<times> 'u)" where
  "handler_table package service hs =
     map_of (map (\<lambda>h. (method_url package service (gh_name h), gh_run h)) hs)"

lemma generated_execute_eq:
  "generated_execute A p s hs u req resp st =
     (case handler_table p s hs u of
        None \<Rightarrow> ((UnimplementedError A (''url: '' @ u @ '' not found''), resp), st)
      | Some f \<Rightarrow> (let ((c, r), st') = f req (Some resp) st in ((c, pointee resp r), st')))"
  by (induction hs) (auto simp: handler_table_def)

interpretation generated2: url_service A "generated_execute A package service hs"
    "handler_table package service hs"
  for A :: "'s absl_api" and package service and hs :: "('s, 'u) generated_handler list"
  by unfold_locales (simp_all add: generated_execute_eq)

section \<open>What the middleware does with a request\<close>

text \<open>Routing is by the first service whose name begins the URL after its slash.\<close>

lemma middleware_dispatch_find:
  "middleware_dispatch A svcs u payload resp st =
     (case find (\<lambda>svc. starts_with (tl u) (svc_name svc)) svcs of
        None \<Rightarrow> ((UnimplementedError A ''url not found'', resp), st)
      | Some svc \<Rightarrow> svc_execute svc u payload resp st)"
  by (induction svcs) auto

text \<open>A service that is added takes only the URLs that no earlier service has.\<close>

lemma middleware_dispatch_added:
  "middleware_dispatch A (middleware_add_service svc svcs) u payload resp st =
     (if list_ex (\<lambda>earlier. starts_with (tl u) (svc_name earlier)) svcs
      then middleware_dispatch A svcs u payload resp st
      else middleware_dispatch A (middleware_add_service svc mk_middleware) u payload resp st)"
  by (induction svcs) (simp_all add: middleware_add_service_def mk_middleware_def)

text \<open>A request that names a URL, and the dispatched call.\<close>

lemma middleware_execute_routes:
  assumes "wf_msg m" and "parse_request_header A Q (header_text m) '''' = (OkStatus A, CHR ''/'' # p)"
    and "absl_laws A"
  shows "middleware_execute_inner A Q svcs (Some m) resp st =
    Inr (middleware_dispatch A svcs (CHR ''/'' # p) (body_text m) resp st)"
  using assms absl_OkStatus[OF assms(3)]
  by (simp add: middleware_execute_inner_def get_header_wf get_body_wf starts_with_def)

text \<open>The reply to a status that can travel.\<close>

lemma middleware_execute_reply:
  assumes "middleware_execute_inner A Q svcs req '''' st = Inr ((ec, resp_str), st')"
    and "absl_laws A" and "codec_laws R" and "sendable_status A R ec"
  shows "middleware_execute b A Q R svcs req st =
    Inr (tool_message resp_str (wire R (status_header A ec)), st')"
  using assms absl_OkStatus[OF assms(2)] serialize_reply_header_sendable[OF assms(3,4)]
  by (simp add: middleware_execute_def)

text \<open>Requests that are refused before routing: the status for each, and nothing has happened.\<close>

definition refusal :: "'s absl_api \<Rightarrow> request_header codec \<Rightarrow> string \<Rightarrow> 's option" where
  "refusal A Q hdr =
     (case ParseFromString Q hdr of
        None \<Rightarrow> Some (InvalidArgumentError A ''cannot parse request header'')
      | Some h \<Rightarrow>
          if url h = '''' then Some (InvalidArgumentError A ''url is empty'')
          else if hd (url h) \<noteq> CHR ''/'' then Some (InvalidArgumentError A ''invalid url'')
          else None)"

lemma middleware_refuses:
  assumes "absl_laws A" and "wf_msg m" and "refusal A Q (header_text m) = Some ec"
  shows "middleware_execute_inner A Q svcs (Some m) resp st = Inr ((ec, resp), st)"
proof (cases "ParseFromString Q (header_text m)")
  case None
  then show ?thesis
    using assms
    by (auto simp: middleware_execute_inner_def get_header_wf parse_request_header_def refusal_def absl_lawsD)
next
  case (Some h)
  then show ?thesis
    using assms absl_OkStatus[OF assms(1)]
    by (cases "url h")
      (auto simp: middleware_execute_inner_def get_header_wf parse_request_header_def refusal_def
        starts_with_def split: if_splits)
qed

lemma middleware_execute_inner_returns:
  assumes "wf_msg m"
  shows "returns (middleware_execute_inner A Q svcs (Some m) resp st)"
  using assms
  by (simp add: middleware_execute_inner_def get_header_wf get_body_wf Let_def split: prod.splits)

lemma returns_pair: "returns m \<Longrightarrow> \<exists>x y z. m = Inr ((x, y), z)"
  by (cases m) auto

end
