(* ===== verification/Basic_Event.thy ===== *)
theory Basic_Event
  imports Prelude
begin

text \<open>
  \<open>basic_event\<close> of src/fabric_rpc2 wraps a manual-reset event of Windows: it is signalled from
  \<open>set\<close> to \<open>reset\<close>, and an \<open>async_wait\<close> on it completes once it is signalled, also when it was
  signalled before the wait began.  The model keeps whether it is set.
\<close>

type_synonym basic_event = bool

definition mk_event :: basic_event where
  [simp]: "mk_event = False"

definition event_set :: "basic_event \<Rightarrow> basic_event" where
  [simp]: "event_set e = True"

definition event_reset :: "basic_event \<Rightarrow> basic_event" where
  [simp]: "event_reset e = False"

text \<open>Whether an \<open>async_wait\<close> that has been started can complete.\<close>

definition event_wakes :: "basic_event \<Rightarrow> bool" where
  [simp]: "event_wakes e = e"

end
