(* ===== verification/Server.thy ===== *)
theory Server
  imports Connection_Manager Middleware Basic_Event
begin

text \<open>
  The server of src/fabric_rpc2 as a state machine: \<open>basic_acceptor::async_accept_conn\<close>,
  \<open>basic_server_connection::async_accept\<close> and the coroutines of \<open>ex_server::serve\<close>, driven by the
  transport's calls of the connection and message handlers.  The coroutines run on one
  \<open>io_context\<close>: each runs from one suspension to the next without another in between, but the
  transport's threads can run between any two calls that take a mutex.  So a step is one call
  of a handler, or the part of a coroutine around one mutex.
\<close>

section \<open>State\<close>

text \<open>
  Where a coroutine is: about to call the accept operation, or waiting for its event.  The
  listener has the acceptor's event and its \<open>entry_holder_\<close>; a connection has its own event and
  its payload holder \<open>pl_\<close>.
\<close>

datatype accept_pc = Accepting | Waiting

record listener =
  l_pc :: accept_pc
  l_signalled :: basic_event
  entry_holder :: "conn_manager_entry option"

record server_connection =
  c_queue :: "nat option"
  c_pc :: accept_pc
  c_signalled :: basic_event
  c_pl :: "request option"

text \<open>A connection is made without a queue; \<open>set_queue\<close> gives it the one of its manager entry.\<close>

definition mk_server_connection :: server_connection where
  "mk_server_connection =
     \<lparr>c_queue = None, c_pc = Accepting, c_signalled = mk_event, c_pl = None\<rparr>"

definition set_queue :: "build \<Rightarrow> nat \<Rightarrow> server_connection \<Rightarrow> server_connection exec" where
  "set_queue b queue c =
     ebind (cxx_assert b ''!queue_'' (c_queue c = None)) (\<lambda>_. Inr (c\<lparr>c_queue := Some queue\<rparr>))"

lemma set_queue_new [simp]:
  "set_queue b j mk_server_connection =
     Inr \<lparr>c_queue = Some j, c_pc = Accepting, c_signalled = False, c_pl = None\<rparr>"
  by (simp add: set_queue_def mk_server_connection_def)

text \<open>
  The server: the manager, the listener, the accepted connections in the order of acceptance
  (number \<open>k\<close> waits with event \<open>k\<close>), the heap of request contexts, the requests whose handler
  coroutine has been spawned, the services' state, and two histories: the requests as they were
  posted, one per context, and the contexts whose callback has been invoked.
\<close>

record 'u server =
  mgr :: "(nat, unit) connection_manager"
  listener :: listener
  connections :: "server_connection list"
  contexts :: "request_context list"
  spawned :: "request list"
  services :: 'u
  posted :: "request list"
  notifications :: "nat list"

definition new_server :: "'u \<Rightarrow> 'u server" where
  "new_server u =
     \<lparr>mgr = mk_connection_manager,
      listener = \<lparr>l_pc = Accepting, l_signalled = mk_event, entry_holder = None\<rparr>,
      connections = [], contexts = [], spawned = [], services = u, posted = [], notifications = []\<rparr>"

section \<open>Hand-overs\<close>

text \<open>\<open>*cell = item; event->set()\<close> for the acceptor's event and for the event of a connection.\<close>

definition wake_listener ::
    "(nat, unit, conn_manager_entry) handover option \<Rightarrow> listener \<Rightarrow> listener" where
  "wake_listener h l =
     (case h of None \<Rightarrow> l
      | Some w \<Rightarrow> l\<lparr>entry_holder := Some (h_item w), l_signalled := event_set (l_signalled l)\<rparr>)"

definition wake_connection ::
    "(nat, unit, request) handover option \<Rightarrow> server_connection list \<Rightarrow> server_connection list" where
  "wake_connection h cs =
     (case h of None \<Rightarrow> cs
      | Some w \<Rightarrow>
          let c = cs ! h_event w
          in cs[h_event w := c\<lparr>c_pl := Some (h_item w), c_signalled := event_set (c_signalled c)\<rparr>])"

section \<open>Calls of the transport\<close>

definition transport_connect :: "build \<Rightarrow> string \<Rightarrow> 'u server \<Rightarrow> 'u server exec" where
  "transport_connect b client s =
     ebind (BeginProcessConnect b client True (mgr s)) (\<lambda>(_, m, h).
     Inr (s\<lparr>mgr := m, listener := wake_listener h (listener s)\<rparr>))"

definition transport_disconnect :: "build \<Rightarrow> string \<Rightarrow> 'u server \<Rightarrow> 'u server exec" where
  "transport_disconnect b client s =
     ebind (BeginProcessDisconnect b client True (mgr s)) (\<lambda>(_, m). Inr (s\<lparr>mgr := m\<rparr>))"

definition transport_request ::
    "build \<Rightarrow> string \<Rightarrow> IFabricTransportMessage \<Rightarrow> 'u server \<Rightarrow> 'u server exec" where
  "transport_request b client message s =
     (let n = length (contexts s)
      in ebind (Msg_BeginProcessRequest b client (Some message) True n (mgr s)) (\<lambda>(ctx, m, h).
         Inr (s\<lparr>mgr := m, contexts := contexts s @ [ctx],
                posted := posted s @ [\<lparr>conn_id = client, rq_msg = Some message, rq_ctx = n\<rparr>],
                connections := wake_connection h (connections s)\<rparr>)))"

section \<open>Coroutines\<close>

text \<open>\<open>async_accept_conn\<close>: reset the event and the holder, pop a connection or wait for one.\<close>

definition listener_accept :: "'u server \<Rightarrow> 'u server" where
  "listener_accept s =
     (let l = (listener s)\<lparr>l_signalled := event_reset (l_signalled (listener s)), entry_holder := None, l_pc := Waiting\<rparr>;
          (m, h) = mgr_async_pop 0 () (mgr s)
      in s\<lparr>mgr := m, listener := wake_listener h l\<rparr>)"

text \<open>The event is set: a connection is made from the holder, and its coroutine is spawned.\<close>

definition listener_wakes :: "build \<Rightarrow> 'u server \<Rightarrow> 'u server exec" where
  "listener_wakes b s =
     ebind (cxx_assert b ''e_copy'' (entry_holder (listener s) \<noteq> None)) (\<lambda>_.
     ebind (deref ''e_copy'' (entry_holder (listener s))) (\<lambda>e.
     ebind (set_queue b (entry_queue e) mk_server_connection) (\<lambda>c.
     Inr (s\<lparr>connections := connections s @ [c],
            listener := (listener s)\<lparr>l_pc := Accepting\<rparr>\<rparr>))))"

text \<open>\<open>async_accept\<close> of connection \<open>k\<close>: reset the event, pop a request or wait for one.\<close>

definition connection_accept :: "build \<Rightarrow> nat \<Rightarrow> 'u server \<Rightarrow> 'u server exec" where
  "connection_accept b k s =
     (let c = connections s ! k
      in ebind (cxx_assert b ''queue_'' (c_queue c \<noteq> None)) (\<lambda>_.
         ebind (cxx_assert b ''!pl_'' (c_pl c = None)) (\<lambda>_.
         ebind (deref ''queue_'' (c_queue c)) (\<lambda>j.
         let (q, h) = queue_async_pop k () (queues (mgr s) ! j);
             cs = (connections s)[k := c\<lparr>c_signalled := event_reset (c_signalled c), c_pc := Waiting\<rparr>]
         in Inr (s\<lparr>mgr := (mgr s)\<lparr>queues := (queues (mgr s))[j := q]\<rparr>,
                   connections := wake_connection h cs\<rparr>)))))"

text \<open>The event of connection \<open>k\<close> is set: its payload is moved into a new handler coroutine.\<close>

definition connection_wakes :: "nat \<Rightarrow> 'u server \<Rightarrow> 'u server exec" where
  "connection_wakes k s =
     (let c = connections s ! k
      in ebind (deref ''pl'' (c_pl c)) (\<lambda>r.
         Inr (s\<lparr>connections := (connections s)[k := c\<lparr>c_pl := None, c_pc := Accepting\<rparr>],
                spawned := spawned s @ [r]\<rparr>)))"

text \<open>One handler coroutine: the middleware computes the reply, the request is completed.\<close>

definition handle_request ::
    "build \<Rightarrow> 's absl_api \<Rightarrow> request_header codec \<Rightarrow> reply_header codec \<Rightarrow> ('s, 'u) service list \<Rightarrow>
     nat \<Rightarrow> 'u server \<Rightarrow> 'u server exec" where
  "handle_request b A Q R svcs i s =
     (let r = spawned s ! i
      in ebind (middleware_execute b A Q R svcs (get_request_msg r) (services s)) (\<lambda>(reply, u).
         ebind (request_complete b S_OK (Some reply) (contexts s ! rq_ctx r)) (\<lambda>(ctx, invoked).
         Inr (s\<lparr>spawned := take i (spawned s) @ drop (Suc i) (spawned s),
                contexts := (contexts s)[rq_ctx r := ctx],
                services := u,
                notifications := notifications s @ (if invoked then [rq_ctx r] else [])\<rparr>))))"

section \<open>Steps\<close>

text \<open>Steps of the server's own thread.\<close>

inductive internal_step ::
    "build \<Rightarrow> 's absl_api \<Rightarrow> request_header codec \<Rightarrow> reply_header codec \<Rightarrow> ('s, 'u) service list \<Rightarrow>
     'u server \<Rightarrow> 'u server exec \<Rightarrow> bool"
  for b :: build and A :: "'s absl_api" and Q :: "request_header codec"
    and R :: "reply_header codec" and svcs :: "('s, 'u) service list"
where
  accept_conn:
    "l_pc (listener s) = Accepting \<Longrightarrow> internal_step b A Q R svcs s (Inr (listener_accept s))"
| accepted_conn:
    "l_pc (listener s) = Waiting \<Longrightarrow> l_signalled (listener s) \<Longrightarrow>
     internal_step b A Q R svcs s (listener_wakes b s)"
| accept_request:
    "k < length (connections s) \<Longrightarrow> c_pc (connections s ! k) = Accepting \<Longrightarrow>
     internal_step b A Q R svcs s (connection_accept b k s)"
| accepted_request:
    "k < length (connections s) \<Longrightarrow> c_pc (connections s ! k) = Waiting \<Longrightarrow>
     c_signalled (connections s ! k) \<Longrightarrow>
     internal_step b A Q R svcs s (connection_wakes k s)"
| handler_runs:
    "i < length (spawned s) \<Longrightarrow>
     internal_step b A Q R svcs s (handle_request b A Q R svcs i s)"

text \<open>
  Steps of the transport's threads.  The transport announces a client before it disconnects it
  or passes on a request of it, and passes on messages whose buffers are as long as they say.
\<close>

inductive transport_step :: "build \<Rightarrow> 'u server \<Rightarrow> 'u server exec \<Rightarrow> bool"
  for b :: build
where
  connect: "transport_step b s (transport_connect b client s)"
| disconnects:
    "conns (mgr s) client \<noteq> None \<Longrightarrow> transport_step b s (transport_disconnect b client s)"
| request:
    "conns (mgr s) client \<noteq> None \<Longrightarrow> wf_msg message \<Longrightarrow>
     transport_step b s (transport_request b client message s)"

inductive server_reachable ::
    "build \<Rightarrow> 's absl_api \<Rightarrow> request_header codec \<Rightarrow> reply_header codec \<Rightarrow> ('s, 'u) service list \<Rightarrow>
     'u \<Rightarrow> 'u server exec \<Rightarrow> bool"
  for b :: build and A :: "'s absl_api" and Q :: "request_header codec"
    and R :: "reply_header codec" and svcs :: "('s, 'u) service list" and u :: 'u
where
  fresh: "server_reachable b A Q R svcs u (Inr (new_server u))"
| internal: "server_reachable b A Q R svcs u (Inr s) \<Longrightarrow> internal_step b A Q R svcs s r \<Longrightarrow>
    server_reachable b A Q R svcs u r"
| transport: "server_reachable b A Q R svcs u (Inr s) \<Longrightarrow> transport_step b s r \<Longrightarrow>
    server_reachable b A Q R svcs u r"

inductive_cases internal_stepE: "internal_step b A Q R svcs s r"

inductive_cases transport_stepE: "transport_step b s r"

section \<open>Who waits where\<close>

text \<open>
  A connection that is about to accept, or that has been given a request, waits in no queue; one
  that waits without a request is the only consumer in its queue, and that queue is empty.
\<close>

definition conn_fits :: "nat \<Rightarrow> server_connection \<Rightarrow> (nat, unit, request) item_queue \<Rightarrow> bool" where
  "conn_fits k c q \<longleftrightarrow>
     (case c_pc c of
        Accepting \<Rightarrow> c_pl c = None \<and> queue_entries q = []
      | Waiting \<Rightarrow>
          if c_signalled c then c_pl c \<noteq> None \<and> queue_entries q = []
          else c_pl c = None \<and> items q = [] \<and> queue_entries q = [\<lparr>q_event = k, q_item = ()\<rparr>])"

lemma conn_fits_simps:
  "c_pc c = Accepting \<Longrightarrow> conn_fits k c q \<longleftrightarrow> c_pl c = None \<and> queue_entries q = []"
  "c_pc c = Waiting \<Longrightarrow> c_signalled c \<Longrightarrow> conn_fits k c q \<longleftrightarrow> c_pl c \<noteq> None \<and> queue_entries q = []"
  "c_pc c = Waiting \<Longrightarrow> \<not> c_signalled c \<Longrightarrow> conn_fits k c q \<longleftrightarrow>
     c_pl c = None \<and> items q = [] \<and> queue_entries q = [\<lparr>q_event = k, q_item = ()\<rparr>]"
  by (simp_all add: conn_fits_def)

definition conn_state ::
    "(nat, unit, request) item_queue list \<Rightarrow> nat \<Rightarrow> server_connection \<Rightarrow> bool" where
  "conn_state qs k c \<longleftrightarrow>
     (\<exists>j. c_queue c = Some j \<and> j < length qs \<and> conn_fits k c (qs ! j))"

definition listener_state ::
    "(nat, unit, conn_manager_entry) item_queue \<Rightarrow> listener \<Rightarrow> bool" where
  "listener_state q l \<longleftrightarrow>
     (case l_pc l of
        Accepting \<Rightarrow> queue_entries q = []
      | Waiting \<Rightarrow>
          if l_signalled l then entry_holder l \<noteq> None \<and> queue_entries q = []
          else items q = [] \<and> queue_entries q = [\<lparr>q_event = 0, q_item = ()\<rparr>])"

text \<open>The queues of the connections that wait to be accepted, are being accepted, or are served.\<close>

definition held_entry :: "listener \<Rightarrow> nat list" where
  "held_entry l =
     (if l_pc l = Waiting \<and> l_signalled l
      then (case entry_holder l of None \<Rightarrow> [] | Some e \<Rightarrow> [entry_queue e]) else [])"

definition queue_refs :: "'u server \<Rightarrow> nat list" where
  "queue_refs s =
     map entry_queue (items (conn_queue (mgr s))) @ held_entry (listener s) @
     map (\<lambda>c. the (c_queue c)) (connections s)"

definition routes :: "'u server \<Rightarrow> bool" where
  "routes s \<longleftrightarrow>
     manager_wf (mgr s) \<and>
     listener_state (conn_queue (mgr s)) (listener s) \<and>
     (\<forall>k < length (connections s). conn_state (queues (mgr s)) k (connections s ! k)) \<and>
     (\<forall>j < length (queues (mgr s)). Some j \<notin> set (map c_queue (connections s)) \<longrightarrow>
        queue_entries (queues (mgr s) ! j) = []) \<and>
     mset (queue_refs s) = mset [0..<length (queues (mgr s))]"

lemma routes_new: "routes (new_server u)"
  using manager_wf_new
  by (simp add: routes_def new_server_def listener_state_def queue_refs_def held_entry_def)
    (simp add: mk_connection_manager_def mk_item_queue_def)

text \<open>No two connections share a queue.\<close>

lemma routes_distinct:
  assumes "routes s"
  shows "distinct (map (\<lambda>c. the (c_queue c)) (connections s))"
proof -
  have "distinct (queue_refs s)"
    using assms distinct_upt unfolding routes_def by (metis mset_eq_imp_distinct_iff)
  then show ?thesis by (simp add: queue_refs_def)
qed

lemma routes_own_queue:
  assumes "routes s" and "k < length (connections s)" and "k' < length (connections s)"
    and "c_queue (connections s ! k) = Some j" and "c_queue (connections s ! k') = Some j"
  shows "k = k'"
  using routes_distinct[OF assms(1)] assms(2-5) by (force simp: distinct_conv_nth)

text \<open>A consumer in a request queue is the connection of that queue, and it waits.\<close>

lemma routes_parked:
  assumes "routes s" and "j < length (queues (mgr s))" and "queue_entries (queues (mgr s) ! j) \<noteq> []"
  obtains k where "k < length (connections s)" and "c_queue (connections s ! k) = Some j"
    and "c_pc (connections s ! k) = Waiting" and "\<not> c_signalled (connections s ! k)"
    and "c_pl (connections s ! k) = None" and "items (queues (mgr s) ! j) = []"
    and "queue_entries (queues (mgr s) ! j) = [\<lparr>q_event = k, q_item = ()\<rparr>]"
proof -
  have "Some j \<in> set (map c_queue (connections s))" using assms by (auto simp: routes_def)
  then obtain k where k: "k < length (connections s)" "c_queue (connections s ! k) = Some j"
    by (auto simp: in_set_conv_nth)
  then have "conn_state (queues (mgr s)) k (connections s ! k)" using assms(1) by (simp add: routes_def)
  with k have f: "conn_fits k (connections s ! k) (queues (mgr s) ! j)" by (auto simp: conn_state_def)
  with k assms(3) show ?thesis
    by (intro that[of k]) (auto simp: conn_fits_def split: accept_pc.splits if_splits)
qed

subsection \<open>Calls of the transport\<close>

lemma conn_state_cong:
  assumes "conn_state qs k c"
    and "\<And>j. c_queue c = Some j \<Longrightarrow> j < length qs \<Longrightarrow> j < length qs' \<and> qs' ! j = qs ! j"
  shows "conn_state qs' k c"
  using assms by (auto simp: conn_state_def)

lemma conn_state_more: "conn_state qs k c \<Longrightarrow> conn_state (qs @ qs') k c"
  by (erule conn_state_cong) (simp add: nth_append)

lemma transport_connect_eq:
  "transport_connect b i s = Inr (s\<lparr>mgr := fst (add_conn i (mgr s)),
     listener := wake_listener (snd (add_conn i (mgr s))) (listener s)\<rparr>)"
  by (simp add: transport_connect_def BeginProcessConnect_def mk_any_context_def any_context_complete_def
      split: prod.splits)

lemma routes_connect:
  assumes "routes s" and "transport_connect b i s = Inr s'"
  shows "routes s'"
proof -
  let ?m = "mgr s" and ?l = "listener s"
  let ?e = "new_entry i ?m"
  have L: "listener_state (conn_queue ?m) ?l" and W: "manager_wf (fst (add_conn i ?m))"
    using assms(1) by (auto simp: routes_def manager_wf_add_conn)
  have q: "queues (fst (add_conn i ?m)) = queues ?m @ [mk_item_queue]" by (simp add: add_conn_eq)
  have L': "listener_state (conn_queue (fst (add_conn i ?m))) (wake_listener (snd (add_conn i ?m)) ?l)"
    and refs: "mset (map entry_queue (items (conn_queue (fst (add_conn i ?m))))) +
        mset (held_entry (wake_listener (snd (add_conn i ?m)) ?l)) =
      mset (map entry_queue (items (conn_queue ?m))) + mset (held_entry ?l) + {#length (queues ?m)#}"
    using L
    by (auto simp: add_conn_eq listener_state_def queue_push_def wake_listener_def held_entry_def Let_def
        split: accept_pc.splits if_splits)
  have s': "s' = s\<lparr>mgr := fst (add_conn i ?m), listener := wake_listener (snd (add_conn i ?m)) ?l\<rparr>"
    using assms(2) by (simp add: transport_connect_eq)
  have "mset (queue_refs s') = mset (queue_refs s) + {#length (queues ?m)#}"
    using refs by (simp add: queue_refs_def s' ac_simps)
  then have R: "mset (queue_refs s') = mset [0..<length (queues (mgr s'))]"
    using assms(1) by (simp add: routes_def s' q)
  have C: "\<forall>k < length (connections s'). conn_state (queues (mgr s')) k (connections s' ! k)"
    using assms(1) by (simp add: routes_def s' q conn_state_more)
  have U: "\<forall>j < length (queues (mgr s')). Some j \<notin> set (map c_queue (connections s')) \<longrightarrow>
      queue_entries (queues (mgr s') ! j) = []"
    using assms(1) by (simp add: routes_def s' q nth_append less_Suc_eq mk_item_queue_def)
  show ?thesis unfolding routes_def using R C U L' W by (simp add: s')
qed

lemma routes_disconnect:
  assumes "routes s" and "transport_disconnect b i s = Inr s'"
  shows "routes s'"
proof -
  obtain m where m: "disconnect i (mgr s) = Inr m" and s': "s' = s\<lparr>mgr := m\<rparr>"
    using assms(2) by (auto simp: transport_disconnect_def BeginProcessDisconnect_def ebind_Inr_iff)
  have "manager_wf m" using manager_wf_disconnect[OF _ m] assms(1) by (simp add: routes_def)
  moreover have "conn_queue m = conn_queue (mgr s)" "queues m = queues (mgr s)"
    using m by (auto simp: disconnect_def split: option.splits)
  ultimately show ?thesis using assms(1) by (simp add: routes_def s' queue_refs_def)
qed

text \<open>Where a request of a connected client goes: into its queue, or to the connection that waits.\<close>

lemma transport_request_eq:
  assumes "conns (mgr s) i = Some e"
  shows "transport_request b i msg s =
    (let r = \<lparr>conn_id = i, rq_msg = Some msg, rq_ctx = length (contexts s)\<rparr>;
         (q, h) = queue_push r (queues (mgr s) ! entry_queue e)
     in Inr (s\<lparr>mgr := (mgr s)\<lparr>queues := (queues (mgr s))[entry_queue e := q]\<rparr>,
               contexts := contexts s @ [\<lparr>ac_content = new_content, is_completed = False\<rparr>],
               posted := posted s @ [r],
               connections := wake_connection h (connections s)\<rparr>))"
  using assms
  by (simp add: transport_request_def Msg_BeginProcessRequest_def mk_any_context_def
      post_request_known Let_def split: prod.splits)

lemma routes_set_queue:
  assumes "routes s" and "j < length (queues (mgr s))" and "k < length (connections s)"
    and "c_queue (connections s ! k) = Some j" and "c_queue c = Some j" and "conn_fits k c q"
    and "mgr s' = (mgr s)\<lparr>queues := (queues (mgr s))[j := q]\<rparr>"
    and "connections s' = (connections s)[k := c]" and "listener s' = listener s"
  shows "routes s'"
proof -
  have C: "conn_state (queues (mgr s')) k' (connections s' ! k')" if "k' < length (connections s')" for k'
  proof (cases "k' = k")
    case True
    then show ?thesis using assms(2-8) by (simp add: conn_state_def)
  next
    case False
    have k': "k' < length (connections s)" using that assms(8) by simp
    have "c_queue (connections s ! k') \<noteq> Some j"
      using routes_own_queue[OF assms(1) k' assms(3)] assms(4) False by blast
    moreover have "conn_state (queues (mgr s)) k' (connections s ! k')"
      using assms(1) k' by (simp add: routes_def)
    ultimately show ?thesis using False assms(7,8) by (auto elim!: conn_state_cong)
  qed
  have S: "map c_queue (connections s') = map c_queue (connections s)"
    using assms(3-5,8) by (intro nth_equalityI) (auto simp: nth_list_update)
  have U: "queue_entries (queues (mgr s') ! j') = []"
    if "j' < length (queues (mgr s'))" and "Some j' \<notin> set (map c_queue (connections s'))" for j'
  proof -
    have "Some j \<in> set (map c_queue (connections s))"
      using assms(3,4) by (metis length_map nth_map nth_mem)
    then have "j' \<noteq> j" using that(2) S by auto
    then show ?thesis using that assms(1,7) by (auto simp: routes_def S simp del: set_map)
  qed
  have "map (\<lambda>c. the (c_queue c)) (connections s') = map (\<lambda>c. the (c_queue c)) (connections s)"
    using S by (metis (no_types, lifting) list.map_comp map_eq_conv comp_apply)
  then have R: "queue_refs s' = queue_refs s" using assms(7,9) by (simp add: queue_refs_def)
  have W: "manager_wf (mgr s')" using assms(1,7) by (simp add: routes_def manager_wf_def)
  show ?thesis
    unfolding routes_def using C U R W assms(1,7,9) by (auto simp: routes_def)
qed

lemma routes_request:
  assumes "routes s" and "conns (mgr s) i = Some e" and "transport_request b i msg s = Inr s'"
  shows "routes s'"
proof -
  let ?j = "entry_queue e" and ?m = "mgr s"
  let ?r = "\<lparr>conn_id = i, rq_msg = Some msg, rq_ctx = length (contexts s)\<rparr>"
  have j: "?j < length (queues ?m)" using assms(1,2) by (simp add: routes_def manager_wf_def)
  note eq = transport_request_eq[OF assms(2), of b msg]
  show ?thesis
  proof (cases "queue_entries (queues ?m ! ?j) = []")
    case True
    then have s': "s' = s\<lparr>mgr := ?m\<lparr>queues := (queues ?m)[?j :=
          (queues ?m ! ?j)\<lparr>items := items (queues ?m ! ?j) @ [?r]\<rparr>]\<rparr>,
        contexts := contexts s @ [\<lparr>ac_content = new_content, is_completed = False\<rparr>],
        posted := posted s @ [?r]\<rparr>"
      using assms(3) by (auto simp: eq queue_push_def wake_connection_def Let_def)
    show ?thesis
    proof (cases "Some ?j \<in> set (map c_queue (connections s))")
      case True
      then obtain k where k: "k < length (connections s)" "c_queue (connections s ! k) = Some ?j"
        by (auto simp: in_set_conv_nth)
      have "conn_state (queues ?m) k (connections s ! k)" using assms(1) k by (simp add: routes_def)
      then have "conn_fits k (connections s ! k) (queues ?m ! ?j)" using k by (simp add: conn_state_def)
      then have f: "conn_fits k (connections s ! k)
          ((queues ?m ! ?j)\<lparr>items := items (queues ?m ! ?j) @ [?r]\<rparr>)"
        using \<open>queue_entries (queues ?m ! ?j) = []\<close>
        by (cases "c_pc (connections s ! k)"; cases "c_signalled (connections s ! k)")
          (simp_all add: conn_fits_simps)
      show ?thesis
        by (rule routes_set_queue[OF assms(1) j k k(2) f]) (simp_all add: s')
    next
      case False
      have "conn_state (queues (mgr s')) k (connections s' ! k)" if "k < length (connections s')" for k
      proof -
        have k: "k < length (connections s)" using that s' by simp
        then have "c_queue (connections s ! k) \<noteq> Some ?j" using False by (metis length_map nth_map nth_mem)
        moreover have "conn_state (queues ?m) k (connections s ! k)" using assms(1) k by (simp add: routes_def)
        ultimately show ?thesis using s' by (auto elim!: conn_state_cong)
      qed
      then show ?thesis
        using assms(1) \<open>queue_entries (queues ?m ! ?j) = []\<close> j
        by (auto simp: routes_def s' queue_refs_def manager_wf_def nth_list_update)
    qed
  next
    case False
    obtain k where k: "k < length (connections s)" "c_queue (connections s ! k) = Some ?j"
      "c_pc (connections s ! k) = Waiting" "queue_entries (queues ?m ! ?j) = [\<lparr>q_event = k, q_item = ()\<rparr>]"
      by (rule routes_parked[OF assms(1) j False])
    let ?c = "(connections s ! k)\<lparr>c_pl := Some ?r, c_signalled := True\<rparr>"
    let ?q = "(queues ?m ! ?j)\<lparr>queue_entries := []\<rparr>"
    have s': "s' = s\<lparr>mgr := ?m\<lparr>queues := (queues ?m)[?j := ?q]\<rparr>,
        contexts := contexts s @ [\<lparr>ac_content = new_content, is_completed = False\<rparr>],
        posted := posted s @ [?r], connections := (connections s)[k := ?c]\<rparr>"
      using assms(3) k(4) by (auto simp: eq queue_push_def wake_connection_def Let_def)
    have "conn_fits k ?c ?q" using k(3) by (simp add: conn_fits_simps)
    then show ?thesis
      using k(2) by (intro routes_set_queue[OF assms(1) j k(1,2), of ?c ?q]) (simp_all add: s')
  qed
qed

subsection \<open>The coroutines\<close>

lemma routes_listener_accept:
  assumes "routes s" and "l_pc (listener s) = Accepting"
  shows "routes (listener_accept s)"
proof -
  let ?cq = "conn_queue (mgr s)"
  have e: "queue_entries ?cq = []" using assms by (simp add: routes_def listener_state_def)
  have keep: "routes s'" if "queues (mgr s') = queues (mgr s)" "conns (mgr s') = conns (mgr s)"
    "connections s' = connections s" "mset (queue_refs s') = mset (queue_refs s)"
    "listener_state (conn_queue (mgr s')) (listener s')" for s' :: "'a server"
    using that assms(1) by (simp add: routes_def manager_wf_def)
  show ?thesis
  proof (cases "items ?cq = []")
    case True
    then show ?thesis
      using e assms(2)
      by (intro keep)
        (simp_all add: listener_accept_def mgr_async_pop_def queue_async_pop_def wake_listener_def
          listener_state_def queue_refs_def held_entry_def)
  next
    case False
    then show ?thesis
      using e assms(2) mset_map_butlast[OF False, of entry_queue]
      by (intro keep)
        (simp_all add: listener_accept_def mgr_async_pop_def queue_async_pop_def wake_listener_def
          listener_state_def queue_refs_def held_entry_def Let_def)
  qed
qed

lemma listener_wakes_eq:
  assumes "routes s" and "l_pc (listener s) = Waiting" and "l_signalled (listener s)"
  obtains e where "entry_holder (listener s) = Some e"
    and "listener_wakes b s = Inr (s\<lparr>connections := connections s @
        [\<lparr>c_queue = Some (entry_queue e), c_pc = Accepting, c_signalled = False, c_pl = None\<rparr>],
      listener := (listener s)\<lparr>l_pc := Accepting\<rparr>\<rparr>)"
  using assms by (auto simp: routes_def listener_state_def listener_wakes_def)

lemma routes_listener_wakes:
  assumes "routes s" and "l_pc (listener s) = Waiting" and "l_signalled (listener s)"
    and "listener_wakes b s = Inr s'"
  shows "routes s'"
proof -
  obtain e where e: "entry_holder (listener s) = Some e"
    and w: "listener_wakes b s = Inr (s\<lparr>connections := connections s @
        [\<lparr>c_queue = Some (entry_queue e), c_pc = Accepting, c_signalled = False, c_pl = None\<rparr>],
      listener := (listener s)\<lparr>l_pc := Accepting\<rparr>\<rparr>)"
    by (rule listener_wakes_eq[OF assms(1-3)])
  let ?j = "entry_queue e"
  let ?c = "\<lparr>c_queue = Some ?j, c_pc = Accepting, c_signalled = False, c_pl = None\<rparr>"
  have s': "s' = s\<lparr>connections := connections s @ [?c], listener := (listener s)\<lparr>l_pc := Accepting\<rparr>\<rparr>"
    using w assms(4) by simp
  have h: "held_entry (listener s) = [?j]" using assms(2,3) e by (simp add: held_entry_def)
  have d: "distinct (queue_refs s)"
    using assms(1) distinct_upt unfolding routes_def by (metis mset_eq_imp_distinct_iff)
  have "?j \<in> set (queue_refs s)" using h by (simp add: queue_refs_def)
  moreover have "set (queue_refs s) = {0..<length (queues (mgr s))}"
    using assms(1) by (metis atLeastLessThan_upt mset_eq_setD routes_def)
  ultimately have j: "?j < length (queues (mgr s))" by auto
  have "?j \<notin> set (map (\<lambda>c. the (c_queue c)) (connections s))"
    using d h by (auto simp: queue_refs_def)
  then have no: "Some ?j \<notin> set (map c_queue (connections s))"
    by (auto simp: image_iff) (metis option.sel)
  then have q: "queue_entries (queues (mgr s) ! ?j) = []" using assms(1) j by (simp add: routes_def)
  have C: "conn_state (queues (mgr s')) k (connections s' ! k)" if "k < length (connections s')" for k
    using that assms(1) j q
    by (auto simp: s' routes_def nth_append less_Suc_eq conn_state_def conn_fits_simps)
  have L: "listener_state (conn_queue (mgr s')) (listener s')"
    using assms(1-3) by (auto simp: s' routes_def listener_state_def)
  have R: "mset (queue_refs s') = mset (queue_refs s)"
    using h by (simp add: s' queue_refs_def held_entry_def)
  show ?thesis unfolding routes_def using C L R assms(1) by (auto simp: s' routes_def)
qed

text \<open>What a connection finds when it accepts: a request, or nothing, and then it waits.\<close>

lemma connection_accept_eq:
  assumes "routes s" and "k < length (connections s)" and "c_pc (connections s ! k) = Accepting"
  obtains j where "c_queue (connections s ! k) = Some j" and "j < length (queues (mgr s))"
    and "c_pl (connections s ! k) = None" and "queue_entries (queues (mgr s) ! j) = []"
    and "connection_accept b k s =
      (if items (queues (mgr s) ! j) = []
       then Inr (s\<lparr>mgr := (mgr s)\<lparr>queues := (queues (mgr s))[j :=
                     (queues (mgr s) ! j)\<lparr>queue_entries := [\<lparr>q_event = k, q_item = ()\<rparr>]\<rparr>]\<rparr>,
                   connections := (connections s)[k :=
                     (connections s ! k)\<lparr>c_signalled := False, c_pc := Waiting\<rparr>]\<rparr>)
       else Inr (s\<lparr>mgr := (mgr s)\<lparr>queues := (queues (mgr s))[j :=
                     (queues (mgr s) ! j)\<lparr>items := butlast (items (queues (mgr s) ! j))\<rparr>]\<rparr>,
                   connections := (connections s)[k :=
                     (connections s ! k)\<lparr>c_pc := Waiting,
                       c_pl := Some (last (items (queues (mgr s) ! j))), c_signalled := True\<rparr>]\<rparr>))"
proof -
  have "conn_state (queues (mgr s)) k (connections s ! k)" using assms by (simp add: routes_def)
  then obtain j where j: "c_queue (connections s ! k) = Some j" "j < length (queues (mgr s))"
    "c_pl (connections s ! k) = None" "queue_entries (queues (mgr s) ! j) = []"
    using assms(3) by (auto simp: conn_state_def conn_fits_simps)
  show ?thesis
    by (rule that[OF j])
      (use j assms(2) in \<open>simp add: connection_accept_def queue_async_pop_def wake_connection_def Let_def\<close>)
qed

lemma routes_connection_accept:
  assumes "routes s" and "k < length (connections s)" and "c_pc (connections s ! k) = Accepting"
    and "connection_accept b k s = Inr s'"
  shows "routes s'"
proof -
  obtain j where j: "c_queue (connections s ! k) = Some j" "j < length (queues (mgr s))"
    "c_pl (connections s ! k) = None" "queue_entries (queues (mgr s) ! j) = []"
    and eq: "connection_accept b k s =
      (if items (queues (mgr s) ! j) = []
       then Inr (s\<lparr>mgr := (mgr s)\<lparr>queues := (queues (mgr s))[j :=
                     (queues (mgr s) ! j)\<lparr>queue_entries := [\<lparr>q_event = k, q_item = ()\<rparr>]\<rparr>]\<rparr>,
                   connections := (connections s)[k :=
                     (connections s ! k)\<lparr>c_signalled := False, c_pc := Waiting\<rparr>]\<rparr>)
       else Inr (s\<lparr>mgr := (mgr s)\<lparr>queues := (queues (mgr s))[j :=
                     (queues (mgr s) ! j)\<lparr>items := butlast (items (queues (mgr s) ! j))\<rparr>]\<rparr>,
                   connections := (connections s)[k :=
                     (connections s ! k)\<lparr>c_pc := Waiting,
                       c_pl := Some (last (items (queues (mgr s) ! j))), c_signalled := True\<rparr>]\<rparr>))"
    by (rule connection_accept_eq[OF assms(1-3), of b])
  show ?thesis
  proof (cases "items (queues (mgr s) ! j) = []")
    case True
    let ?c = "(connections s ! k)\<lparr>c_signalled := False, c_pc := Waiting\<rparr>"
    let ?q = "(queues (mgr s) ! j)\<lparr>queue_entries := [\<lparr>q_event = k, q_item = ()\<rparr>]\<rparr>"
    have "conn_fits k ?c ?q" using True j by (simp add: conn_fits_simps)
    then show ?thesis
      using True assms(4) eq j(1)
      by (intro routes_set_queue[OF assms(1) j(2) assms(2) j(1), of ?c ?q]) auto
  next
    case False
    let ?c = "(connections s ! k)\<lparr>c_pc := Waiting,
                c_pl := Some (last (items (queues (mgr s) ! j))), c_signalled := True\<rparr>"
    let ?q = "(queues (mgr s) ! j)\<lparr>items := butlast (items (queues (mgr s) ! j))\<rparr>"
    have "conn_fits k ?c ?q" using j by (simp add: conn_fits_simps)
    then show ?thesis
      using False assms(4) eq j(1)
      by (intro routes_set_queue[OF assms(1) j(2) assms(2) j(1), of ?c ?q]) auto
  qed
qed

lemma connection_wakes_eq:
  assumes "routes s" and "k < length (connections s)"
    and "c_pc (connections s ! k) = Waiting" and "c_signalled (connections s ! k)"
  obtains r j where "c_pl (connections s ! k) = Some r" and "c_queue (connections s ! k) = Some j"
    and "j < length (queues (mgr s))" and "queue_entries (queues (mgr s) ! j) = []"
    and "connection_wakes k s = Inr (s\<lparr>connections := (connections s)[k :=
           (connections s ! k)\<lparr>c_pl := None, c_pc := Accepting\<rparr>], spawned := spawned s @ [r]\<rparr>)"
proof -
  have "conn_state (queues (mgr s)) k (connections s ! k)" using assms by (simp add: routes_def)
  then show ?thesis
    using assms(3,4) that by (auto simp: conn_state_def conn_fits_simps connection_wakes_def Let_def)
qed

lemma routes_connection_wakes:
  assumes "routes s" and "k < length (connections s)"
    and "c_pc (connections s ! k) = Waiting" and "c_signalled (connections s ! k)"
    and "connection_wakes k s = Inr s'"
  shows "routes s'"
proof -
  obtain r j where j: "c_queue (connections s ! k) = Some j" "j < length (queues (mgr s))"
    and q: "queue_entries (queues (mgr s) ! j) = []"
    and eq: "connection_wakes k s = Inr (s\<lparr>connections := (connections s)[k :=
           (connections s ! k)\<lparr>c_pl := None, c_pc := Accepting\<rparr>], spawned := spawned s @ [r]\<rparr>)"
    by (rule connection_wakes_eq[OF assms(1-4)])
  let ?c = "(connections s ! k)\<lparr>c_pl := None, c_pc := Accepting\<rparr>"
  have "conn_fits k ?c (queues (mgr s) ! j)" using q by (simp add: conn_fits_simps)
  then show ?thesis
    using assms(5) eq j(1)
    by (intro routes_set_queue[OF assms(1) j(2) assms(2) j(1), of ?c "queues (mgr s) ! j"]) auto
qed

section \<open>Where every request is\<close>

definition held_request :: "server_connection \<Rightarrow> request list" where
  "held_request c = (case c_pl c of None \<Rightarrow> [] | Some r \<Rightarrow> [r])"

lemma held_request_simps [simp]:
  "c_pl c = None \<Longrightarrow> held_request c = []" "c_pl c = Some r \<Longrightarrow> held_request c = [r]"
  by (simp_all add: held_request_def)

text \<open>The requests without a reply: in a queue, held by a connection, or with a handler.\<close>

definition pending :: "'u server \<Rightarrow> request multiset" where
  "pending s =
     mset (concat (map items (queues (mgr s)))) +
     mset (concat (map held_request (connections s))) + mset (spawned s)"

definition answers ::
    "build \<Rightarrow> 's absl_api \<Rightarrow> request_header codec \<Rightarrow> reply_header codec \<Rightarrow> ('s, 'u) service list \<Rightarrow>
     IFabricTransportMessage option \<Rightarrow> request_context \<Rightarrow> bool" where
  "answers b A Q R svcs msg ctx \<longleftrightarrow>
     (\<exists>st reply st'. middleware_execute b A Q R svcs msg st = Inr (reply, st') \<and>
        ac_content ctx = \<lparr>cc_hr = Some S_OK, reply_msg = Some reply\<rparr>)"

definition work_inv ::
    "build \<Rightarrow> 's absl_api \<Rightarrow> request_header codec \<Rightarrow> reply_header codec \<Rightarrow> ('s, 'u) service list \<Rightarrow>
     'u server \<Rightarrow> bool" where
  "work_inv b A Q R svcs s \<longleftrightarrow>
     length (posted s) = length (contexts s) \<and>
     (\<forall>n < length (posted s). rq_ctx (posted s ! n) = n \<and>
        (\<exists>m. rq_msg (posted s ! n) = Some m \<and> wf_msg m)) \<and>
     (\<forall>n \<in> set (notifications s). n < length (posted s)) \<and>
     pending s + mset (map ((!) (posted s)) (notifications s)) = mset (posted s) \<and>
     (\<forall>n < length (contexts s). is_completed (contexts s ! n) \<longleftrightarrow> n \<in> set (notifications s)) \<and>
     (\<forall>n \<in> set (notifications s). answers b A Q R svcs (rq_msg (posted s ! n)) (contexts s ! n))"

lemma work_inv_new: "work_inv b A Q R svcs (new_server u)"
  by (simp add: work_inv_def new_server_def pending_def mk_connection_manager_def)

text \<open>Moves between the places leave the invariant alone.\<close>

lemma work_inv_move:
  assumes "work_inv b A Q R svcs s" and "pending s' = pending s" and "posted s' = posted s"
    and "contexts s' = contexts s" and "notifications s' = notifications s"
  shows "work_inv b A Q R svcs s'"
  using assms unfolding work_inv_def by metis

lemma mset_concat_update:
  assumes "i < length xs"
  shows "mset (concat (map f (xs[i := y]))) + mset (f (xs ! i)) = mset (concat (map f xs)) + mset (f y)"
  using assms
proof (induction xs arbitrary: i)
  case (Cons x xs)
  then show ?case by (cases i) (simp_all add: ac_simps)
qed simp

text \<open>Every posted request is pending or answered, and not both.\<close>

lemma work_inv_pending:
  assumes "work_inv b A Q R svcs s" and "r \<in># pending s"
  shows "rq_ctx r < length (contexts s)" and "posted s ! rq_ctx r = r"
    and "\<not> is_completed (contexts s ! rq_ctx r)" and "\<exists>m. rq_msg r = Some m \<and> wf_msg m"
proof -
  have eq: "pending s + mset (map ((!) (posted s)) (notifications s)) = mset (posted s)"
    and ctx: "\<And>n. n < length (posted s) \<Longrightarrow> rq_ctx (posted s ! n) = n \<and>
      (\<exists>m. rq_msg (posted s ! n) = Some m \<and> wf_msg m)"
    and len: "length (posted s) = length (contexts s)"
    using assms(1) by (simp_all add: work_inv_def)
  have "r \<in> set (posted s)" using assms(2) eq by (metis set_mset_mset union_iff)
  then obtain n where n: "n < length (posted s)" "posted s ! n = r" by (auto simp: in_set_conv_nth)
  then show r: "rq_ctx r < length (contexts s)" and p: "posted s ! rq_ctx r = r"
    and "\<exists>m. rq_msg r = Some m \<and> wf_msg m"
    using ctx[of n] len by auto
  have "map rq_ctx (posted s) = [0..<length (posted s)]"
    using ctx by (intro nth_equalityI) simp_all
  then have "distinct (posted s)" by (metis distinct_map distinct_upt)
  then have "count (mset (posted s)) r \<le> 1" by (simp add: distinct_count_atmost_1)
  moreover have "count (pending s) r \<ge> 1" using assms(2) by simp
  moreover have "count (pending s) r + count (mset (map ((!) (posted s)) (notifications s))) r =
      count (mset (posted s)) r" by (metis count_union eq)
  ultimately have "count (mset (map ((!) (posted s)) (notifications s))) r = 0" by linarith
  then have "r \<notin> set (map ((!) (posted s)) (notifications s))" by (metis count_mset_0_iff)
  then have "rq_ctx r \<notin> set (notifications s)" using p by force
  then show "\<not> is_completed (contexts s ! rq_ctx r)"
    using assms(1) r by (simp add: work_inv_def)
qed

lemma work_inv_connect:
  assumes "work_inv b A Q R svcs s" and "transport_connect b i s = Inr s'"
  shows "work_inv b A Q R svcs s'"
  using assms(2)
  by (intro work_inv_move[OF assms(1)])
    (auto simp: transport_connect_eq pending_def add_conn_eq mk_item_queue_def)

lemma work_inv_disconnect:
  assumes "work_inv b A Q R svcs s" and "transport_disconnect b i s = Inr s'"
  shows "work_inv b A Q R svcs s'"
  using assms(2)
  by (intro work_inv_move[OF assms(1)])
    (auto simp: transport_disconnect_def BeginProcessDisconnect_def disconnect_def pending_def
      ebind_Inr_iff split: option.splits)

lemma work_inv_listener_accept:
  assumes "work_inv b A Q R svcs s"
  shows "work_inv b A Q R svcs (listener_accept s)"
  by (intro work_inv_move[OF assms])
    (simp_all add: listener_accept_def mgr_async_pop_def pending_def Let_def split: prod.splits)

lemma work_inv_listener_wakes:
  assumes "work_inv b A Q R svcs s" and "listener_wakes b s = Inr s'"
  shows "work_inv b A Q R svcs s'"
  using assms(2)
  by (intro work_inv_move[OF assms(1)])
    (auto simp: listener_wakes_def pending_def ebind_Inr_iff deref_Inr_iff)

lemma work_inv_connection_accept:
  assumes "routes s" and "work_inv b A Q R svcs s"
    and "k < length (connections s)" and "c_pc (connections s ! k) = Accepting"
    and "connection_accept b k s = Inr s'"
  shows "work_inv b A Q R svcs s'"
proof (rule connection_accept_eq[OF assms(1,3,4), of b])
  fix j
  let ?q = "queues (mgr s) ! j" and ?c = "connections s ! k"
  assume j: "j < length (queues (mgr s))" "c_pl ?c = None"
    and eq: "connection_accept b k s =
      (if items ?q = []
       then Inr (s\<lparr>mgr := (mgr s)\<lparr>queues := (queues (mgr s))[j :=
                     ?q\<lparr>queue_entries := [\<lparr>q_event = k, q_item = ()\<rparr>]\<rparr>]\<rparr>,
                   connections := (connections s)[k := ?c\<lparr>c_signalled := False, c_pc := Waiting\<rparr>]\<rparr>)
       else Inr (s\<lparr>mgr := (mgr s)\<lparr>queues := (queues (mgr s))[j := ?q\<lparr>items := butlast (items ?q)\<rparr>]\<rparr>,
                   connections := (connections s)[k := ?c\<lparr>c_pc := Waiting,
                       c_pl := Some (last (items ?q)), c_signalled := True\<rparr>]\<rparr>))"
  note Q = mset_concat_update[OF j(1), of items] and C = mset_concat_update[OF assms(3), of held_request]
  show ?thesis
  proof (cases "items ?q = []")
    case True
    then have s': "s' = s\<lparr>mgr := (mgr s)\<lparr>queues := (queues (mgr s))[j :=
                     ?q\<lparr>queue_entries := [\<lparr>q_event = k, q_item = ()\<rparr>]\<rparr>]\<rparr>,
                   connections := (connections s)[k := ?c\<lparr>c_signalled := False, c_pc := Waiting\<rparr>]\<rparr>"
      using eq assms(5) by simp
    then have "pending s' = pending s"
      using True j(2) Q[of "?q\<lparr>queue_entries := [\<lparr>q_event = k, q_item = ()\<rparr>]\<rparr>"]
        C[of "?c\<lparr>c_signalled := False, c_pc := Waiting\<rparr>"]
      by (simp add: pending_def held_request_def)
    then show ?thesis using s' by (intro work_inv_move[OF assms(2)]) simp_all
  next
    case False
    define qs where "qs = (queues (mgr s))[j := ?q\<lparr>items := butlast (items ?q)\<rparr>]"
    define cs where "cs = (connections s)[k := ?c\<lparr>c_pc := Waiting,
                       c_pl := Some (last (items ?q)), c_signalled := True\<rparr>]"
    have s': "s' = s\<lparr>mgr := (mgr s)\<lparr>queues := qs\<rparr>, connections := cs\<rparr>"
      using False eq assms(5) by (simp add: qs_def cs_def)
    have "mset (concat (map items (queues (mgr s)))) =
        mset (concat (map items qs)) + {#last (items ?q)#}"
      using Q[of "?q\<lparr>items := butlast (items ?q)\<rparr>"] mset_butlast[OF False] by (simp add: qs_def)
    moreover have "mset (concat (map held_request cs)) =
        mset (concat (map held_request (connections s))) + {#last (items ?q)#}"
      using C[of "?c\<lparr>c_pc := Waiting, c_pl := Some (last (items ?q)), c_signalled := True\<rparr>"] j(2)
      by (simp add: held_request_def cs_def)
    ultimately have "pending s' = pending s"
      by (simp add: pending_def s')
    then show ?thesis using s' by (intro work_inv_move[OF assms(2)]) simp_all
  qed
qed

lemma work_inv_connection_wakes:
  assumes "routes s" and "work_inv b A Q R svcs s" and "k < length (connections s)"
    and "c_pc (connections s ! k) = Waiting" and "c_signalled (connections s ! k)"
    and "connection_wakes k s = Inr s'"
  shows "work_inv b A Q R svcs s'"
proof -
  let ?c = "connections s ! k"
  obtain r j where r: "c_pl ?c = Some r"
    and eq: "connection_wakes k s = Inr (s\<lparr>connections := (connections s)[k :=
           ?c\<lparr>c_pl := None, c_pc := Accepting\<rparr>], spawned := spawned s @ [r]\<rparr>)"
    by (rule connection_wakes_eq[OF assms(1,3-5)])
  have s': "s' = s\<lparr>connections := (connections s)[k := ?c\<lparr>c_pl := None, c_pc := Accepting\<rparr>],
      spawned := spawned s @ [r]\<rparr>" using eq assms(6) by simp
  have "pending s' = pending s"
    using mset_concat_update[OF assms(3), of held_request "?c\<lparr>c_pl := None, c_pc := Accepting\<rparr>"] r
    by (simp add: pending_def s' held_request_def ac_simps)
  then show ?thesis using s' by (intro work_inv_move[OF assms(2)]) simp_all
qed

lemma work_inv_request:
  assumes "routes s" and "work_inv b A Q R svcs s" and "conns (mgr s) i = Some e" and "wf_msg msg"
    and "transport_request b i msg s = Inr s'"
  shows "work_inv b A Q R svcs s'"
proof -
  let ?r = "\<lparr>conn_id = i, rq_msg = Some msg, rq_ctx = length (contexts s)\<rparr>"
  let ?j = "entry_queue e"
  let ?q = "queues (mgr s) ! ?j"
  have j: "?j < length (queues (mgr s))" using assms(1,3) by (simp add: routes_def manager_wf_def)
  have s': "s' = s\<lparr>mgr := (mgr s)\<lparr>queues := (queues (mgr s))[?j := fst (queue_push ?r ?q)]\<rparr>,
      contexts := contexts s @ [\<lparr>ac_content = new_content, is_completed = False\<rparr>],
      posted := posted s @ [?r],
      connections := wake_connection (snd (queue_push ?r ?q)) (connections s)\<rparr>"
    using assms(5) by (auto simp: transport_request_eq[OF assms(3)] Let_def split: prod.splits)
  have "pending s' = pending s + {#?r#}"
  proof (cases "queue_entries ?q = []")
    case True
    then have p: "queue_push ?r ?q = (?q\<lparr>items := items ?q @ [?r]\<rparr>, None)" by (simp add: queue_push_def)
    show ?thesis
      using mset_concat_update[OF j, of items "?q\<lparr>items := items ?q @ [?r]\<rparr>"]
      by (simp add: pending_def s' p wake_connection_def)
  next
    case False
    obtain k where k: "k < length (connections s)" "c_pl (connections s ! k) = None" "items ?q = []"
      "queue_entries ?q = [\<lparr>q_event = k, q_item = ()\<rparr>]"
      by (rule routes_parked[OF assms(1) j False])
    then have p: "queue_push ?r ?q = (?q\<lparr>queue_entries := []\<rparr>, Some (Handover k () ?r))"
      by (simp add: queue_push_def)
    show ?thesis
      using mset_concat_update[OF j, of items "?q\<lparr>queue_entries := []\<rparr>"] k(2,3)
        mset_concat_update[OF k(1), of held_request
          "(connections s ! k)\<lparr>c_pl := Some ?r, c_signalled := True\<rparr>"]
      by (simp add: pending_def s' p wake_connection_def held_request_def)
  qed
  moreover have "posted s' = posted s @ [?r]" "notifications s' = notifications s"
    "contexts s' = contexts s @ [\<lparr>ac_content = new_content, is_completed = False\<rparr>]"
    by (simp_all add: s')
  moreover have M: "map ((!) (posted s @ [?r])) (notifications s) = map ((!) (posted s)) (notifications s)"
    using assms(2) by (auto simp: work_inv_def nth_append)
  ultimately show ?thesis
    using assms(2,4)
    by (auto simp: work_inv_def nth_append less_Suc_eq M simp del: mset_map map_eq_conv)
qed

text \<open>What the handlers need of the libraries: the header of every status can be serialized.\<close>

definition replies_ready :: "'s absl_api \<Rightarrow> reply_header codec \<Rightarrow> bool" where
  "replies_ready A R \<longleftrightarrow> absl_laws A \<and> (\<forall>st. fst (SerializeToString R (status_header A st)))"

lemma middleware_execute_returns:
  assumes "replies_ready A R" and "wf_msg m"
  shows "\<exists>reply st'. middleware_execute b A Q R svcs (Some m) st = Inr (reply, st')"
proof -
  obtain ec resp st' where "middleware_execute_inner A Q svcs (Some m) '''' st = Inr ((ec, resp), st')"
    using returns_pair[OF middleware_execute_inner_returns[OF assms(2), of A Q svcs "''''" st]] by blast
  moreover have "fst (SerializeToString R (status_header A ec))" using assms(1) by (simp add: replies_ready_def)
  then obtain hdr where "SerializeToString R (status_header A ec) = (True, hdr)"
    by (cases "SerializeToString R (status_header A ec)") auto
  then have "serialize_reply_header A R ec (Some '''') = (OkStatus A, Some hdr)"
    by (simp add: serialize_reply_header_def serialize_proto_payload_def status_header_def)
  ultimately show ?thesis
    using assms(1) absl_OkStatus[of A] by (simp add: middleware_execute_def replies_ready_def)
qed

lemma handle_request_eq:
  assumes "work_inv b A Q R svcs s" and "i < length (spawned s)" and "replies_ready A R"
  obtains reply u where
    "middleware_execute b A Q R svcs (rq_msg (spawned s ! i)) (services s) = Inr (reply, u)"
    and "handle_request b A Q R svcs i s = Inr (s\<lparr>spawned := take i (spawned s) @ drop (Suc i) (spawned s),
      contexts := (contexts s)[rq_ctx (spawned s ! i) :=
        \<lparr>ac_content = \<lparr>cc_hr = Some S_OK, reply_msg = Some reply\<rparr>, is_completed = True\<rparr>],
      services := u, notifications := notifications s @ [rq_ctx (spawned s ! i)]\<rparr>)"
proof -
  let ?r = "spawned s ! i"
  have "?r \<in># pending s" using assms(2) by (simp add: pending_def)
  note p = work_inv_pending[OF assms(1) this]
  obtain m where m: "rq_msg ?r = Some m" "wf_msg m" using p(4) by blast
  obtain reply u where "middleware_execute b A Q R svcs (Some m) (services s) = Inr (reply, u)"
    using middleware_execute_returns[OF assms(3) m(2), of b Q svcs "services s"] by blast
  then show ?thesis
    using p(3) m(1) by (intro that) (simp_all add: handle_request_def get_request_msg_def request_complete_first Let_def)
qed

lemma mset_remove_nth: "i < length xs \<Longrightarrow> mset xs = mset (take i xs @ drop (Suc i) xs) + {#xs ! i#}"
  by (metis (no_types, lifting) add_mset_add_single id_take_nth_drop mset_append mset.simps(2)
      union_mset_add_mset_right)

lemma work_inv_handle:
  assumes "work_inv b A Q R svcs s" and "i < length (spawned s)" and "replies_ready A R"
    and "handle_request b A Q R svcs i s = Inr s'"
  shows "work_inv b A Q R svcs s'"
proof -
  let ?r = "spawned s ! i"
  have "?r \<in># pending s" using assms(2) by (simp add: pending_def)
  note p = work_inv_pending[OF assms(1) this]
  obtain reply u where m: "middleware_execute b A Q R svcs (rq_msg ?r) (services s) = Inr (reply, u)"
    and eq: "handle_request b A Q R svcs i s = Inr (s\<lparr>spawned := take i (spawned s) @ drop (Suc i) (spawned s),
      contexts := (contexts s)[rq_ctx ?r :=
        \<lparr>ac_content = \<lparr>cc_hr = Some S_OK, reply_msg = Some reply\<rparr>, is_completed = True\<rparr>],
      services := u, notifications := notifications s @ [rq_ctx ?r]\<rparr>)"
    by (rule handle_request_eq[OF assms(1-3)])
  have s': "s' = s\<lparr>spawned := take i (spawned s) @ drop (Suc i) (spawned s),
      contexts := (contexts s)[rq_ctx ?r :=
        \<lparr>ac_content = \<lparr>cc_hr = Some S_OK, reply_msg = Some reply\<rparr>, is_completed = True\<rparr>],
      services := u, notifications := notifications s @ [rq_ctx ?r]\<rparr>"
    using eq assms(4) by simp
  have "pending s = pending s' + {#?r#}"
    using mset_remove_nth[OF assms(2)] by (simp add: pending_def s')
  moreover have "answers b A Q R svcs (rq_msg ?r) (contexts s' ! rq_ctx ?r)"
    unfolding answers_def using m p(1) by (intro exI[of _ "services s"] exI[of _ reply] exI[of _ u]) (simp add: s')
  ultimately show ?thesis
    using assms(1) p(1,2)
    by (auto simp: work_inv_def s' nth_list_update add_mset_commute)
qed

section \<open>Every step keeps the invariants and returns\<close>

definition server_inv ::
    "build \<Rightarrow> 's absl_api \<Rightarrow> request_header codec \<Rightarrow> reply_header codec \<Rightarrow> ('s, 'u) service list \<Rightarrow>
     'u server exec \<Rightarrow> bool" where
  "server_inv b A Q R svcs r \<longleftrightarrow> (\<exists>s. r = Inr s \<and> routes s \<and> work_inv b A Q R svcs s)"

lemma routes_handle:
  assumes "routes s" and "handle_request b A Q R svcs i s = Inr s'"
  shows "routes s'"
  using assms
  by (auto simp: handle_request_def Let_def ebind_Inr_iff routes_def queue_refs_def split: prod.splits)

lemma internal_step_inv:
  assumes "internal_step b A Q R svcs s r" and "routes s" and "work_inv b A Q R svcs s"
    and "replies_ready A R"
  shows "server_inv b A Q R svcs r"
  using assms(1)
proof (cases rule: internal_step.cases)
  case accept_conn
  then show ?thesis
    using routes_listener_accept assms work_inv_listener_accept by (auto simp: server_inv_def)
next
  case accepted_conn
  then obtain s' where "r = Inr s'" using listener_wakes_eq[OF assms(2), of b] by metis
  then show ?thesis
    using accepted_conn routes_listener_wakes[OF assms(2)] work_inv_listener_wakes[OF assms(3)]
    by (auto simp: server_inv_def)
next
  case (accept_request k)
  then obtain s' where "connection_accept b k s = Inr s'"
    using connection_accept_eq[OF assms(2), of k b] by metis
  then show ?thesis
    using accept_request routes_connection_accept[OF assms(2)] work_inv_connection_accept[OF assms(2,3)]
    by (auto simp: server_inv_def)
next
  case (accepted_request k)
  then obtain s' where "connection_wakes k s = Inr s'"
    using connection_wakes_eq[OF assms(2), of k] by metis
  then show ?thesis
    using accepted_request routes_connection_wakes[OF assms(2)] work_inv_connection_wakes[OF assms(2,3)]
    by (auto simp: server_inv_def)
next
  case (handler_runs i)
  then obtain s' where "handle_request b A Q R svcs i s = Inr s'"
    using handle_request_eq[OF assms(3) _ assms(4), of i] by metis
  then show ?thesis
    using handler_runs routes_handle[OF assms(2)] work_inv_handle[OF assms(3) _ assms(4)]
    by (auto simp: server_inv_def)
qed

lemma transport_step_inv:
  assumes "transport_step b s r" and "routes s" and "work_inv b A Q R svcs s"
  shows "server_inv b A Q R svcs r"
  using assms(1)
proof (cases rule: transport_step.cases)
  case (connect client)
  then show ?thesis
    using routes_connect[OF assms(2)] work_inv_connect[OF assms(3)]
    by (auto simp: server_inv_def transport_connect_eq)
next
  case (disconnects client)
  then have "\<exists>s'. r = Inr s'"
    by (auto simp: transport_disconnect_def BeginProcessDisconnect_def disconnect_def mk_any_context_def
        any_context_complete_def)
  then show ?thesis
    using disconnects routes_disconnect[OF assms(2)] work_inv_disconnect[OF assms(3)]
    by (auto simp: server_inv_def)
next
  case (request client message)
  then obtain e where e: "conns (mgr s) client = Some e" by auto
  then have "\<exists>s'. transport_request b client message s = Inr s'"
    by (simp add: transport_request_eq[OF e] Let_def split: prod.splits)
  then show ?thesis
    using request routes_request[OF assms(2) e] work_inv_request[OF assms(2,3) e]
    by (auto simp: server_inv_def)
qed

lemma server_reachable_inv:
  assumes "server_reachable b A Q R svcs u r" and "replies_ready A R"
  shows "server_inv b A Q R svcs r"
  using assms(1)
proof (induction rule: server_reachable.induct)
  case fresh
  then show ?case by (auto simp: server_inv_def routes_new work_inv_new)
next
  case (internal s r)
  then show ?case using internal_step_inv[OF _ _ _ assms(2)] by (auto simp: server_inv_def)
next
  case (transport s r)
  then show ?case using transport_step_inv by (fastforce simp: server_inv_def)
qed

section \<open>The server's thread runs out of work\<close>

text \<open>What is left to do: three for an entry or a request that still has to be accepted.\<close>

definition conn_load :: "server_connection \<Rightarrow> nat" where
  "conn_load c = (if c_pc c = Accepting then 1 else 0) + 3 * length (held_request c)"

definition load :: "'u server \<Rightarrow> nat" where
  "load s =
     3 * length (items (conn_queue (mgr s))) + 3 * length (held_entry (listener s)) +
     (if l_pc (listener s) = Accepting then 1 else 0) +
     sum_list (map (\<lambda>q. 3 * length (items q)) (queues (mgr s))) +
     sum_list (map conn_load (connections s)) + length (spawned s)"

lemma sum_list_update_nat:
  fixes f :: "'a \<Rightarrow> nat"
  assumes "i < length xs"
  shows "sum_list (map f (xs[i := y])) + f (xs ! i) = sum_list (map f xs) + f y"
  using assms
proof (induction xs arbitrary: i)
  case (Cons x xs)
  then show ?case by (cases i) simp_all
qed simp

lemma load_listener_accept:
  assumes "routes s" and "l_pc (listener s) = Accepting"
  shows "load (listener_accept s) < load s"
proof -
  have "queue_entries (conn_queue (mgr s)) = []" using assms by (simp add: routes_def listener_state_def)
  then show ?thesis
    using assms(2)
    by (cases "length (items (conn_queue (mgr s)))"; cases "items (conn_queue (mgr s)) = []")
      (simp_all add: load_def listener_accept_def mgr_async_pop_def queue_async_pop_def wake_listener_def
        held_entry_def Let_def)
qed

lemma load_connection_accept:
  assumes "routes s" and "k < length (connections s)" and "c_pc (connections s ! k) = Accepting"
    and "connection_accept b k s = Inr s'"
  shows "load s' < load s"
proof (rule connection_accept_eq[OF assms(1-3), of b])
  fix j
  let ?q = "queues (mgr s) ! j" and ?c = "connections s ! k"
  assume j: "j < length (queues (mgr s))" "c_pl ?c = None"
    and eq: "connection_accept b k s =
      (if items ?q = []
       then Inr (s\<lparr>mgr := (mgr s)\<lparr>queues := (queues (mgr s))[j :=
                     ?q\<lparr>queue_entries := [\<lparr>q_event = k, q_item = ()\<rparr>]\<rparr>]\<rparr>,
                   connections := (connections s)[k := ?c\<lparr>c_signalled := False, c_pc := Waiting\<rparr>]\<rparr>)
       else Inr (s\<lparr>mgr := (mgr s)\<lparr>queues := (queues (mgr s))[j := ?q\<lparr>items := butlast (items ?q)\<rparr>]\<rparr>,
                   connections := (connections s)[k := ?c\<lparr>c_pc := Waiting,
                       c_pl := Some (last (items ?q)), c_signalled := True\<rparr>]\<rparr>))"
  note C = sum_list_update_nat[OF assms(2), of conn_load]
    and Q = sum_list_update_nat[OF j(1), of "\<lambda>q. 3 * length (items q)"]
  show ?thesis
  proof (cases "items ?q = []")
    case True
    then show ?thesis
      using C[of "?c\<lparr>c_signalled := False, c_pc := Waiting\<rparr>"] eq assms(3,4) j
        Q[of "?q\<lparr>queue_entries := [\<lparr>q_event = k, q_item = ()\<rparr>]\<rparr>"]
      by (auto simp: load_def conn_load_def held_request_def)
  next
    case False
    then obtain n where "length (items ?q) = Suc n" by (cases "length (items ?q)") auto
    then show ?thesis
      using C[of "?c\<lparr>c_pc := Waiting, c_pl := Some (last (items ?q)), c_signalled := True\<rparr>"] eq assms(3,4) j
        Q[of "?q\<lparr>items := butlast (items ?q)\<rparr>"] False
      by (auto simp: load_def conn_load_def held_request_def)
  qed
qed

lemma internal_step_load:
  assumes "internal_step b A Q R svcs s (Inr s')" and "routes s" and "work_inv b A Q R svcs s"
    and "replies_ready A R"
  shows "load s' < load s"
  using assms(1)
proof (cases rule: internal_step.cases)
  case accept_conn
  then show ?thesis using load_listener_accept[OF assms(2)] by simp
next
  case accepted_conn
  obtain e where e: "entry_holder (listener s) = Some e"
    and w: "listener_wakes b s = Inr (s\<lparr>connections := connections s @
        [\<lparr>c_queue = Some (entry_queue e), c_pc = Accepting, c_signalled = False, c_pl = None\<rparr>],
      listener := (listener s)\<lparr>l_pc := Accepting\<rparr>\<rparr>)"
    by (rule listener_wakes_eq[OF assms(2) accepted_conn(2,3)])
  have "s' = s\<lparr>connections := connections s @
        [\<lparr>c_queue = Some (entry_queue e), c_pc = Accepting, c_signalled = False, c_pl = None\<rparr>],
      listener := (listener s)\<lparr>l_pc := Accepting\<rparr>\<rparr>" using w accepted_conn(1) by simp
  then show ?thesis
    using e accepted_conn(2,3) by (simp add: load_def held_entry_def conn_load_def)
next
  case (accept_request k)
  then show ?thesis using load_connection_accept[OF assms(2)] by simp
next
  case (accepted_request k)
  let ?c = "(connections s ! k)\<lparr>c_pl := None, c_pc := Accepting\<rparr>"
  obtain r where r: "c_pl (connections s ! k) = Some r"
    and eq: "connection_wakes k s = Inr (s\<lparr>connections := (connections s)[k := ?c], spawned := spawned s @ [r]\<rparr>)"
    using connection_wakes_eq[OF assms(2) accepted_request(2-4)] by metis
  have "s' = s\<lparr>connections := (connections s)[k := ?c], spawned := spawned s @ [r]\<rparr>"
    using eq accepted_request(1) by simp
  then show ?thesis
    using sum_list_update_nat[OF accepted_request(2), of conn_load ?c] r accepted_request(3)
    by (simp add: load_def conn_load_def held_request_def)
next
  case (handler_runs i)
  obtain reply u where
    "handle_request b A Q R svcs i s = Inr (s\<lparr>spawned := take i (spawned s) @ drop (Suc i) (spawned s),
      contexts := (contexts s)[rq_ctx (spawned s ! i) :=
        \<lparr>ac_content = \<lparr>cc_hr = Some S_OK, reply_msg = Some reply\<rparr>, is_completed = True\<rparr>],
      services := u, notifications := notifications s @ [rq_ctx (spawned s ! i)]\<rparr>)"
    by (rule handle_request_eq[OF assms(3) handler_runs(2) assms(4)])
  then have "s' = s\<lparr>spawned := take i (spawned s) @ drop (Suc i) (spawned s),
      contexts := (contexts s)[rq_ctx (spawned s ! i) :=
        \<lparr>ac_content = \<lparr>cc_hr = Some S_OK, reply_msg = Some reply\<rparr>, is_completed = True\<rparr>],
      services := u, notifications := notifications s @ [rq_ctx (spawned s ! i)]\<rparr>"
    using handler_runs(1) by simp
  then show ?thesis using handler_runs(2) by (simp add: load_def)
qed

lemma internal_steps_inv:
  assumes "((\<lambda>s s'. internal_step b A Q R svcs s (Inr s')) ^^ n) s s'"
    and "routes s" and "work_inv b A Q R svcs s" and "replies_ready A R"
  shows "routes s' \<and> work_inv b A Q R svcs s' \<and> n + load s' \<le> load s"
  using assms(1)
proof (induction n arbitrary: s')
  case 0
  then show ?case using assms(2,3) by simp
next
  case (Suc n)
  then obtain s1 where s1: "((\<lambda>s s'. internal_step b A Q R svcs s (Inr s')) ^^ n) s s1"
    and st: "internal_step b A Q R svcs s1 (Inr s')" by auto
  note IH = Suc.IH[OF s1]
  have "server_inv b A Q R svcs (Inr s')" using internal_step_inv[OF st _ _ assms(4)] IH by simp
  moreover have "load s' < load s1" using internal_step_load[OF st _ _ assms(4)] IH by simp
  ultimately show ?case using IH by (auto simp: server_inv_def)
qed

text \<open>When the server's thread has nothing left to do, no request is pending.\<close>

lemma quiescent_connection:
  assumes "routes s" and "\<forall>r. \<not> internal_step b A Q R svcs s r" and "k < length (connections s)"
    and "c_queue (connections s ! k) = Some j"
  shows "c_pl (connections s ! k) = None" and "items (queues (mgr s) ! j) = []"
proof -
  have "c_pc (connections s ! k) \<noteq> Accepting" using assms(2,3) internal_step.accept_request by metis
  then have w: "c_pc (connections s ! k) = Waiting" by (cases "c_pc (connections s ! k)") simp_all
  then have "\<not> c_signalled (connections s ! k)"
    using assms(2,3) internal_step.accepted_request by metis
  moreover have "conn_state (queues (mgr s)) k (connections s ! k)" using assms(1,3) by (simp add: routes_def)
  ultimately show "c_pl (connections s ! k) = None" and "items (queues (mgr s) ! j) = []"
    using w assms(4) by (auto simp: conn_state_def conn_fits_simps)
qed

lemma quiescent_no_pending:
  assumes "routes s" and "\<forall>r. \<not> internal_step b A Q R svcs s r"
  shows "pending s = {#}"
proof -
  have "l_pc (listener s) \<noteq> Accepting" using assms(2) internal_step.accept_conn by metis
  then have w: "l_pc (listener s) = Waiting" by (cases "l_pc (listener s)") simp_all
  then have ns: "\<not> l_signalled (listener s)" using assms(2) internal_step.accepted_conn by metis
  have "listener_state (conn_queue (mgr s)) (listener s)" using assms(1) by (simp add: routes_def)
  then have "items (conn_queue (mgr s)) = []" using w ns by (simp add: listener_state_def)
  then have refs: "mset (map (\<lambda>c. the (c_queue c)) (connections s)) = mset [0..<length (queues (mgr s))]"
    using assms(1) ns by (simp add: routes_def queue_refs_def held_entry_def)
  have "items (queues (mgr s) ! j) = []" if j: "j < length (queues (mgr s))" for j
  proof -
    have "j \<in> set (map (\<lambda>c. the (c_queue c)) (connections s))"
      using j refs by (metis atLeastLessThan_iff atLeastLessThan_upt le0 mset_eq_setD)
    then obtain k where k: "k < length (connections s)" "the (c_queue (connections s ! k)) = j"
      by (auto simp: in_set_conv_nth)
    have "conn_state (queues (mgr s)) k (connections s ! k)" using assms(1) k by (simp add: routes_def)
    then have "c_queue (connections s ! k) = Some j" using k(2) by (auto simp: conn_state_def)
    then show ?thesis using quiescent_connection(2)[OF assms k(1)] by simp
  qed
  then have "\<forall>q \<in> set (queues (mgr s)). items q = []" by (metis in_set_conv_nth)
  then have 1: "concat (map items (queues (mgr s))) = []" by simp
  have "held_request (connections s ! k) = []" if k: "k < length (connections s)" for k
  proof -
    have "conn_state (queues (mgr s)) k (connections s ! k)" using assms(1) k by (simp add: routes_def)
    then obtain j where "c_queue (connections s ! k) = Some j" by (auto simp: conn_state_def)
    then show ?thesis using quiescent_connection(1)[OF assms k] by simp
  qed
  then have "\<forall>c \<in> set (connections s). held_request c = []" by (metis in_set_conv_nth)
  then have 2: "concat (map held_request (connections s)) = []" by simp
  have 3: "spawned s = []" using assms(2) internal_step.handler_runs by (metis length_greater_0_conv)
  show ?thesis by (simp only: pending_def 1 2 3) simp
qed

lemma answered_completely:
  assumes "work_inv b A Q R svcs s" and "pending s = {#}"
  shows "mset (notifications s) = mset [0..<length (contexts s)]"
proof -
  have ctx: "\<And>n. n < length (posted s) \<Longrightarrow> rq_ctx (posted s ! n) = n"
    using assms(1) unfolding work_inv_def by blast
  have len: "length (posted s) = length (contexts s)" using assms(1) unfolding work_inv_def by blast
  have bound: "\<And>n. n \<in> set (notifications s) \<Longrightarrow> n < length (posted s)"
    using assms(1) unfolding work_inv_def by blast
  have eq: "mset (map ((!) (posted s)) (notifications s)) = mset (posted s)"
    using assms unfolding work_inv_def by (simp only: empty_neutral)
  have "mset (map rq_ctx (map ((!) (posted s)) (notifications s))) = mset (map rq_ctx (posted s))"
    using eq by (metis mset_map)
  moreover have "map rq_ctx (map ((!) (posted s)) (notifications s)) = notifications s"
    using ctx bound by (simp add: map_idI)
  moreover have "map rq_ctx (posted s) = [0..<length (contexts s)]"
    using ctx len by (intro nth_equalityI) simp_all
  ultimately show ?thesis by (simp only:)
qed

text \<open>No context is completed twice.\<close>

lemma notifications_distinct:
  assumes "work_inv b A Q R svcs s"
  shows "distinct (notifications s)"
proof -
  have ctx: "\<And>n. n < length (posted s) \<Longrightarrow> rq_ctx (posted s ! n) = n"
    using assms unfolding work_inv_def by blast
  have eq: "pending s + mset (map ((!) (posted s)) (notifications s)) = mset (posted s)"
    using assms unfolding work_inv_def by blast
  have "map rq_ctx (posted s) = [0..<length (posted s)]"
    using ctx by (intro nth_equalityI) simp_all
  then have d: "distinct (posted s)" by (metis distinct_map distinct_upt)
  have le: "mset (map ((!) (posted s)) (notifications s)) \<subseteq># mset (posted s)"
    unfolding eq[symmetric] by (rule mset_subset_eq_add_right)
  have "count (mset (map ((!) (posted s)) (notifications s))) x \<le> 1" for x
  proof -
    have "count (mset (map ((!) (posted s)) (notifications s))) x \<le> count (mset (posted s)) x"
      using le by (rule mset_subset_eq_count)
    also have "\<dots> \<le> 1" using d by (simp add: distinct_count_atmost_1)
    finally show ?thesis .
  qed
  then have "distinct (map ((!) (posted s)) (notifications s))"
    by (metis (no_types, lifting) count_mset_0_iff distinct_count_atmost_1 le_neq_implies_less less_one)
  then show ?thesis by (simp only: distinct_map)
qed

lemma answered_reply:
  assumes "work_inv b A Q R svcs s" and "n \<in> set (notifications s)"
  obtains st reply st' where "middleware_execute b A Q R svcs (rq_msg (posted s ! n)) st = Inr (reply, st')"
    and "Msg_EndProcessRequest b' (contexts s ! n) = Inr (S_OK, Some reply)"
proof -
  have "answers b A Q R svcs (rq_msg (posted s ! n)) (contexts s ! n)"
    using assms unfolding work_inv_def by blast
  then show ?thesis
    using that by (auto simp: answers_def Msg_EndProcessRequest_def get_content_def)
qed

text \<open>Runs of the server's own thread, states in which it waits, and what is then the case.\<close>

definition server_runs ::
    "build \<Rightarrow> 's absl_api \<Rightarrow> request_header codec \<Rightarrow> reply_header codec \<Rightarrow> ('s, 'u) service list \<Rightarrow>
     nat \<Rightarrow> 'u server \<Rightarrow> 'u server \<Rightarrow> bool" where
  "server_runs b A Q R svcs n s s' \<longleftrightarrow> ((\<lambda>s s'. internal_step b A Q R svcs s (Inr s')) ^^ n) s s'"

definition server_idle ::
    "build \<Rightarrow> 's absl_api \<Rightarrow> request_header codec \<Rightarrow> reply_header codec \<Rightarrow> ('s, 'u) service list \<Rightarrow>
     'u server \<Rightarrow> bool" where
  "server_idle b A Q R svcs s \<longleftrightarrow> (\<forall>r. \<not> internal_step b A Q R svcs s r)"

definition all_answered ::
    "build \<Rightarrow> 's absl_api \<Rightarrow> request_header codec \<Rightarrow> reply_header codec \<Rightarrow> ('s, 'u) service list \<Rightarrow>
     'u server \<Rightarrow> bool" where
  "all_answered b A Q R svcs s \<longleftrightarrow>
     mset (notifications s) = mset [0..<length (contexts s)] \<and>
     length (contexts s) = length (posted s) \<and>
     (\<forall>c < length (contexts s). \<exists>st reply st'.
        middleware_execute b A Q R svcs (rq_msg (posted s ! c)) st = Inr (reply, st') \<and>
        Msg_EndProcessRequest b (contexts s ! c) = Inr (S_OK, Some reply))"

lemma idle_answered:
  assumes "routes s" and "work_inv b A Q R svcs s" and "server_idle b A Q R svcs s"
  shows "all_answered b A Q R svcs s"
  unfolding all_answered_def
proof (intro conjI allI impI)
  show "length (contexts s) = length (posted s)" using assms(2) by (simp add: work_inv_def)
  show all: "mset (notifications s) = mset [0..<length (contexts s)]"
    using answered_completely[OF assms(2) quiescent_no_pending[OF assms(1)]] assms(3)
    unfolding server_idle_def by blast
  fix c assume "c < length (contexts s)"
  then have "c \<in> set (notifications s)"
    using all by (metis atLeastLessThan_iff atLeastLessThan_upt le0 mset_eq_setD)
  then show "\<exists>st reply st'.
        middleware_execute b A Q R svcs (rq_msg (posted s ! c)) st = Inr (reply, st') \<and>
        Msg_EndProcessRequest b (contexts s ! c) = Inr (S_OK, Some reply)"
    using answered_reply[OF assms(2), of c b] by metis
qed

lemma server_drains:
  assumes "routes s" and "work_inv b A Q R svcs s" and "replies_ready A R"
  shows "\<exists>n s'. server_runs b A Q R svcs n s s' \<and> server_idle b A Q R svcs s'"
  using assms(1,2)
proof (induction "load s" arbitrary: s rule: less_induct)
  case less
  show ?case
  proof (cases "server_idle b A Q R svcs s")
    case True
    then show ?thesis by (intro exI[of _ 0] exI[of _ s]) (simp add: server_runs_def)
  next
    case False
    then obtain r where r: "internal_step b A Q R svcs s r" by (auto simp: server_idle_def)
    obtain s1 where s1: "r = Inr s1" "routes s1" "work_inv b A Q R svcs s1"
      using internal_step_inv[OF r less.prems assms(3)] by (auto simp: server_inv_def)
    have "load s1 < load s" using internal_step_load[OF r[unfolded s1(1)] less.prems assms(3)] .
    from less.hyps[OF this s1(2,3)] obtain n s' where
      "server_runs b A Q R svcs n s1 s'" "server_idle b A Q R svcs s'" by blast
    moreover have "server_runs b A Q R svcs (Suc n) s s'"
      using r[unfolded s1(1)] \<open>server_runs b A Q R svcs n s1 s'\<close>
      unfolding server_runs_def by (rule relpowp_Suc_I2)
    ultimately show ?thesis by blast
  qed
qed

end
