(* ===== verification/Server_Spec.thy ===== *)
theory Server_Spec
  imports Server Simulation
begin

text \<open>
  What the server of src/fabric_rpc2 promises, as an abstract machine: a bag of requests, from
  which one after the other is taken and answered.  The state machine of theory \<open>Server\<close>, with
  its queues, connections, events and coroutines, refines it: every step is a step of the machine
  or leaves it alone.  So whatever the threads do, the server behaves like a sequential one.
\<close>

section \<open>The abstract machine\<close>

type_synonym 'u serving = "IFabricTransportMessage option \<Rightarrow> 'u \<Rightarrow> (IFabricTransportMessage \<times> 'u) exec"

record 'u bag_machine =
  todo :: "request multiset"
  answer_log :: "(request \<times> IFabricTransportMessage) list"
  machine_state :: 'u

inductive machine_step :: "'u serving \<Rightarrow> 'u bag_machine \<Rightarrow> 'u bag_machine \<Rightarrow> bool"
  for serving :: "'u serving"
where
  asked: "machine_step serving a (a\<lparr>todo := todo a + {#r#}\<rparr>)"
| answered:
    "r \<in># todo a \<Longrightarrow> serving (rq_msg r) (machine_state a) = Inr (reply, u) \<Longrightarrow>
     machine_step serving a
       (a\<lparr>todo := todo a - {#r#}, answer_log := answer_log a @ [(r, reply)], machine_state := u\<rparr>)"

text \<open>Serving a list of messages one after the other.\<close>

fun serve_all ::
    "'u serving \<Rightarrow> IFabricTransportMessage option list \<Rightarrow> 'u \<Rightarrow> (IFabricTransportMessage list \<times> 'u) exec" where
  "serve_all serving [] u = Inr ([], u)"
| "serve_all serving (m # ms) u =
     ebind (serving m u) (\<lambda>(reply, u1).
     ebind (serve_all serving ms u1) (\<lambda>(replies, u2). Inr (reply # replies, u2)))"

lemma serve_all_snoc:
  assumes "serve_all serving ms u = Inr (replies, u1)" and "serving m u1 = Inr (reply, u2)"
  shows "serve_all serving (ms @ [m]) u = Inr (replies @ [reply], u2)"
  using assms
  by (induction ms arbitrary: u replies) (auto simp: ebind_Inr_iff split: prod.splits)

text \<open>The log of the machine is a sequential run from the state in which it started.\<close>

definition sequential :: "'u serving \<Rightarrow> 'u \<Rightarrow> 'u bag_machine \<Rightarrow> bool" where
  "sequential serving u a \<longleftrightarrow>
     serve_all serving (map (rq_msg \<circ> fst) (answer_log a)) u =
       Inr (map snd (answer_log a), machine_state a)"

lemma sequential_step:
  assumes "sequential serving u a" and "machine_step serving a a'"
  shows "sequential serving u a'"
  using assms(2,1)
proof (cases rule: machine_step.cases)
  case (answered r reply u')
  then show ?thesis
    using serve_all_snoc[of serving "map (rq_msg \<circ> fst) (answer_log a)" u "map snd (answer_log a)"
        "machine_state a" "rq_msg r" reply u'] assms(1)
    by (simp add: sequential_def)
qed (simp add: sequential_def)

section \<open>The server refines it\<close>

definition context_reply :: "request_context \<Rightarrow> IFabricTransportMessage" where
  "context_reply ctx = the (reply_msg (ac_content ctx))"

definition machine_of :: "'u server \<Rightarrow> 'u bag_machine" where
  "machine_of s =
     \<lparr>todo = pending s,
      answer_log = map (\<lambda>n. (posted s ! n, context_reply (contexts s ! n))) (notifications s),
      machine_state = services s\<rparr>"

lemma machine_of_new [simp]:
  "machine_of (new_server u) = \<lparr>todo = {#}, answer_log = [], machine_state = u\<rparr>"
  by (simp add: machine_of_def new_server_def pending_def mk_connection_manager_def)

text \<open>The multiset of pending requests follows from what has been posted and notified.\<close>

lemma pending_moves:
  assumes "work_inv b A Q R svcs s" and "work_inv b A Q R svcs s'"
    and "posted s' = posted s" and "notifications s' = notifications s"
  shows "pending s' = pending s"
proof -
  have "pending s' + mset (map ((!) (posted s)) (notifications s)) = mset (posted s)"
    using assms(2) unfolding work_inv_def assms(3,4) by blast
  moreover have "pending s + mset (map ((!) (posted s)) (notifications s)) = mset (posted s)"
    using assms(1) unfolding work_inv_def by blast
  ultimately show ?thesis by (metis add_right_cancel)
qed

lemma machine_of_moves:
  assumes "work_inv b A Q R svcs s" and "work_inv b A Q R svcs s'"
    and "posted s' = posted s" and "notifications s' = notifications s"
    and "contexts s' = contexts s" and "services s' = services s"
  shows "machine_of s' = machine_of s"
  using pending_moves[OF assms(1-4)] assms(3-6) by (simp add: machine_of_def)

text \<open>The steps that only move requests or connections.\<close>

lemma connection_accept_moves:
  assumes "connection_accept b k s = Inr s'"
  shows "posted s' = posted s" "notifications s' = notifications s" "contexts s' = contexts s"
    "services s' = services s"
  using assms by (auto simp: connection_accept_def ebind_Inr_iff Let_def case_prod_unfold)

lemma connection_wakes_moves:
  assumes "connection_wakes k s = Inr s'"
  shows "posted s' = posted s" "notifications s' = notifications s" "contexts s' = contexts s"
    "services s' = services s"
  using assms by (auto simp: connection_wakes_def ebind_Inr_iff Let_def)

lemma listener_wakes_moves:
  assumes "listener_wakes b s = Inr s'"
  shows "posted s' = posted s" "notifications s' = notifications s" "contexts s' = contexts s"
    "services s' = services s"
  using assms by (auto simp: listener_wakes_def ebind_Inr_iff Let_def)

lemma listener_accept_moves [simp]:
  "posted (listener_accept s) = posted s" "notifications (listener_accept s) = notifications s"
  "contexts (listener_accept s) = contexts s" "services (listener_accept s) = services s"
  by (simp_all add: listener_accept_def Let_def case_prod_unfold)

lemma transport_disconnect_moves:
  assumes "transport_disconnect b i s = Inr s'"
  shows "posted s' = posted s" "notifications s' = notifications s" "contexts s' = contexts s"
    "services s' = services s"
  using assms by (auto simp: transport_disconnect_def BeginProcessDisconnect_def ebind_Inr_iff)

text \<open>The two steps that the machine sees: a request is posted, a request is answered.\<close>

lemma machine_of_request:
  assumes "routes s" and "work_inv b A Q R svcs s" and "conns (mgr s) i = Some e" and "wf_msg msg"
    and "transport_request b i msg s = Inr s'"
  shows "machine_step serving (machine_of s) (machine_of s')"
proof -
  let ?r = "\<lparr>conn_id = i, rq_msg = Some msg, rq_ctx = length (contexts s)\<rparr>"
  note w = work_inv_request[OF assms(1-5)]
  have s': "posted s' = posted s @ [?r]" "notifications s' = notifications s" "services s' = services s"
    "contexts s' = contexts s @ [\<lparr>ac_content = new_content, is_completed = False\<rparr>]"
    using assms(5) by (auto simp: transport_request_eq[OF assms(3)] Let_def split: prod.splits)
  have len: "length (contexts s) = length (posted s)"
    and lt: "\<And>n. n \<in> set (notifications s) \<Longrightarrow> n < length (posted s)"
    and p: "pending s + mset (map ((!) (posted s)) (notifications s)) = mset (posted s)"
    using assms(2) unfolding work_inv_def by auto
  have "map ((!) (posted s')) (notifications s') = map ((!) (posted s)) (notifications s)"
    using lt by (simp add: s' nth_append)
  moreover have "pending s' + mset (map ((!) (posted s')) (notifications s')) = mset (posted s')"
    using w unfolding work_inv_def by blast
  ultimately have "pending s' + mset (map ((!) (posted s)) (notifications s)) = mset (posted s')"
    by (simp only:)
  also have "\<dots> = (pending s + {#?r#}) + mset (map ((!) (posted s)) (notifications s))"
    unfolding s'(1) p[symmetric] mset_append by simp
  finally have "pending s' + mset (map ((!) (posted s)) (notifications s)) =
      (pending s + {#?r#}) + mset (map ((!) (posted s)) (notifications s))" .
  then have "pending s' = pending s + {#?r#}" by (metis add_right_cancel)
  then have "machine_of s' = (machine_of s)\<lparr>todo := todo (machine_of s) + {#?r#}\<rparr>"
    using lt len by (simp add: machine_of_def s' nth_append)
  then show ?thesis using machine_step.asked by metis
qed

lemma machine_of_handle:
  assumes "work_inv b A Q R svcs s" and "i < length (spawned s)" and "replies_ready A R"
    and "handle_request b A Q R svcs i s = Inr s'"
  shows "machine_step (middleware_execute b A Q R svcs) (machine_of s) (machine_of s')"
proof -
  let ?r = "spawned s ! i"
  have in_pending: "?r \<in># pending s" using assms(2) by (simp add: pending_def)
  note p = work_inv_pending[OF assms(1) in_pending]
  obtain reply u where m: "middleware_execute b A Q R svcs (rq_msg ?r) (services s) = Inr (reply, u)"
    and eq: "handle_request b A Q R svcs i s = Inr (s\<lparr>spawned := take i (spawned s) @ drop (Suc i) (spawned s),
      contexts := (contexts s)[rq_ctx ?r :=
        \<lparr>ac_content = \<lparr>cc_hr = Some S_OK, reply_msg = Some reply\<rparr>, is_completed = True\<rparr>],
      services := u, notifications := notifications s @ [rq_ctx ?r]\<rparr>)"
    by (rule handle_request_eq[OF assms(1-3)])
  have s': "s' = s\<lparr>spawned := take i (spawned s) @ drop (Suc i) (spawned s),
      contexts := (contexts s)[rq_ctx ?r :=
        \<lparr>ac_content = \<lparr>cc_hr = Some S_OK, reply_msg = Some reply\<rparr>, is_completed = True\<rparr>],
      services := u, notifications := notifications s @ [rq_ctx ?r]\<rparr>"
    using eq assms(4) by simp
  have new: "rq_ctx ?r \<notin> set (notifications s)"
    using p(1,3) assms(1) by (auto simp: work_inv_def)
  have "pending s = pending s' + {#?r#}"
    using mset_remove_nth[OF assms(2)] by (simp add: pending_def s')
  then have "machine_of s' = (machine_of s)\<lparr>todo := todo (machine_of s) - {#?r#},
      answer_log := answer_log (machine_of s) @ [(?r, reply)], machine_state := u\<rparr>"
    using new p(1,2) by (auto simp: machine_of_def s' context_reply_def nth_list_update)
  then show ?thesis
    using machine_step.answered[of ?r "machine_of s" "middleware_execute b A Q R svcs" reply u] m in_pending
    by (simp add: machine_of_def)
qed

definition server_step ::
    "build \<Rightarrow> 's absl_api \<Rightarrow> request_header codec \<Rightarrow> reply_header codec \<Rightarrow> ('s, 'u) service list \<Rightarrow>
     'u server \<Rightarrow> 'u server \<Rightarrow> bool" where
  "server_step b A Q R svcs s s' \<longleftrightarrow>
     internal_step b A Q R svcs s (Inr s') \<or> transport_step b s (Inr s')"

definition server_ok ::
    "build \<Rightarrow> 's absl_api \<Rightarrow> request_header codec \<Rightarrow> reply_header codec \<Rightarrow> ('s, 'u) service list \<Rightarrow>
     'u server \<Rightarrow> bool" where
  "server_ok b A Q R svcs s \<longleftrightarrow> replies_ready A R \<and> routes s \<and> work_inv b A Q R svcs s"

lemma server_ok_step:
  assumes "server_ok b A Q R svcs s" and "server_step b A Q R svcs s s'"
  shows "server_ok b A Q R svcs s'"
  using assms internal_step_inv[of b A Q R svcs s "Inr s'"] transport_step_inv[of b s "Inr s'" A Q R svcs]
  by (auto simp: server_ok_def server_step_def server_inv_def)

lemma internal_step_refines:
  assumes "server_ok b A Q R svcs s" and "internal_step b A Q R svcs s (Inr s')"
  shows "machine_of s' = machine_of s \<or>
    machine_step (middleware_execute b A Q R svcs) (machine_of s) (machine_of s')"
proof -
  have w: "work_inv b A Q R svcs s" "work_inv b A Q R svcs s'"
    using assms server_ok_step[of b A Q R svcs s s'] by (auto simp: server_ok_def server_step_def)
  show ?thesis
    using assms(2)
  proof (cases rule: internal_step.cases)
    case accept_conn
    then show ?thesis using machine_of_moves[OF w] by simp
  next
    case accepted_conn
    then show ?thesis using machine_of_moves[OF w] listener_wakes_moves[of b s s'] by simp
  next
    case (accept_request k)
    then show ?thesis using machine_of_moves[OF w] connection_accept_moves[of b k s s'] by simp
  next
    case (accepted_request k)
    then show ?thesis using machine_of_moves[OF w] connection_wakes_moves[of k s s'] by simp
  next
    case (handler_runs i)
    then show ?thesis using machine_of_handle[OF w(1), of i s'] assms(1) by (simp add: server_ok_def)
  qed
qed

lemma transport_step_refines:
  assumes "server_ok b A Q R svcs s" and "transport_step b s (Inr s')"
  shows "machine_of s' = machine_of s \<or>
    machine_step (middleware_execute b A Q R svcs) (machine_of s) (machine_of s')"
proof -
  have w: "work_inv b A Q R svcs s" "work_inv b A Q R svcs s'"
    using assms server_ok_step[of b A Q R svcs s s'] by (auto simp: server_ok_def server_step_def)
  show ?thesis
    using assms(2)
  proof (cases rule: transport_step.cases)
    case (connect client)
    then show ?thesis using machine_of_moves[OF w] by (simp add: transport_connect_eq)
  next
    case (disconnects client)
    then show ?thesis using machine_of_moves[OF w] transport_disconnect_moves[of b client s s'] by simp
  next
    case (request client message)
    then obtain e where "conns (mgr s) client = Some e" by auto
    then show ?thesis
      using machine_of_request[OF _ w(1), of client e message s'] request assms(1)
      by (simp add: server_ok_def)
  qed
qed

interpretation server: simulation "machine_step (middleware_execute b A Q R svcs)"
    "server_step b A Q R svcs" machine_of "server_ok b A Q R svcs"
proof
  fix s s' assume s: "server_ok b A Q R svcs s" "server_step b A Q R svcs s s'"
  show "server_ok b A Q R svcs s'" by (rule server_ok_step[OF s])
  show "machine_of s' = machine_of s \<or>
      machine_step (middleware_execute b A Q R svcs) (machine_of s) (machine_of s')"
    using internal_step_refines[OF s(1)] transport_step_refines[OF s(1)] s(2)
    unfolding server_step_def by blast
qed

section \<open>Reachable states\<close>

lemma reachable_runs:
  assumes "server_reachable b A Q R svcs u (Inr s)"
  shows "(server_step b A Q R svcs)\<^sup>*\<^sup>* (new_server u) s"
proof -
  have "r = Inr s \<Longrightarrow> (server_step b A Q R svcs)\<^sup>*\<^sup>* (new_server u) s"
    if "server_reachable b A Q R svcs u r" for r s
    using that
  proof (induction arbitrary: s rule: server_reachable.induct)
    case (internal s1 r)
    then show ?case by (auto simp: server_step_def intro: rtranclp.rtrancl_into_rtrancl)
  next
    case (transport s1 r)
    then show ?case by (auto simp: server_step_def intro: rtranclp.rtrancl_into_rtrancl)
  qed simp
  then show ?thesis using assms by blast
qed

lemma runs_reachable:
  assumes "(server_step b A Q R svcs)\<^sup>*\<^sup>* s s'" and "server_reachable b A Q R svcs u (Inr s)"
  shows "server_reachable b A Q R svcs u (Inr s')"
  using assms(1)
  by (induction rule: rtranclp_induct)
    (use assms(2) in \<open>auto simp: server_step_def intro: server_reachable.internal server_reachable.transport\<close>)

lemma server_ok_new: "replies_ready A R \<Longrightarrow> server_ok b A Q R svcs (new_server u)"
  by (simp add: server_ok_def routes_new work_inv_new)

lemma reachable_sequential:
  assumes "server_reachable b A Q R svcs u (Inr s)" and "replies_ready A R"
  shows "server_ok b A Q R svcs s"
    and "sequential (middleware_execute b A Q R svcs) u (machine_of s)"
proof -
  note run = reachable_runs[OF assms(1)] and ok = server_ok_new[OF assms(2), of b Q svcs u]
  show "server_ok b A Q R svcs s" using server.runs_refine[OF run ok] by blast
  show "sequential (middleware_execute b A Q R svcs) u (machine_of s)"
    by (rule server.invariant_transfers[OF sequential_step run ok]) (simp_all add: sequential_def)
qed

lemma serve_all_length:
  assumes "serve_all serving ms u = Inr (replies, u')"
  shows "length replies = length ms"
  using assms
  by (induction ms arbitrary: u replies) (auto simp: ebind_Inr_iff split: prod.splits)

text \<open>The state in which the request at a position of the sequence is served.\<close>

lemma serve_all_nth:
  assumes "serve_all serving ms u = Inr (replies, u')" and "i < length ms"
  shows "\<exists>u1 u2. serve_all serving (take i ms) u = Inr (take i replies, u1) \<and>
    serving (ms ! i) u1 = Inr (replies ! i, u2)"
  using assms
proof (induction ms arbitrary: u replies i)
  case (Cons m ms)
  then obtain reply u1 rs where 1: "serving m u = Inr (reply, u1)" "serve_all serving ms u1 = Inr (rs, u')"
    "replies = reply # rs"
    by (auto simp: ebind_Inr_iff split: prod.splits)
  show ?case
  proof (cases i)
    case 0
    then show ?thesis using 1 by auto
  next
    case (Suc j)
    then show ?thesis using Cons.IH[OF 1(2), of j] Cons.prems(2) 1 by (auto simp: ebind_Inr_iff)
  qed
qed simp

text \<open>Posted requests stay where they are in the history.\<close>

lemma posted_step:
  assumes "server_step b A Q R svcs s s'"
  shows "\<exists>rs. posted s' = posted s @ rs"
  using assms unfolding server_step_def
proof
  assume "internal_step b A Q R svcs s (Inr s')"
  then show ?thesis
  proof (cases rule: internal_step.cases)
    case (accept_request k)
    then show ?thesis using connection_accept_moves(1)[of b k s s'] by simp
  next
    case (accepted_request k)
    then show ?thesis using connection_wakes_moves(1)[of k s s'] by simp
  next
    case accepted_conn
    then show ?thesis using listener_wakes_moves(1)[of b s s'] by simp
  next
    case (handler_runs i)
    show ?thesis using handler_runs(1)[symmetric] by (auto simp: handle_request_def ebind_Inr_iff Let_def)
  qed simp
next
  assume "transport_step b s (Inr s')"
  then show ?thesis
  proof (cases rule: transport_step.cases)
    case (request client message)
    then obtain e where e: "conns (mgr s) client = Some e" by auto
    show ?thesis using request(1) by (simp add: transport_request_eq[OF e] Let_def case_prod_unfold)
  next
    case (disconnects client)
    then show ?thesis using transport_disconnect_moves(1)[of b client s s'] by simp
  qed (simp add: transport_connect_eq)
qed

lemma posted_runs:
  assumes "(server_step b A Q R svcs)\<^sup>*\<^sup>* s s'"
  shows "\<exists>rs. posted s' = posted s @ rs"
  using assms
proof (induction rule: rtranclp_induct)
  case (step t t')
  then show ?case using posted_step[of b A Q R svcs t t'] by auto
qed simp

lemma posted_nth_runs:
  assumes "(server_step b A Q R svcs)\<^sup>*\<^sup>* s s'" and "n < length (posted s)"
  shows "n < length (posted s')" and "posted s' ! n = posted s ! n"
  using posted_runs[OF assms(1)] assms(2) by (auto simp: nth_append)

lemma answered_context:
  assumes "work_inv b A Q R svcs s" and "n \<in> set (notifications s)"
  shows "Msg_EndProcessRequest b' (contexts s ! n) = Inr (S_OK, Some (context_reply (contexts s ! n)))"
proof -
  have "answers b A Q R svcs (rq_msg (posted s ! n)) (contexts s ! n)"
    using assms unfolding work_inv_def by blast
  then show ?thesis
    by (auto simp: answers_def Msg_EndProcessRequest_def get_content_def context_reply_def)
qed

text \<open>The place of an answered request in the sequence, and the state in which it was served.\<close>

lemma answered_in_sequence:
  assumes "server_reachable b A Q R svcs u (Inr s)" and "replies_ready A R"
    and "i < length (notifications s)"
  shows "\<exists>replies st st' reply.
    serve_all (middleware_execute b A Q R svcs)
      (map (\<lambda>n. rq_msg (posted s ! n)) (take i (notifications s))) u = Inr (replies, st) \<and>
    middleware_execute b A Q R svcs (rq_msg (posted s ! (notifications s ! i))) st = Inr (reply, st') \<and>
    Msg_EndProcessRequest b (contexts s ! (notifications s ! i)) = Inr (S_OK, Some reply)"
proof -
  have w: "work_inv b A Q R svcs s" using reachable_sequential(1)[OF assms(1,2)] by (simp add: server_ok_def)
  have "serve_all (middleware_execute b A Q R svcs) (map (\<lambda>n. rq_msg (posted s ! n)) (notifications s)) u =
      Inr (map (\<lambda>n. context_reply (contexts s ! n)) (notifications s), services s)"
    using reachable_sequential(2)[OF assms(1,2)] by (simp add: sequential_def machine_of_def comp_def)
  from serve_all_nth[OF this, of i] assms(3) obtain st st' where
    "serve_all (middleware_execute b A Q R svcs)
      (map (\<lambda>n. rq_msg (posted s ! n)) (take i (notifications s))) u =
      Inr (take i (map (\<lambda>n. context_reply (contexts s ! n)) (notifications s)), st)"
    and "middleware_execute b A Q R svcs (rq_msg (posted s ! (notifications s ! i))) st =
      Inr (context_reply (contexts s ! (notifications s ! i)), st')"
    by (auto simp: take_map)
  then show ?thesis using answered_context[OF w nth_mem[OF assms(3)]] by blast
qed

lemma server_runs_steps:
  assumes "server_runs b A Q R svcs n s s'"
  shows "(server_step b A Q R svcs)\<^sup>*\<^sup>* s s'"
proof -
  have "(\<lambda>s s'. internal_step b A Q R svcs s (Inr s')) \<le> server_step b A Q R svcs"
    by (auto simp: server_step_def)
  from rtranclp_mono[OF this] show ?thesis
    using assms relpowp_imp_rtranclp unfolding server_runs_def by fast
qed

end
