(* ===== verification/Client_Connection.thy ===== *)
theory Client_Connection
  imports Middleware Request_Context Tools Basic_Event
begin

text \<open>
  The client of src/fabric_rpc2: \<open>endpoint\<close>, \<open>basic_client_connection\<close> and \<open>rpc_client\<close>, over a
  transport that is a parameter.  A
  \<open>boost::system::error_code\<close> is its value, zero for success.  An asynchronous operation is the
  function from what the transport answers to the arguments of its one completion.
\<close>

section \<open>endpoint\<close>

record transport_settings =
  KeepAliveTimeoutInSeconds :: ULONG
  MaxConcurrentCalls :: ULONG
  MaxMessageSize :: ULONG
  MaxQueueSize :: ULONG
  OperationTimeoutInSeconds :: ULONG

record endpoint =
  ep_host :: string
  ep_port :: "32 word"
  ep_settings :: transport_settings
  addr_IPAddressOrFQDN :: string
  addr_Port :: "32 word"
  addr_Path :: string

definition mk_endpoint :: "string \<Rightarrow> 32 word \<Rightarrow> endpoint" where
  "mk_endpoint host port =
     \<lparr>ep_host = host, ep_port = port,
      ep_settings =
        \<lparr>KeepAliveTimeoutInSeconds = 10, MaxConcurrentCalls = 10, MaxMessageSize = 100,
         MaxQueueSize = 100, OperationTimeoutInSeconds = 30\<rparr>,
      addr_IPAddressOrFQDN = host, addr_Port = port, addr_Path = ''/''\<rparr>"

definition get_settings :: "endpoint \<Rightarrow> transport_settings" where
  "get_settings ep = ep_settings ep"

definition get_addr :: "endpoint \<Rightarrow> string \<times> 32 word \<times> string" where
  "get_addr ep = (addr_IPAddressOrFQDN ep, addr_Port ep, addr_Path ep)"

definition get_url :: "endpoint \<Rightarrow> string" where
  "get_url ep = ep_host ep @ '':'' @ to_string (uint (ep_port ep)) @ ''+/''"

section \<open>Opening the connection\<close>

record ('x, 'w) basic_client_connection =
  conn_client :: "('x, 'w) IFabricTransportClient option"

definition mk_client_connection :: "('x, 'w) basic_client_connection" where
  "mk_client_connection = \<lparr>conn_client = None\<rparr>"

text \<open>
  \<open>CreateFabricTransportClient\<close>: the result for the settings and the address, and the client that
  it makes.  A call that fails leaves the null pointer it was given.
\<close>

type_synonym ('x, 'w) create_client =
  "transport_settings \<Rightarrow> string \<Rightarrow> HRESULT \<times> ('x, 'w) IFabricTransportClient"

definition created :: "HRESULT \<times> 'c \<Rightarrow> 'c option" where
  "created result = (if fst result = S_OK then Some (snd result) else None)"

text \<open>
  \<open>open\<close>, with the transport's part \<open>hs\<close> of the handshake: the error code, and the connection, which
  has the client from then on, also when opening it fails.
\<close>

definition connection_open ::
    "build \<Rightarrow> ('x, 'w) create_client \<Rightarrow> handshake \<Rightarrow> endpoint \<Rightarrow> ('x, 'w) basic_client_connection \<Rightarrow>
     (HRESULT \<times> ('x, 'w) basic_client_connection) exec" where
  "connection_open b create hs ep conn =
     ebind (cxx_assert b ''!client_'' (conn_client conn = None)) (\<lambda>_.
     let result = create (get_settings ep) (get_url ep);
         hr = fst result;
         conn = conn\<lparr>conn_client := created result\<rparr>
     in if hr \<noteq> S_OK then Inr (hr, conn)
        else if hs_begin hs \<noteq> S_OK then Inr (hs_begin hs, conn)
        else
          ebind (await (hs_invokes hs)) (\<lambda>_.
          ebind (cxx_assert b ''ctx->IsCompleted()'' (hs_completed hs)) (\<lambda>_.
          ebind (cxx_assert b ''ctx->CompletedSynchronously()'' (hs_sync hs)) (\<lambda>_.
          Inr (hs_end hs, conn)))))"

text \<open>What \<open>open\<close> leaves behind.\<close>

lemma connection_open_client:
  assumes "connection_open b create hs ep conn = Inr (ec, conn')"
  shows "conn_client conn' = created (create (get_settings ep) (get_url ep))"
    and "b = Debug \<Longrightarrow> conn_client conn = None"
  using assms
  by (auto simp: connection_open_def cxx_assert_Debug Let_def ebind_Inr_iff cxx_assert_def split: if_splits)

lemma connection_open_ok:
  assumes "connection_open b create hs ep conn = Inr (0, conn')"
  shows "\<exists>client. create (get_settings ep) (get_url ep) = (S_OK, client) \<and> conn_client conn' = Some client"
proof -
  have "fst (create (get_settings ep) (get_url ep)) = S_OK"
    using assms by (auto simp: connection_open_def S_OK_def Let_def ebind_Inr_iff split: if_splits)
  then show ?thesis
    using connection_open_client(1)[OF assms] by (cases "create (get_settings ep) (get_url ep)") (simp add: created_def)
qed

text \<open>A connection whose client could not be opened cannot be opened again.\<close>

lemma connection_reopen:
  assumes "connection_open Debug create hs ep conn = Inr (ec, conn')"
    and "fst (create (get_settings ep) (get_url ep)) = S_OK"
  shows "connection_open Debug create' hs' ep' conn' = Inl (AssertionFailed ''!client_'')"
  using connection_open_client(1)[OF assms(1)] assms(2)
  by (simp add: connection_open_def created_def cxx_assert_def)

section \<open>Sending a message\<close>

text \<open>\<open>private_callback\<close> shares an event with the operation, sets it once and gives it up.\<close>

record private_callback =
  has_ev :: bool

definition mk_private_callback :: "private_callback \<times> basic_event" where
  "mk_private_callback = (\<lparr>has_ev = True\<rparr>, mk_event)"

definition ev_pointer :: "private_callback \<Rightarrow> unit option" where
  "ev_pointer cb = (if has_ev cb then Some () else None)"

definition private_callback_get_event :: "build \<Rightarrow> private_callback \<Rightarrow> unit option exec" where
  "private_callback_get_event b cb =
     ebind (cxx_assert b ''ev_'' (has_ev cb)) (\<lambda>_. Inr (ev_pointer cb))"

definition private_callback_Invoke ::
    "build \<Rightarrow> private_callback \<Rightarrow> basic_event \<Rightarrow> (private_callback \<times> basic_event) exec" where
  "private_callback_Invoke b cb ev =
     ebind (cxx_assert b ''ev_'' (has_ev cb)) (\<lambda>_.
     ebind (deref ''ev_'' (ev_pointer cb)) (\<lambda>_.
     Inr (cb\<lparr>has_ev := False\<rparr>, event_set ev)))"

text \<open>
  \<open>async_req_op\<close>: \<open>ec\<close> is the code it is started with, \<open>ec_wait\<close> the result of waiting for the
  event.  The result is the error code and the reply of the completion.
\<close>

definition async_req_op ::
    "('x, 'w) IFabricTransportClient \<Rightarrow> HRESULT \<Rightarrow> HRESULT \<Rightarrow> IFabricTransportMessage \<Rightarrow> 'w \<Rightarrow>
     (HRESULT \<times> IFabricTransportMessage option) \<times> 'w" where
  "async_req_op client ec ec_wait req w =
     (if ec \<noteq> 0 then ((ec, None), w)
      else
        let ((hr, ctx), w1) = BeginRequest client req 1000 w
        in if hr \<noteq> S_OK then ((hr, None), w1)
           else if ec_wait \<noteq> 0 then ((ec_wait, None), w1)
           else
             let ((hr, reply), w2) = EndRequest client ctx w1
             in ((if hr \<noteq> S_OK then hr else 0, reply), w2))"

section \<open>A remote call\<close>

text \<open>
  \<open>async_rpc_op\<close>: the completion's error code, its status (default constructed, hence OK, when
  the transport failed), and the reply object if it was filled.
\<close>

definition async_rpc_op ::
    "'s absl_api \<Rightarrow> request_header codec \<Rightarrow> reply_header codec \<Rightarrow> 'q codec \<Rightarrow> 'p codec \<Rightarrow>
     ('x, 'w) IFabricTransportClient \<Rightarrow> HRESULT \<Rightarrow> HRESULT \<Rightarrow> string \<Rightarrow> 'q \<Rightarrow> 'w \<Rightarrow>
     ((HRESULT \<times> 's \<times> 'p option) \<times> 'w) exec" where
  "async_rpc_op A Q R P P' client ec ec_wait u request w =
     (if ec \<noteq> 0 then Inr ((ec, OkStatus A, None), w)
      else
        let header = \<lparr>url = u\<rparr>;
            req = tool_message (SerializeAsString P request) (SerializeAsString Q header);
            ((ec, reply), w') = async_req_op client 0 ec_wait req w
        in if ec \<noteq> 0 then Inr ((ec, OkStatus A, None), w')
           else
             ebind (get_header reply) (\<lambda>hdr.
             let st = parse_reply_header A R hdr
             in if \<not> st_ok A st then Inr ((0, st, None), w')
                else
                  ebind (get_body reply) (\<lambda>body.
                  let (st, m) = parse_proto_payload A P' body True
                  in Inr ((0, st, m), w'))))"

text \<open>
  \<open>async_send\<close> of the connection and of \<open>rpc_client\<close>: the operation is started with no error.  It
  calls the client through the connection's pointer, which is null before \<open>open\<close>.
\<close>

definition connection_async_send ::
    "('x, 'w) basic_client_connection \<Rightarrow> HRESULT \<Rightarrow> IFabricTransportMessage \<Rightarrow> 'w \<Rightarrow>
     ((HRESULT \<times> IFabricTransportMessage option) \<times> 'w) exec" where
  "connection_async_send conn ec_wait req w =
     ebind (deref ''client_'' (conn_client conn)) (\<lambda>client. Inr (async_req_op client 0 ec_wait req w))"

definition rpc_client_async_send ::
    "'s absl_api \<Rightarrow> request_header codec \<Rightarrow> reply_header codec \<Rightarrow> 'q codec \<Rightarrow> 'p codec \<Rightarrow>
     ('x, 'w) basic_client_connection \<Rightarrow> HRESULT \<Rightarrow> string \<Rightarrow> 'q \<Rightarrow> 'w \<Rightarrow>
     ((HRESULT \<times> 's \<times> 'p option) \<times> 'w) exec" where
  "rpc_client_async_send A Q R P P' conn ec_wait u request w =
     ebind (deref ''client_'' (conn_client conn)) (\<lambda>client.
     async_rpc_op A Q R P P' client 0 ec_wait u request w)"

section \<open>What the client concludes\<close>

definition rpc_result ::
    "'s absl_api \<Rightarrow> reply_header codec \<Rightarrow> 'p codec \<Rightarrow> IFabricTransportMessage \<Rightarrow> 's \<times> 'p option" where
  "rpc_result A R P' m =
     (let st = parse_reply_header A R (header_text m)
      in if \<not> st_ok A st then (st, None) else parse_proto_payload A P' (body_text m) True)"

lemma async_rpc_op_reply:
  assumes "BeginRequest client (tool_message (SerializeAsString P request) (SerializeAsString Q \<lparr>url = u\<rparr>))
      1000 w = ((S_OK, ctx), wa)"
    and "EndRequest client ctx wa = ((S_OK, Some m), wb)" and "wf_msg m"
  shows "async_rpc_op A Q R P P' client 0 0 u request w =
    Inr ((0, fst (rpc_result A R P' m), snd (rpc_result A R P' m)), wb)"
  using assms
  by (simp add: async_rpc_op_def async_req_op_def rpc_result_def get_header_wf get_body_wf Let_def
      split: prod.splits)

lemma async_rpc_op_transport_error:
  assumes "async_req_op client 0 ec_wait
      (tool_message (SerializeAsString P request) (SerializeAsString Q \<lparr>url = u\<rparr>)) w = ((ec, reply), w')"
    and "ec \<noteq> 0"
  shows "async_rpc_op A Q R P P' client 0 ec_wait u request w = Inr ((ec, OkStatus A, None), w')"
  using assms by (simp add: async_rpc_op_def)

lemma rpc_result_filled_iff:
  assumes "absl_laws A"
  shows "snd (rpc_result A R P' m) \<noteq> None \<longleftrightarrow> st_ok A (fst (rpc_result A R P' m))"
  using parse_proto_payload_ok_iff[OF assms, of P' "body_text m" True]
  by (auto simp: rpc_result_def Let_def)

section \<open>From the client through the middleware and back\<close>

text \<open>The transport of a client that is given one reply.\<close>

definition replying_client ::
    "HRESULT \<Rightarrow> IFabricTransportMessage option \<Rightarrow> (unit, unit) IFabricTransportClient" where
  "replying_client hr reply =
     \<lparr>BeginRequest = (\<lambda>_ _ w. ((S_OK, Some ()), w)), EndRequest = (\<lambda>_ w. ((hr, reply), w))\<rparr>"

definition rpc2_call ::
    "build \<Rightarrow> 's absl_api \<Rightarrow> request_header codec \<Rightarrow> reply_header codec \<Rightarrow> 'q codec \<Rightarrow> 'p codec \<Rightarrow>
     ('s, 'u) service list \<Rightarrow> string \<Rightarrow> 'q \<Rightarrow> 'u \<Rightarrow> ((HRESULT \<times> 's \<times> 'p option) \<times> 'u) exec" where
  "rpc2_call b A Q R P P' svcs u request st =
     (let req = tool_message (SerializeAsString P request) (SerializeAsString Q \<lparr>url = u\<rparr>)
      in ebind (middleware_execute b A Q R svcs (Some req) st) (\<lambda>(reply, st').
         ebind (request_complete b S_OK (Some reply)
                  \<lparr>ac_content = new_content, is_completed = False\<rparr>) (\<lambda>(ctx, _).
         ebind (Msg_EndProcessRequest b ctx) (\<lambda>(hr, msg).
         ebind (async_rpc_op A Q R P P' (replying_client hr msg) 0 0 u request ()) (\<lambda>(res, _).
         Inr (res, st'))))))"

lemma tool_message_text [simp]:
  assumes "length h < 2 ^ 32" and "length d < 2 ^ 32"
  shows "header_text (tool_message d h) = h" and "body_text (tool_message d h) = d"
  using assms
  by (simp_all add: tool_message_def tool_GetHeaderAndBodyBuffer_def mk_tool_transport_msg_def
      header_text_def body_text_def buffer_text_def)

text \<open>The middleware's result decides what the client sees.\<close>

lemma client_reads_reply:
  assumes "absl_laws A" and "codec_laws R" and "sendable_status A R ec" and "length resp < 2 ^ 32"
  shows "async_rpc_op A Q R P P' (replying_client S_OK (Some (tool_message resp (wire R (status_header A ec)))))
      0 0 u request () =
    Inr ((0, if st_ok A ec then parse_proto_payload A P' resp True else (ec, None)), ())"
proof -
  let ?h = "wire R (status_header A ec)"
  have len: "length ?h < 2 ^ 32" using assms(3) by (simp add: sendable_status_def roundtrips_def wire_def)
  have "rpc_result A R P' (tool_message resp ?h) =
      (if st_ok A ec then parse_proto_payload A P' resp True else (ec, None))"
    using parse_reply_header_sendable[OF assms(1-3)] assms(4) len by (simp add: rpc_result_def)
  then show ?thesis
    by (subst async_rpc_op_reply[where ctx = "Some ()" and m = "tool_message resp ?h" and wa = "()"
          and wb = "()"])
      (simp_all add: replying_client_def)
qed

lemma rpc2_call_via_execute:
  assumes "middleware_execute_inner A Q svcs
      (Some (tool_message (SerializeAsString P request) (SerializeAsString Q \<lparr>url = u\<rparr>))) '''' st =
        Inr ((ec, resp), st')"
    and "absl_laws A" and "codec_laws R" and "sendable_status A R ec" and "length resp < 2 ^ 32"
  shows "rpc2_call b A Q R P P' svcs u request st =
    Inr (if st_ok A ec then (0, parse_proto_payload A P' resp True) else (0, ec, None), st')"
  using client_reads_reply[OF assms(2-5), of Q P P' u request] middleware_execute_reply[OF assms(1-4), of b]
  by (simp add: rpc2_call_def request_complete_first Msg_EndProcessRequest_def get_content_def)

end
