(* ===== verification/Acceptor.thy ===== *)
theory Acceptor
  imports Server_Spec Client_Connection
begin

text \<open>
  The life of a server of src/fabric_rpc2 around the state machine of theory \<open>Server\<close>: making,
  opening and closing \<open>basic_acceptor\<close>, the destructor of \<open>basic_server_connection\<close>, and
  \<open>ex_server\<close>.  The transport's listener is a parameter: the result of its creation, and its part
  of the two handshakes.
\<close>

section \<open>basic_acceptor\<close>

text \<open>
  The members besides the manager, the event and the holder, which are in the state of the
  server: a copy of the endpoint, and whether the listener is not null.
\<close>

record acceptor =
  acc_ep :: endpoint
  acc_listener :: bool

text \<open>\<open>CreateFabricTransportListener\<close>: its result for the settings and the listen address.\<close>

type_synonym create_listener = "transport_settings \<Rightarrow> string \<times> 32 word \<times> string \<Rightarrow> HRESULT"

definition mk_acceptor :: "build \<Rightarrow> create_listener \<Rightarrow> endpoint \<Rightarrow> acceptor exec" where
  "mk_acceptor b create ep =
     (let hr = create (get_settings ep) (get_addr ep)
      in ebind (cxx_assert b ''hr == S_OK'' (hr = S_OK)) (\<lambda>_.
         Inr \<lparr>acc_ep = ep, acc_listener = (hr = S_OK)\<rparr>))"

definition listener_ptr :: "acceptor \<Rightarrow> unit option" where
  "listener_ptr acc = (if acc_listener acc then Some () else None)"

text \<open>The address is written only when the end call succeeds; \<open>str\<close> is the string it returns.\<close>

definition acceptor_open ::
    "build \<Rightarrow> acceptor \<Rightarrow> handshake \<Rightarrow> string \<Rightarrow> string \<Rightarrow> (HRESULT \<times> string) exec" where
  "acceptor_open b acc hs str addr =
     ebind (cxx_assert b ''listener_'' (acc_listener acc)) (\<lambda>_.
     ebind (deref ''listener_'' (listener_ptr acc)) (\<lambda>_.
     if hs_begin hs \<noteq> S_OK then Inr (hs_begin hs, addr)
     else
       ebind (await (hs_invokes hs)) (\<lambda>_.
       ebind (cxx_assert b ''ctx->CompletedSynchronously()'' (hs_sync hs)) (\<lambda>_.
       Inr (hs_end hs, if hs_end hs = S_OK then str else addr)))))"

text \<open>Closing cancels the accept operation of the acceptor's own event first.\<close>

definition acceptor_close ::
    "build \<Rightarrow> acceptor \<Rightarrow> handshake \<Rightarrow> 'u server \<Rightarrow> (HRESULT \<times> 'u server) exec" where
  "acceptor_close b acc hs s =
     (let s' = s\<lparr>mgr := mgr_cancel 0 (mgr s)\<rparr>
      in ebind (cxx_assert b ''listener_'' (acc_listener acc)) (\<lambda>_.
         ebind (deref ''listener_'' (listener_ptr acc)) (\<lambda>_.
         if hs_begin hs \<noteq> S_OK then Inr (hs_begin hs, s')
         else
           ebind (await (hs_invokes hs)) (\<lambda>_.
           ebind (cxx_assert b ''ctx->CompletedSynchronously()'' (hs_sync hs)) (\<lambda>_.
           Inr (hs_end hs, s'))))))"

section \<open>The destructor of a connection\<close>

definition connection_destroy :: "nat \<Rightarrow> 'u server \<Rightarrow> 'u server" where
  "connection_destroy k s =
     (case c_queue (connections s ! k) of
        None \<Rightarrow> s
      | Some j \<Rightarrow>
          s\<lparr>mgr := (mgr s)\<lparr>queues := (queues (mgr s))[j := queue_cancel k (queues (mgr s) ! j)]\<rparr>\<rparr>)"

section \<open>ex_server\<close>

text \<open>
  \<open>serve\<close> up to \<open>ioc_.run()\<close>: an error status, or the address it prints and the state from which
  the coroutines run.
\<close>

definition ex_add_service :: "('s, 'u) service \<Rightarrow> ('s, 'u) service list \<Rightarrow> ('s, 'u) service list" where
  "ex_add_service svc svcs = middleware_add_service svc svcs"

definition ex_serve ::
    "build \<Rightarrow> 's absl_api \<Rightarrow> create_listener \<Rightarrow> handshake \<Rightarrow> string \<Rightarrow> 32 word \<Rightarrow> 'u \<Rightarrow>
     ('s + string \<times> 'u server) exec" where
  "ex_serve b A create hs str port u =
     (let ep = mk_endpoint ''localhost'' port
      in ebind (mk_acceptor b create ep) (\<lambda>acc.
         ebind (acceptor_open b acc hs str '''') (\<lambda>(ec, addr).
         if ec \<noteq> 0 then Inr (Inl (AbortedError A ''failed to open acceptor''))
         else Inr (Inr (''Listening on: '' @ addr, new_server u)))))"

text \<open>When \<open>shutdown\<close> has stopped the \<open>io_context\<close>, \<open>serve\<close> returns: the acceptor is not closed.\<close>

definition ex_serve_result :: "'s absl_api \<Rightarrow> 's + 'x \<Rightarrow> 's" where
  "ex_serve_result A started = (case started of Inl st \<Rightarrow> st | Inr _ \<Rightarrow> OkStatus A)"

section \<open>Opening\<close>

lemma acceptor_open_ok:
  assumes "acc_listener acc" and "hs_begin hs = S_OK" and "hs_invokes hs = 1"
    and "b = Release \<or> hs_sync hs"
  shows "acceptor_open b acc hs str addr =
    Inr (hs_end hs, if hs_end hs = S_OK then str else addr)"
  using assms by (auto simp: acceptor_open_def listener_ptr_def cxx_assert_cong)

text \<open>A transport that opens with a synchronous context satisfies the assertions of both sides.\<close>

lemma open_synchronously:
  assumes "sync_ctx.begun k hr = Inr hs" and "acc_listener acc"
    and "create (get_settings ep) (get_url ep) = (S_OK, client)"
  shows "acceptor_open b acc hs str addr = Inr (hr, if hr = S_OK then str else addr)"
    and "connection_open b create hs ep mk_client_connection = Inr (hr, \<lparr>conn_client = Some client\<rparr>)"
  using sync_ctx.begun_opens[OF assms(1)] assms(2,3)
  by (simp_all add: acceptor_open_def listener_ptr_def connection_open_def mk_client_connection_def created_def)

lemma ex_serve_starts:
  assumes "create (get_settings (mk_endpoint ''localhost'' port)) (get_addr (mk_endpoint ''localhost'' port)) = S_OK"
    and "hs_begin hs = S_OK" and "hs_invokes hs = 1"
    and "b = Release \<or> hs_sync hs" and "hs_end hs = S_OK"
  shows "ex_serve b A create hs str port u = Inr (Inr (''Listening on: '' @ str, new_server u))"
  using assms by (simp add: ex_serve_def mk_acceptor_def acceptor_open_ok S_OK_def)

section \<open>Closing\<close>

text \<open>
  An accept operation that waits is taken out of the queue, but its event is not set: no
  operation completes it any more.  The stranded listener waits, without a place in the queue.
\<close>

definition stranded :: "'u server \<Rightarrow> bool" where
  "stranded s \<longleftrightarrow>
     l_pc (listener s) = Waiting \<and> \<not> l_signalled (listener s) \<and> queue_entries (conn_queue (mgr s)) = []"



lemma acceptor_close_returns:
  assumes "acceptor_close b acc hs s = Inr (ec, s')"
  shows "s' = s\<lparr>mgr := mgr_cancel 0 (mgr s)\<rparr>"
  using assms
  by (auto simp: acceptor_close_def Let_def ebind_Inr_iff split: if_splits)

lemma waiting_listener:
  assumes "routes s" and "l_pc (listener s) = Waiting" and "\<not> l_signalled (listener s)"
  shows "items (conn_queue (mgr s)) = []"
    and "queue_entries (conn_queue (mgr s)) = [\<lparr>q_event = 0, q_item = ()\<rparr>]"
  using assms by (simp_all add: routes_def listener_state_def)

lemma stranded_close:
  assumes "routes s" and "l_pc (listener s) = Waiting" and "\<not> l_signalled (listener s)"
    and "acceptor_close b acc hs s = Inr (ec, s')"
  shows "stranded s'" and "items (conn_queue (mgr s')) = []" and "conns (mgr s') = conns (mgr s)"
    and "listener s' = listener s" and "connections s' = connections s"
  using acceptor_close_returns[OF assms(4)] waiting_listener[OF assms(1-3)] assms(2,3)
  by (simp_all add: stranded_def mgr_cancel_def queue_cancel_def)

lemma length_wake_connection [simp]: "length (wake_connection h cs) = length cs"
  by (simp add: wake_connection_def split: option.splits)

lemma connection_accept_frame:
  assumes "connection_accept b k s = Inr s'"
  shows "listener s' = listener s" and "length (connections s') = length (connections s)"
    and "conn_queue (mgr s') = conn_queue (mgr s)"
proof -
  obtain j q h where "s' = s\<lparr>mgr := (mgr s)\<lparr>queues := (queues (mgr s))[j := q]\<rparr>,
      connections := wake_connection h ((connections s)[k := (connections s ! k)
        \<lparr>c_signalled := False, c_pc := Waiting\<rparr>])\<rparr>"
    using assms by (auto simp: connection_accept_def ebind_Inr_iff Let_def case_prod_unfold)
  then show "listener s' = listener s" and "length (connections s') = length (connections s)"
    and "conn_queue (mgr s') = conn_queue (mgr s)"
    by simp_all
qed

text \<open>The requests that connections wait for go on, but the listener and its queue do not move.\<close>

lemma stranded_internal:
  assumes "internal_step b A Q R svcs s (Inr s')" and "stranded s"
  shows "stranded s' \<and> listener s' = listener s \<and> length (connections s') = length (connections s) \<and>
    conn_queue (mgr s') = conn_queue (mgr s)"
  using assms(1)
proof (cases rule: internal_step.cases)
  case (accept_request k)
  show ?thesis
    using connection_accept_frame[OF accept_request(1)[symmetric]] assms(2) by (simp add: stranded_def)
next
  case (accepted_request k)
  show ?thesis
    using accepted_request(1)[symmetric] assms(2) by (auto simp: connection_wakes_def ebind_Inr_iff Let_def stranded_def)
next
  case (handler_runs i)
  show ?thesis
    using handler_runs(1)[symmetric] assms(2) by (auto simp: handle_request_def ebind_Inr_iff Let_def stranded_def split: prod.splits)
qed (use assms(2) in \<open>auto simp: stranded_def\<close>)

lemma stranded_transport:
  assumes "transport_step b s (Inr s')" and "stranded s"
  shows "stranded s' \<and> listener s' = listener s \<and> length (connections s') = length (connections s) \<and>
    (\<exists>es. items (conn_queue (mgr s')) = items (conn_queue (mgr s)) @ es)"
  using assms(1)
proof (cases rule: transport_step.cases)
  case (connect client)
  then show ?thesis
    using assms(2)
    by (auto simp: transport_connect_eq add_conn_eq stranded_def queue_push_def wake_listener_def)
next
  case (disconnects client)
  show ?thesis
    using disconnects(1)[symmetric] assms(2)
    by (auto simp: transport_disconnect_def BeginProcessDisconnect_def ebind_Inr_iff disconnect_def
        stranded_def split: option.splits)
next
  case (request client message)
  then obtain e where e: "conns (mgr s) client = Some e" by auto
  show ?thesis
    using request(1) assms(2)
    by (auto simp: transport_request_eq[OF e] Let_def stranded_def wake_connection_def
        split: prod.splits option.splits)
qed

lemma stranded_for_ever:
  assumes "(server_step b A Q R svcs)\<^sup>*\<^sup>* s t" and "stranded s"
  shows "stranded t \<and> listener t = listener s \<and> length (connections t) = length (connections s) \<and>
    (\<exists>es. items (conn_queue (mgr t)) = items (conn_queue (mgr s)) @ es)"
  using assms(1)
proof (induction rule: rtranclp_induct)
  case base
  then show ?case using assms(2) by simp
next
  case (step t' t)
  then show ?case
    using stranded_internal[of b A Q R svcs t' t] stranded_transport[of b t' t]
    by (auto simp: server_step_def)
qed

section \<open>Destroying\<close>

text \<open>The destructor of a connection takes it out of its own queue and touches no other.\<close>

lemma connection_destroy_queue:
  assumes "c_queue (connections s ! k) = Some j" and "j < length (queues (mgr s))"
  shows "queues (mgr (connection_destroy k s)) ! j = queue_cancel k (queues (mgr s) ! j)"
    and "j' \<noteq> j \<Longrightarrow> queues (mgr (connection_destroy k s)) ! j' = queues (mgr s) ! j'"
  using assms by (simp_all add: connection_destroy_def)

lemma connection_destroy_leaves:
  assumes "routes s" and "k < length (connections s)"
  shows "\<exists>j. c_queue (connections s ! k) = Some j \<and>
    queue_entries (queues (mgr (connection_destroy k s)) ! j) = []"
proof -
  obtain j where j: "c_queue (connections s ! k) = Some j" "j < length (queues (mgr s))"
    "conn_fits k (connections s ! k) (queues (mgr s) ! j)"
    using assms by (auto simp: routes_def conn_state_def)
  then have "queue_entries (queue_cancel k (queues (mgr s) ! j)) = []"
    by (auto simp: conn_fits_def queue_cancel_def split: accept_pc.splits if_splits)
  then show ?thesis using j connection_destroy_queue(1)[OF j(1,2)] by auto
qed

text \<open>
  The manager is destroyed after the last reference to it is gone: without clients, in a debug
  build, exactly when nobody waits to be accepted and no accept operation waits.
\<close>

lemma mgr_destroy_Debug:
  "returns (mgr_destroy Debug m) \<longleftrightarrow>
     conns m = Map.empty \<and> items (conn_queue m) = [] \<and> queue_entries (conn_queue m) = []"
  by (simp add: mgr_destroy_def queue_destroy_def cxx_assert_Debug)

lemma mgr_destroy_Release [simp]: "mgr_destroy Release m = Inr ()"
  by (simp add: mgr_destroy_def queue_destroy_def)

end
