(* ===== verification/Server_Isolation.thy ===== *)
theory Server_Isolation
  imports Server_Spec
begin

text \<open>
  Clients of the server of src/fabric_rpc2 do not see each other's requests: a queue belongs to
  the client it was made for, for ever, and with it the connection that takes requests from it.
  And what becomes of the connection of a client that has gone.
\<close>

section \<open>Owners\<close>

text \<open>
  \<open>own ! j\<close> is the client for which queue \<open>j\<close> was made: the table refers to the queue by this
  client only, and what is in the queue or held by its connection is from this client.
\<close>

definition belongs :: "string list \<Rightarrow> 'u server \<Rightarrow> bool" where
  "belongs own s \<longleftrightarrow>
     length own = length (queues (mgr s)) \<and>
     (\<forall>i e. conns (mgr s) i = Some e \<longrightarrow> own ! entry_queue e = i) \<and>
     (\<forall>j < length own. \<forall>r \<in> set (items (queues (mgr s) ! j)). conn_id r = own ! j) \<and>
     (\<forall>c \<in> set (connections s). \<forall>r. c_pl c = Some r \<longrightarrow> conn_id r = own ! the (c_queue c))"

lemma belongs_new: "belongs [] (new_server u)"
  by (simp add: belongs_def new_server_def mk_connection_manager_def)

lemma belongs_set_queue:
  assumes "belongs own s" and "j < length own"
    and "\<And>r. r \<in> set (items q) \<Longrightarrow> conn_id r = own ! j"
    and "mgr s' = (mgr s)\<lparr>queues := (queues (mgr s))[j := q]\<rparr>"
    and "\<And>c r. c \<in> set (connections s') \<Longrightarrow> c_pl c = Some r \<Longrightarrow> conn_id r = own ! the (c_queue c)"
  shows "belongs own s'"
  using assms by (auto simp: belongs_def nth_list_update)

lemma belongs_moves:
  assumes "belongs own s" and "conns (mgr s') = conns (mgr s)" and "queues (mgr s') = queues (mgr s)"
    and "connections s' = connections s"
  shows "belongs own s'"
  using assms by (simp add: belongs_def)

text \<open>A connection that is replaced by one with the same queue and what belongs to it.\<close>

lemma belongs_connection:
  assumes "belongs own s" and "c' \<in> set ((connections s)[k := c])" and "c_pl c' = Some r"
    and "\<And>r. c_pl c = Some r \<Longrightarrow> conn_id r = own ! the (c_queue c)"
  shows "conn_id r = own ! the (c_queue c')"
  using assms set_update_subset_insert[of "connections s" k c] by (auto simp: belongs_def)

section \<open>Every step keeps the owners\<close>

lemma transport_disconnect_eq:
  assumes "transport_disconnect b i s = Inr s'"
  shows "s' = s\<lparr>mgr := (mgr s)\<lparr>conns := (conns (mgr s))(i := None)\<rparr>\<rparr>"
  using assms
  by (auto simp: transport_disconnect_def BeginProcessDisconnect_def ebind_Inr_iff disconnect_def
      split: option.splits)

text \<open>A request is stored in the queue of its client or handed to the connection of that queue.\<close>

lemma transport_request_cases:
  assumes "routes s" and "conns (mgr s) i = Some e" and "transport_request b i msg s = Inr s'"
  obtains (stored) "queue_entries (queues (mgr s) ! entry_queue e) = []"
      "mgr s' = (mgr s)\<lparr>queues := (queues (mgr s))[entry_queue e := (queues (mgr s) ! entry_queue e)\<lparr>items :=
        items (queues (mgr s) ! entry_queue e) @
          [\<lparr>conn_id = i, rq_msg = Some msg, rq_ctx = length (contexts s)\<rparr>]\<rparr>]\<rparr>"
      "connections s' = connections s" "listener s' = listener s"
    | (handed) k where "k < length (connections s)" "c_queue (connections s ! k) = Some (entry_queue e)"
      "c_pc (connections s ! k) = Waiting" "\<not> c_signalled (connections s ! k)"
      "mgr s' = (mgr s)\<lparr>queues := (queues (mgr s))[entry_queue e :=
        (queues (mgr s) ! entry_queue e)\<lparr>queue_entries := []\<rparr>]\<rparr>"
      "connections s' = (connections s)[k := (connections s ! k)
        \<lparr>c_pl := Some \<lparr>conn_id = i, rq_msg = Some msg, rq_ctx = length (contexts s)\<rparr>, c_signalled := True\<rparr>]"
      "listener s' = listener s"
proof (cases "queue_entries (queues (mgr s) ! entry_queue e) = []")
  case True
  then show ?thesis
    using assms(3) by (intro stored) (auto simp: transport_request_eq[OF assms(2)] queue_push_def wake_connection_def Let_def)
next
  case False
  have "entry_queue e < length (queues (mgr s))" using assms(1,2) by (simp add: routes_def manager_wf_def)
  then obtain k where k: "k < length (connections s)" "c_queue (connections s ! k) = Some (entry_queue e)"
    "c_pc (connections s ! k) = Waiting" "\<not> c_signalled (connections s ! k)"
    "queue_entries (queues (mgr s) ! entry_queue e) = [\<lparr>q_event = k, q_item = ()\<rparr>]"
    by (rule routes_parked[OF assms(1) _ False])
  then show ?thesis
    using assms(3)
    by (intro handed[of k]) (auto simp: transport_request_eq[OF assms(2)] queue_push_def wake_connection_def Let_def)
qed

lemma belongs_transport:
  assumes "transport_step b s (Inr s')" and "routes s" and "belongs own s"
  shows "\<exists>more. belongs (own @ more) s'"
  using assms(1)
proof (cases rule: transport_step.cases)
  case (connect client)
  have lt: "entry_queue e < length own" if "conns (mgr s) i = Some e" for i e
    using that assms(2,3) by (auto simp: routes_def manager_wf_def belongs_def)
  have "the (c_queue c) < length own" if c: "c \<in> set (connections s)" for c
  proof -
    obtain k where "k < length (connections s)" "c = connections s ! k" using c by (auto simp: in_set_conv_nth)
    then have "conn_state (queues (mgr s)) k c" using assms(2) by (simp add: routes_def)
    then show ?thesis using assms(3) by (auto simp: conn_state_def belongs_def)
  qed
  then have "belongs (own @ [client]) s'"
    using connect assms(3) lt
    by (auto simp: transport_connect_eq add_conn_eq belongs_def nth_append less_Suc_eq mk_item_queue_def
        split: option.splits if_splits)
  then show ?thesis by blast
next
  case (disconnects client)
  have "belongs own s'"
    using assms(3) by (simp add: belongs_def transport_disconnect_eq[OF disconnects(1)[symmetric]])
  then show ?thesis by (intro exI[of _ "[]"]) simp
next
  case (request client message)
  then obtain e where e: "conns (mgr s) client = Some e" by auto
  let ?j = "entry_queue e"
  let ?r = "\<lparr>conn_id = client, rq_msg = Some message, rq_ctx = length (contexts s)\<rparr>"
  have j: "?j < length own" "own ! ?j = client"
    using e assms(2,3) by (auto simp: routes_def manager_wf_def belongs_def)
  have old: "conn_id r = own ! ?j" if "r \<in> set (items (queues (mgr s) ! ?j))" for r
    using that assms(3) j(1) unfolding belongs_def by blast
  have "belongs own s'"
    using assms(2) e request(1)[symmetric]
  proof (cases rule: transport_request_cases)
    case stored
    show ?thesis
      by (rule belongs_set_queue[OF assms(3) j(1) _ stored(2)])
        (use old j(2) stored(3) assms(3) in \<open>auto simp: belongs_def\<close>)
  next
    case (handed k)
    show ?thesis
    proof (rule belongs_set_queue[OF assms(3) j(1) _ handed(5)])
      show "conn_id r = own ! ?j" if "r \<in> set (items ((queues (mgr s) ! ?j)\<lparr>queue_entries := []\<rparr>))" for r
        using that old by simp
      show "conn_id r = own ! the (c_queue c)" if "c \<in> set (connections s')" "c_pl c = Some r" for c r
        using that(1)[unfolded handed(6)] that(2)
        by (rule belongs_connection[OF assms(3)]) (use handed(2) j(2) in auto)
    qed
  qed
  then show ?thesis by (intro exI[of _ "[]"]) simp
qed

lemma belongs_internal:
  assumes "internal_step b A Q R svcs s (Inr s')" and "routes s" and "belongs own s"
  shows "belongs own s'"
  using assms(1)
proof (cases rule: internal_step.cases)
  case accept_conn
  then show ?thesis
    by (intro belongs_moves[OF assms(3)])
      (simp_all add: listener_accept_def mgr_async_pop_def Let_def case_prod_unfold)
next
  case accepted_conn
  show ?thesis
    using accepted_conn(1)[symmetric] assms(3)
    by (auto simp: listener_wakes_def ebind_Inr_iff belongs_def)
next
  case (accept_request k)
  let ?c = "connections s ! k"
  show ?thesis
  proof (rule connection_accept_eq[OF assms(2) accept_request(2,3), of b])
    fix j
    let ?q = "queues (mgr s) ! j"
    assume j: "c_queue ?c = Some j" "j < length (queues (mgr s))" and pl: "c_pl ?c = None"
      and eq: "connection_accept b k s =
        (if items ?q = []
         then Inr (s\<lparr>mgr := (mgr s)\<lparr>queues := (queues (mgr s))[j :=
                       ?q\<lparr>queue_entries := [\<lparr>q_event = k, q_item = ()\<rparr>]\<rparr>]\<rparr>,
                     connections := (connections s)[k := ?c\<lparr>c_signalled := False, c_pc := Waiting\<rparr>]\<rparr>)
         else Inr (s\<lparr>mgr := (mgr s)\<lparr>queues := (queues (mgr s))[j := ?q\<lparr>items := butlast (items ?q)\<rparr>]\<rparr>,
                     connections := (connections s)[k := ?c\<lparr>c_pc := Waiting,
                         c_pl := Some (last (items ?q)), c_signalled := True\<rparr>]\<rparr>))"
    have jo: "j < length own" using j(2) assms(3) by (simp add: belongs_def)
    have old: "conn_id r = own ! j" if "r \<in> set (items ?q)" for r
      using that assms(3) jo unfolding belongs_def by blast
    show ?thesis
    proof (cases "items ?q = []")
      case True
      then have s': "s' = s\<lparr>mgr := (mgr s)\<lparr>queues := (queues (mgr s))[j :=
                       ?q\<lparr>queue_entries := [\<lparr>q_event = k, q_item = ()\<rparr>]\<rparr>]\<rparr>,
                     connections := (connections s)[k := ?c\<lparr>c_signalled := False, c_pc := Waiting\<rparr>]\<rparr>"
        using eq accept_request(1) by simp
      show ?thesis
      proof (rule belongs_set_queue[OF assms(3) jo])
        show "conn_id r = own ! the (c_queue c)" if "c \<in> set (connections s')" "c_pl c = Some r" for c r
          by (rule belongs_connection[OF assms(3), of c k "?c\<lparr>c_signalled := False, c_pc := Waiting\<rparr>"])
            (use that pl in \<open>simp_all add: s'\<close>)
      qed (use old in \<open>auto simp: s'\<close>)
    next
      case False
      let ?c' = "?c\<lparr>c_pc := Waiting, c_pl := Some (last (items ?q)), c_signalled := True\<rparr>"
      have s': "s' = s\<lparr>mgr := (mgr s)\<lparr>queues := (queues (mgr s))[j := ?q\<lparr>items := butlast (items ?q)\<rparr>]\<rparr>,
                     connections := (connections s)[k := ?c']\<rparr>"
        using False eq accept_request(1) by simp
      show ?thesis
      proof (rule belongs_set_queue[OF assms(3) jo])
        show "conn_id r = own ! the (c_queue c)" if "c \<in> set (connections s')" "c_pl c = Some r" for c r
          by (rule belongs_connection[OF assms(3), of c k ?c'])
            (use that old[OF last_in_set[OF False]] j(1) in \<open>auto simp: s'\<close>)
      qed (use old in \<open>auto simp: s' dest: in_set_butlastD\<close>)
    qed
  qed
next
  case (accepted_request k)
  let ?c = "(connections s ! k)\<lparr>c_pl := None, c_pc := Accepting\<rparr>"
  obtain r where s': "s' = s\<lparr>connections := (connections s)[k := ?c], spawned := spawned s @ [r]\<rparr>"
    using accepted_request(1)[symmetric] by (auto simp: connection_wakes_def ebind_Inr_iff Let_def)
  show ?thesis
    using assms(3) belongs_connection[OF assms(3), of _ k ?c] by (simp add: belongs_def s')
next
  case (handler_runs i)
  show ?thesis
    using handler_runs(1)[symmetric] assms(3)
    by (auto simp: handle_request_def ebind_Inr_iff Let_def belongs_def)
qed

lemma belongs_runs:
  assumes "(server_step b A Q R svcs)\<^sup>*\<^sup>* s t" and "server_ok b A Q R svcs s" and "belongs own s"
  shows "\<exists>more. belongs (own @ more) t"
  using assms(1)
proof (induction rule: rtranclp_induct)
  case base
  then show ?case using assms(3) by (intro exI[of _ "[]"]) simp
next
  case (step t t')
  then obtain more where m: "belongs (own @ more) t" by blast
  have "routes t" using server.runs_refine[OF step.hyps(1) assms(2)] by (simp add: server_ok_def)
  then show ?case
    using step.hyps(2) belongs_internal[OF _ _ m, of b A Q R svcs t'] belongs_transport[OF _ _ m, of b t'] m
    unfolding server_step_def by (metis append.assoc)
qed

section \<open>The connection of a client that has gone\<close>

text \<open>
  A connection that waits, and whose queue no client of the table refers to: nobody can give it a
  request, and its coroutine never ends.
\<close>

definition orphaned :: "nat \<Rightarrow> 'u server \<Rightarrow> bool" where
  "orphaned k s \<longleftrightarrow>
     k < length (connections s) \<and> c_pc (connections s ! k) = Waiting \<and> \<not> c_signalled (connections s ! k) \<and>
     (\<forall>i e. conns (mgr s) i = Some e \<longrightarrow> c_queue (connections s ! k) \<noteq> Some (entry_queue e))"

lemma orphaned_transport:
  assumes "transport_step b s (Inr s')" and "routes s" and "orphaned k s"
  shows "orphaned k s' \<and> connections s' ! k = connections s ! k"
  using assms(1)
proof (cases rule: transport_step.cases)
  case (connect client)
  have "c_queue (connections s ! k) \<noteq> Some (length (queues (mgr s)))"
    using assms(2,3) by (auto simp: routes_def orphaned_def conn_state_def)
  then show ?thesis
    using connect assms(3) by (auto simp: transport_connect_eq add_conn_eq orphaned_def split: option.splits if_splits)
next
  case (disconnects client)
  show ?thesis
    using assms(3) unfolding transport_disconnect_eq[OF disconnects(1)[symmetric]]
    by (simp add: orphaned_def)
next
  case (request client message)
  then obtain e where e: "conns (mgr s) client = Some e" by auto
  show ?thesis
    using assms(2) e request(1)[symmetric]
  proof (cases rule: transport_request_cases)
    case stored
    then show ?thesis using assms(3) by (simp add: orphaned_def)
  next
    case (handed k')
    then have "k' \<noteq> k" using assms(3) e by (auto simp: orphaned_def)
    then show ?thesis using handed assms(3) by (simp add: orphaned_def)
  qed
qed

lemma orphaned_internal:
  assumes "internal_step b A Q R svcs s (Inr s')" and "routes s" and "orphaned k s"
  shows "orphaned k s' \<and> connections s' ! k = connections s ! k"
  using assms(1)
proof (cases rule: internal_step.cases)
  case accept_conn
  then show ?thesis
    using assms(3) by (simp add: orphaned_def listener_accept_def mgr_async_pop_def Let_def case_prod_unfold)
next
  case accepted_conn
  show ?thesis
    using accepted_conn(1)[symmetric] assms(3)
    by (auto simp: listener_wakes_def ebind_Inr_iff orphaned_def nth_append)
next
  case (accept_request k')
  then have "k' \<noteq> k" using assms(3) by (auto simp: orphaned_def)
  then show ?thesis
    using connection_accept_eq[OF assms(2) accept_request(2,3), of b] accept_request(1) assms(3)
    by (fastforce simp: orphaned_def split: if_splits)
next
  case (accepted_request k')
  then have "k' \<noteq> k" using assms(3) by (auto simp: orphaned_def)
  then show ?thesis
    using accepted_request(1)[symmetric] assms(3)
    by (auto simp: connection_wakes_def ebind_Inr_iff Let_def orphaned_def)
next
  case (handler_runs i)
  show ?thesis
    using handler_runs(1)[symmetric] assms(3)
    by (auto simp: handle_request_def ebind_Inr_iff Let_def orphaned_def)
qed

lemma orphaned_runs:
  assumes "(server_step b A Q R svcs)\<^sup>*\<^sup>* s t" and "server_ok b A Q R svcs s" and "orphaned k s"
  shows "orphaned k t \<and> connections t ! k = connections s ! k"
  using assms(1)
proof (induction rule: rtranclp_induct)
  case base
  then show ?case using assms(3) by simp
next
  case (step t t')
  have "routes t" using server.runs_refine[OF step.hyps(1) assms(2)] by (simp add: server_ok_def)
  then show ?case
    using step orphaned_internal[of b A Q R svcs t t' k] orphaned_transport[of b t t' k]
    by (auto simp: server_step_def)
qed

text \<open>A disconnect makes an orphan of a connection that waits.\<close>

lemma disconnect_orphans:
  assumes "routes s" and "conns (mgr s) client = Some e"
    and "k < length (connections s)" and "c_queue (connections s ! k) = Some (entry_queue e)"
    and "c_pc (connections s ! k) = Waiting" and "\<not> c_signalled (connections s ! k)"
    and "transport_disconnect b client s = Inr s'"
  shows "orphaned k s'" and "connections s' = connections s"
proof -
  note s' = transport_disconnect_eq[OF assms(7)]
  have "i = client" if "conns (mgr s) i = Some e'" "entry_queue e' = entry_queue e" for i e'
    using that assms(1,2) unfolding routes_def manager_wf_def by blast
  then show "orphaned k s'" using assms(3-6) by (force simp: orphaned_def s')
  show "connections s' = connections s" by (simp add: s')
qed

end
