(* ===== verification/Client_Request.thy ===== *)
theory Client_Request
  imports Client_Connection
begin

text \<open>
  One \<open>async_send\<close> of \<open>basic_client_connection\<close> as a state machine: the thread that runs the
  operation \<open>async_req_op\<close>, and the transport's thread that invokes \<open>private_callback\<close>, at any
  time from the call of \<open>BeginRequest\<close> on, also before that call has returned.  The function
  \<open>async_req_op\<close> of theory \<open>Client_Connection\<close> is its specification.
\<close>

section \<open>State and steps\<close>

datatype op_pc =
    Starting
  | Calling
  | Awaiting
  | Completed "HRESULT \<times> IFabricTransportMessage option"

record ('x, 'w) client_op =
  op_at :: op_pc
  op_callback :: private_callback
  op_event :: basic_event
  op_begun :: "HRESULT \<times> 'x option"
  op_notified :: bool
  op_world :: 'w

text \<open>
  The constructor makes the callback, and the callback its event.  \<open>op_begun\<close> is what
  \<open>BeginRequest\<close> has returned; nothing reads it before.
\<close>

definition mk_client_op :: "'w \<Rightarrow> ('x, 'w) client_op" where
  "mk_client_op w =
     (let (cb, ev) = mk_private_callback
      in \<lparr>op_at = Starting, op_callback = cb, op_event = ev, op_begun = (S_OK, None),
          op_notified = False, op_world = w\<rparr>)"

definition op_begin ::
    "build \<Rightarrow> ('x, 'w) IFabricTransportClient \<Rightarrow> IFabricTransportMessage \<Rightarrow> ('x, 'w) client_op \<Rightarrow>
     ('x, 'w) client_op exec" where
  "op_begin b client req s =
     ebind (private_callback_get_event b (op_callback s)) (\<lambda>_.
     let (begun, w) = BeginRequest client req 1000 (op_world s)
     in Inr (s\<lparr>op_at := Calling, op_begun := begun, op_world := w\<rparr>))"

definition op_return :: "('x, 'w) client_op \<Rightarrow> ('x, 'w) client_op" where
  "op_return s =
     (let hr = fst (op_begun s)
      in s\<lparr>op_at := if hr \<noteq> S_OK then Completed (hr, None) else Awaiting\<rparr>)"

text \<open>The handler of \<open>async_wait\<close>, with the error code of the wait.\<close>

definition op_wait_handler ::
    "('x, 'w) IFabricTransportClient \<Rightarrow> HRESULT \<Rightarrow> ('x, 'w) client_op \<Rightarrow> ('x, 'w) client_op" where
  "op_wait_handler client ec s =
     (if ec \<noteq> 0 then s\<lparr>op_at := Completed (ec, None)\<rparr>
      else
        let ((hr, reply), w) = EndRequest client (snd (op_begun s)) (op_world s)
        in s\<lparr>op_at := Completed (if hr \<noteq> S_OK then hr else ec, reply), op_world := w\<rparr>)"

definition op_invoked :: "build \<Rightarrow> ('x, 'w) client_op \<Rightarrow> ('x, 'w) client_op exec" where
  "op_invoked b s =
     ebind (private_callback_Invoke b (op_callback s) (op_event s)) (\<lambda>(cb, ev).
     Inr (s\<lparr>op_callback := cb, op_event := ev, op_notified := True\<rparr>))"

text \<open>
  The transport invokes the callback of a request that it has accepted, and once; a wait may fail.
\<close>

inductive op_step ::
    "build \<Rightarrow> ('x, 'w) IFabricTransportClient \<Rightarrow> IFabricTransportMessage \<Rightarrow> ('x, 'w) client_op \<Rightarrow>
     ('x, 'w) client_op exec \<Rightarrow> bool"
  for b :: build and client :: "('x, 'w) IFabricTransportClient" and req :: IFabricTransportMessage
where
  begins: "op_at s = Starting \<Longrightarrow> op_step b client req s (op_begin b client req s)"
| returned: "op_at s = Calling \<Longrightarrow> op_step b client req s (Inr (op_return s))"
| woken: "op_at s = Awaiting \<Longrightarrow> event_wakes (op_event s) \<Longrightarrow>
    op_step b client req s (Inr (op_wait_handler client 0 s))"
| wait_failed: "op_at s = Awaiting \<Longrightarrow> ec \<noteq> 0 \<Longrightarrow>
    op_step b client req s (Inr (op_wait_handler client ec s))"
| invoked: "op_at s \<noteq> Starting \<Longrightarrow> fst (op_begun s) = S_OK \<Longrightarrow> \<not> op_notified s \<Longrightarrow>
    op_step b client req s (op_invoked b s)"

inductive op_reachable ::
    "build \<Rightarrow> ('x, 'w) IFabricTransportClient \<Rightarrow> IFabricTransportMessage \<Rightarrow> 'w \<Rightarrow>
     ('x, 'w) client_op exec \<Rightarrow> bool"
  for b :: build and client :: "('x, 'w) IFabricTransportClient" and req :: IFabricTransportMessage
    and w :: 'w
where
  made: "op_reachable b client req w (Inr (mk_client_op w))"
| stepped: "op_reachable b client req w (Inr s) \<Longrightarrow> op_step b client req s r \<Longrightarrow>
    op_reachable b client req w r"

section \<open>Invariant\<close>

text \<open>
  The event is set and given up together with the notification; a completed operation has the
  result of the specification, for the error code of the wait, and has not fetched the reply of a
  request before the transport announced it.
\<close>

definition op_result ::
    "('x, 'w) IFabricTransportClient \<Rightarrow> IFabricTransportMessage \<Rightarrow> 'w \<Rightarrow> ('x, 'w) client_op \<Rightarrow>
     HRESULT \<times> IFabricTransportMessage option \<Rightarrow> bool" where
  "op_result client req w s res \<longleftrightarrow>
     (\<exists>ec. async_req_op client 0 ec req w = (res, op_world s) \<and>
       (ec = 0 \<longrightarrow> fst (op_begun s) = S_OK \<longrightarrow> op_notified s))"

definition op_inv ::
    "('x, 'w) IFabricTransportClient \<Rightarrow> IFabricTransportMessage \<Rightarrow> 'w \<Rightarrow> ('x, 'w) client_op \<Rightarrow> bool" where
  "op_inv client req w s \<longleftrightarrow>
     has_ev (op_callback s) = (\<not> op_notified s) \<and> op_event s = op_notified s \<and>
     (op_notified s \<longrightarrow> fst (op_begun s) = S_OK) \<and>
     (case op_at s of
        Starting \<Rightarrow> op_world s = w \<and> \<not> op_notified s
      | Calling \<Rightarrow> BeginRequest client req 1000 w = (op_begun s, op_world s)
      | Awaiting \<Rightarrow> BeginRequest client req 1000 w = (op_begun s, op_world s) \<and> fst (op_begun s) = S_OK
      | Completed res \<Rightarrow>
          fst (fst (BeginRequest client req 1000 w)) = fst (op_begun s) \<and> op_result client req w s res)"

lemma op_result_notified:
  assumes "op_result client req w s res" and "op_world s' = op_world s" and "op_notified s'"
  shows "op_result client req w s' res"
  using assms unfolding op_result_def by metis

lemma op_inv_made: "op_inv client req w (mk_client_op w)"
  by (simp add: op_inv_def mk_client_op_def mk_private_callback_def)

lemma op_inv_step:
  assumes "op_inv client req w s" and "op_step b client req s r"
  shows "\<exists>s'. r = Inr s' \<and> op_inv client req w s'"
  using assms(2)
proof (cases rule: op_step.cases)
  case begins
  obtain begun w' where "BeginRequest client req 1000 w = (begun, w')" by (rule prod.exhaust)
  then show ?thesis
    using assms(1) begins
    by (auto simp: op_begin_def op_inv_def private_callback_get_event_def cxx_assert_cong)
next
  case returned
  obtain hr ctx where "op_begun s = (hr, ctx)" by (rule prod.exhaust)
  then show ?thesis
    using assms(1) returned
    by (auto simp: op_return_def op_inv_def op_result_def async_req_op_def Let_def)
next
  case woken
  obtain hr reply w' where "EndRequest client (snd (op_begun s)) (op_world s) = ((hr, reply), w')"
    by (metis prod.exhaust)
  moreover obtain ctx where "op_begun s = (S_OK, ctx)"
    using assms(1) woken by (cases "op_begun s") (auto simp: op_inv_def)
  ultimately show ?thesis
    using assms(1) woken
    by (auto simp: op_wait_handler_def op_inv_def op_result_def async_req_op_def intro!: exI[of _ 0])
next
  case (wait_failed ec)
  moreover obtain ctx where "op_begun s = (S_OK, ctx)"
    using assms(1) wait_failed by (cases "op_begun s") (auto simp: op_inv_def)
  ultimately show ?thesis
    using assms(1)
    by (auto simp: op_wait_handler_def op_inv_def op_result_def async_req_op_def intro!: exI[of _ ec])
next
  case invoked
  then have ev: "has_ev (op_callback s)" using assms(1) by (simp add: op_inv_def)
  have "op_invoked b s = Inr (s\<lparr>op_callback := (op_callback s)\<lparr>has_ev := False\<rparr>, op_event := True, op_notified := True\<rparr>)"
    using ev by (simp add: op_invoked_def private_callback_Invoke_def ev_pointer_def cxx_assert_cong)
  then have r: "r = Inr (s\<lparr>op_callback := (op_callback s)\<lparr>has_ev := False\<rparr>, op_event := True, op_notified := True\<rparr>)"
    using invoked(1) by simp
  let ?s = "s\<lparr>op_callback := (op_callback s)\<lparr>has_ev := False\<rparr>, op_event := True, op_notified := True\<rparr>"
  have "op_inv client req w ?s"
  proof (cases "op_at s")
    case (Completed res)
    then have "op_result client req w s res" using assms(1) unfolding op_inv_def by simp
    then have "op_result client req w ?s res" by (rule op_result_notified) simp_all
    then show ?thesis using Completed assms(1) invoked(3) unfolding op_inv_def by simp
  qed (use assms(1) invoked(2,3) in \<open>simp_all add: op_inv_def\<close>)
  then show ?thesis using r by blast
qed

lemma op_reachable_inv:
  assumes "op_reachable b client req w r"
  shows "\<exists>s. r = Inr s \<and> op_inv client req w s"
  using assms
proof induction
  case made
  then show ?case by (simp add: op_inv_made)
next
  case (stepped s r)
  then show ?case using op_inv_step[of client req w s b r] by auto
qed

section \<open>Progress\<close>

text \<open>The steps that are left, at most.\<close>

definition op_left :: "('x, 'w) client_op \<Rightarrow> nat" where
  "op_left s =
     (case op_at s of Starting \<Rightarrow> 3 | Calling \<Rightarrow> 2 | Awaiting \<Rightarrow> 1 | Completed _ \<Rightarrow> 0) +
     (if op_notified s then 0 else 1)"

lemma op_left_step:
  assumes "op_step b client req s (Inr s')"
  shows "op_left s' < op_left s"
  using assms
proof (cases rule: op_step.cases)
  case begins
  show ?thesis
    using begins(1)[symmetric] begins(2)
    by (auto simp: op_begin_def op_left_def ebind_Inr_iff Let_def case_prod_unfold)
next
  case woken
  then show ?thesis by (simp add: op_wait_handler_def op_left_def case_prod_unfold Let_def)
next
  case (wait_failed ec)
  then show ?thesis by (simp add: op_wait_handler_def op_left_def)
next
  case invoked
  show ?thesis
    using invoked(1)[symmetric] invoked(4) by (auto simp: op_invoked_def op_left_def ebind_Inr_iff)
qed (simp add: op_return_def op_left_def Let_def)

lemma op_left_runs:
  assumes "((\<lambda>s s'. op_step b client req s (Inr s')) ^^ n) s t"
  shows "n + op_left t \<le> op_left s"
  using assms
proof (induction n arbitrary: t)
  case (Suc n)
  then obtain u where u: "((\<lambda>s s'. op_step b client req s (Inr s')) ^^ n) s u" "op_step b client req u (Inr t)"
    by auto
  show ?case using Suc.IH[OF u(1)] op_left_step[OF u(2)] by simp
qed simp

text \<open>An operation that is not complete can move; so one that cannot move is complete.\<close>

lemma op_progress:
  assumes "op_inv client req w s" and "\<And>r. \<not> op_step b client req s r"
  shows "\<exists>res. op_at s = Completed res"
proof (cases "op_at s")
  case Awaiting
  then have "\<not> op_notified s"
    using assms(1) op_step.woken[of s b client req] assms(2) by (auto simp: op_inv_def)
  moreover have "fst (op_begun s) = S_OK" using Awaiting assms(1) by (simp add: op_inv_def)
  ultimately show ?thesis using Awaiting op_step.invoked[of s b client req] assms(2) by auto
qed (use assms(2) op_step.begins[of s b client req] op_step.returned[of s b client req] in auto)

text \<open>The callback must not be invoked twice: the second invocation has no event.\<close>

lemma op_invoked_twice:
  assumes "op_inv client req w s" and "op_notified s"
  shows "\<not> returns (op_invoked b s)"
  using assms by (cases b) (auto simp: op_inv_def op_invoked_def private_callback_Invoke_def ev_pointer_def cxx_assert_def)

lemma op_runs_inv:
  assumes "((\<lambda>s s'. op_step b client req s (Inr s')) ^^ n) (mk_client_op w) t"
  shows "op_inv client req w t"
  using assms
proof (induction n arbitrary: t)
  case 0
  then show ?case using op_inv_made[of client req w] by auto
next
  case (Suc n)
  then show ?case using op_inv_step[of client req w _ b "Inr t"] by auto
qed

end
