(* ===== verification/Rpc2_Properties.thy ===== *)
theory Rpc2_Properties
  imports Acceptor Server_Isolation Client_Request
begin

text \<open>
  The properties of src/fabric_rpc2: what a remote call computes, how the server accounts for
  every request under any interleaving with the transport, and the behaviour of the queue, the
  connection table, the router and the status headers, each applied at a concrete instance.
\<close>

section \<open>A concrete server\<close>

definition demo_SayHello :: "string \<Rightarrow> unit \<Rightarrow> ((int \<times> string) \<times> string) \<times> unit" where
  "demo_SayHello name u = (((0, ''''), ''Hello'' @ name), u)"

definition demo_handlers :: "(int \<times> string, unit) generated_handler list" where
  "demo_handlers =
     [\<lparr>gh_name = ''SayHello'',
       gh_run = (\<lambda>req resp. codegen_handler_helper pair_absl text_codec text_codec req resp demo_SayHello)\<rparr>]"

definition demo_hello :: "(int \<times> string, unit) service" where
  "demo_hello = generated2_service pair_absl ''helloworld'' ''FabricHello'' demo_handlers"

lemma text_codec_ok [simp]:
  "codec_laws text_codec" "length t < 128 \<Longrightarrow> roundtrips text_codec t"
  by (simp add: text_codec_def) (simp add: text_codec_def, simp add: string_field_def)

lemma demo_sendable [simp]:
  assumes "0 \<le> c" and "c \<le> 20" and "length m < 128" and "c = 0 \<longrightarrow> m = ''''"
  shows "sendable_status pair_absl reply_header_codec (c, m)"
  using assms by (simp add: sendable_status_def status_header_def)

lemma demo_ready [simp]: "replies_ready pair_absl reply_header_codec"
  by (simp add: replies_ready_def reply_header_codec_def)

section \<open>A remote call is the service's function\<close>

lemma service_call_inner:
  assumes "absl_laws A" and "codec_laws Q" and "codec_laws P" and "codec_laws P'"
    and "roundtrips Q \<lparr>url = u\<rparr>" and "roundtrips P request"
    and "find (\<lambda>svc. starts_with (tl u) (svc_name svc)) svcs =
           Some (generated2_service A package service hs)"
    and "handler_table package service hs u = Some (\<lambda>req resp. codegen_handler_helper A P P' req resp fn)"
    and "fn request st = ((ec, reply), st')"
    and "sendable_status A R ec" and "st_ok A ec \<Longrightarrow> roundtrips P' reply"
  shows "middleware_execute_inner A Q svcs (Some (tool_message (SerializeAsString P request)
      (SerializeAsString Q \<lparr>url = u\<rparr>))) '''' st =
    Inr ((ec, if st_ok A ec then wire P' reply else ''''), st')"
proof -
  let ?hs = "wire Q \<lparr>url = u\<rparr>" and ?ps = "wire P request"
  let ?resp = "if st_ok A ec then wire P' reply else ''''"
  have "\<exists>h \<in> set hs. u = method_url package service (gh_name h)"
    using map_of_SomeD[OF assms(8)[unfolded handler_table_def]] by auto
  then obtain p where u: "u = CHR ''/'' # p" by (auto simp: method_url_def)
  have eq: "ec = OkStatus A" if "st_ok A ec"
    using that assms(1,10) absl_lawsD[OF assms(1)] by (auto simp: sendable_status_def)
  note q = roundtripsD[OF assms(2,5)] and p = roundtripsD[OF assms(3,6)]
  have hdr: "parse_request_header A Q (header_text (tool_message ?ps ?hs)) '''' = (OkStatus A, CHR ''/'' # p)"
    using q p u by (simp add: parse_request_header_def)
  have run: "generated_execute A package service hs u ?ps '''' st = ((ec, ?resp), st')"
    using assms(8,9,11) codegen_handler_helper_wire[OF assms(1,3,6), of P' "Some ''''" fn st]
      roundtripsD[OF assms(4), of reply] eq
    by (auto simp: generated2.known serialize_proto_payload_def)
  show ?thesis
    using middleware_execute_routes[OF _ hdr assms(1), of svcs "''''" st] q p assms(7) run u
    by (simp add: middleware_dispatch_find generated2_service_def)
qed

text \<open>
  A remote call of the second library.  The client's \<open>rpc_client\<close> serializes the request, the
  middleware finds the service and the generated \<open>execute\<close> the method, the user's function runs,
  and the reply travels back through the context, \<open>EndProcessRequest\<close> and the client's parser:
  the caller ends with the status of the user's function, with its reply object exactly when that
  status is OK, and the services are in the state the function left.
\<close>

lemma rpc2_call_is_service_call:
  assumes "absl_laws A" and "codec_laws Q" and "codec_laws R" and "codec_laws P" and "codec_laws P'"
    and "roundtrips Q \<lparr>url = u\<rparr>" and "roundtrips P request"
    and "find (\<lambda>svc. starts_with (tl u) (svc_name svc)) svcs =
           Some (generated2_service A package service hs)"
    and "handler_table package service hs u = Some (\<lambda>req resp. codegen_handler_helper A P P' req resp fn)"
    and "fn request st = ((ec, reply), st')"
    and "sendable_status A R ec" and "st_ok A ec \<Longrightarrow> roundtrips P' reply"
  shows "rpc2_call b A Q R P P' svcs u request st =
         Inr ((0, ec, if st_ok A ec then Some reply else None), st')"
proof -
  let ?resp = "if st_ok A ec then wire P' reply else ''''"
  have eq: "ec = OkStatus A" if "st_ok A ec"
    using that assms(1,11) absl_lawsD[OF assms(1)] by (auto simp: sendable_status_def)
  note inner = service_call_inner[OF assms(1,2,4-12)]
  have len: "length ?resp < 2 ^ 32"
    using assms(12) roundtripsD(5)[OF assms(5), of reply] by (cases "st_ok A ec") auto
  show ?thesis
    using rpc2_call_via_execute[OF inner assms(1,3,11) len, of b P'] assms(12) eq
      roundtripsD(3)[OF assms(5), of reply]
    by (auto simp: parse_proto_payload_def)
qed

lemma rpc2_call_is_service_call_witness:
  "rpc2_call Debug pair_absl request_header_codec reply_header_codec text_codec text_codec [demo_hello]
     ''/helloworld.FabricHello/SayHello'' ''bob'' () = Inr ((0, (0, ''''), Some ''Hellobob''), ())"
  using rpc2_call_is_service_call[where A = pair_absl and Q = request_header_codec and R = reply_header_codec
      and P = text_codec and P' = text_codec and u = "''/helloworld.FabricHello/SayHello''"
      and request = "''bob''" and svcs = "[demo_hello]" and package = "''helloworld''"
      and service = "''FabricHello''" and hs = demo_handlers and fn = demo_SayHello and b = Debug
      and st = "()" and ec = "(0, '''')" and reply = "''Hellobob''" and st' = "()"]
  by (simp add: demo_hello_def generated2_service_def generated_name_def starts_with_def handler_table_def
      demo_handlers_def method_url_def package_prefix_def demo_SayHello_def)

section \<open>The server accounts for every request\<close>

text \<open>
  C8: safety of the server.  In every state that its thread and the transport's threads can
  reach, whatever their order, no assertion has failed and no null pointer has been read; every
  request that was posted is in exactly one place, a queue, a connection or a handler, or has
  been answered; no callback is invoked twice; and what the transport then fetches for a request
  is the reply the middleware computed for its message.
\<close>

theorem server_accounts_for_requests:
  assumes "server_reachable b A Q R svcs u r" and "replies_ready A R"
  shows "\<exists>s. r = Inr s \<and>
    pending s + mset (map ((!) (posted s)) (notifications s)) = mset (posted s) \<and>
    distinct (notifications s) \<and>
    (\<forall>n \<in> set (notifications s). \<exists>st reply st'.
       middleware_execute b A Q R svcs (rq_msg (posted s ! n)) st = Inr (reply, st') \<and>
       Msg_EndProcessRequest b (contexts s ! n) = Inr (S_OK, Some reply))"
proof -
  obtain s where s: "r = Inr s" and w: "work_inv b A Q R svcs s"
    using server_reachable_inv[OF assms] by (auto simp: server_inv_def)
  have "pending s + mset (map ((!) (posted s)) (notifications s)) = mset (posted s)"
    using w unfolding work_inv_def by blast
  moreover have "\<forall>n \<in> set (notifications s). \<exists>st reply st'.
       middleware_execute b A Q R svcs (rq_msg (posted s ! n)) st = Inr (reply, st') \<and>
       Msg_EndProcessRequest b (contexts s ! n) = Inr (S_OK, Some reply)"
    using answered_reply[OF w, of _ b] by metis
  ultimately show ?thesis using s notifications_distinct[OF w] by blast
qed

definition demo_request :: IFabricTransportMessage where
  "demo_request = tool_message (wire text_codec ''bob'')
     (wire request_header_codec \<lparr>url = ''/helloworld.FabricHello/SayHello''\<rparr>)"

text \<open>A client connects and sends a request before the server's thread has run at all.\<close>

definition demo_early :: "unit server exec" where
  "demo_early = ebind (transport_connect Debug ''c'' (new_server ())) (transport_request Debug ''c'' demo_request)"

lemma demo_early_reachable:
  "server_reachable Debug pair_absl request_header_codec reply_header_codec [demo_hello] () demo_early"
proof -
  obtain s1 where s1: "transport_connect Debug ''c'' (new_server ()) = Inr s1"
    by (simp add: transport_connect_eq)
  have "conns (mgr s1) ''c'' \<noteq> None"
    using s1 by (auto simp: transport_connect_eq add_conn_eq split: option.splits)
  then have "transport_step Debug s1 (transport_request Debug ''c'' demo_request s1)"
    by (rule transport_step.request) (simp add: demo_request_def)
  moreover have "transport_step Debug (new_server ()) (Inr s1)"
    using transport_step.connect[of Debug "new_server ()" "''c''"] by (simp add: s1)
  ultimately show ?thesis
    using server_reachable.transport[OF server_reachable.transport[OF server_reachable.fresh]]
    by (fastforce simp: demo_early_def s1)
qed

theorem server_accounts_for_requests_witness:
  "\<exists>s. demo_early = Inr s \<and> pending s + mset (map ((!) (posted s)) (notifications s)) = mset (posted s)"
  using server_accounts_for_requests[OF demo_early_reachable demo_ready] by blast

text \<open>
  C4: every request is answered.  From any reachable state the server's own thread can take only
  finitely many steps, at most \<open>load s\<close> of them; it can go on until it is idle; and whenever it is
  idle, every request that was posted, also one of a client that has disconnected since, has been
  answered exactly once, with the reply the middleware computed for it.
\<close>

theorem server_answers_every_request:
  assumes "server_reachable b A Q R svcs u (Inr s)" and "replies_ready A R"
  shows "(\<exists>n s'. server_runs b A Q R svcs n s s' \<and> server_idle b A Q R svcs s') \<and>
    (\<forall>n s'. server_runs b A Q R svcs n s s' \<longrightarrow>
       n + load s' \<le> load s \<and>
       (server_idle b A Q R svcs s' \<longrightarrow> all_answered b A Q R svcs s'))"
proof -
  have inv: "routes s" "work_inv b A Q R svcs s"
    using server_reachable_inv[OF assms] by (auto simp: server_inv_def)
  then show ?thesis
    using server_drains[OF inv assms(2)] internal_steps_inv[OF _ inv assms(2)] idle_answered
    unfolding server_runs_def by metis
qed

theorem server_answers_every_request_witness:
  "\<exists>s n s'. demo_early = Inr s \<and>
     server_runs Debug pair_absl request_header_codec reply_header_codec [demo_hello] n s s' \<and>
     all_answered Debug pair_absl request_header_codec reply_header_codec [demo_hello] s'"
proof -
  obtain s where s: "demo_early = Inr s"
    using server_reachable_inv[OF demo_early_reachable demo_ready] by (auto simp: server_inv_def)
  show ?thesis
    using server_answers_every_request[OF demo_early_reachable[unfolded s] demo_ready] s by blast
qed

section \<open>Connections and their queues\<close>

text \<open>
  C22: requests are routed by client.  A request of a connected client is stored in the queue of
  that client, or handed to the one who waits there, and no other client's queue is touched; a
  request of a client that is not in the table, one that never connected or has disconnected,
  ends the process, in either build.
\<close>

theorem requests_routed_by_client:
  assumes "manager_wf m"
  shows "case conns m (conn_id r) of
      None \<Rightarrow> post_request r m = Inl (Terminated ''post_request: conns_.at'')
    | Some e \<Rightarrow> \<exists>m' h. post_request r m = Inr (m', h) \<and> manager_wf m' \<and> conns m' = conns m \<and>
        queue_stored (queues m ! entry_queue e) + {#r#} =
          queue_stored (queues m' ! entry_queue e) + item_queue.delivered h \<and>
        (\<forall>j d. conns m j = Some d \<and> j \<noteq> conn_id r \<longrightarrow>
           queues m' ! entry_queue d = queues m ! entry_queue d)"
proof (cases "conns m (conn_id r)")
  case None
  then show ?thesis by (simp add: post_request_def get_conn_id_def)
next
  case (Some e)
  let ?q = "queues m ! entry_queue e"
  obtain q h where p: "queue_push r ?q = (q, h)" by fastforce
  then have eq: "post_request r m = Inr (m\<lparr>queues := (queues m)[entry_queue e := q]\<rparr>, h)"
    by (simp add: post_request_known[OF Some])
  moreover have "entry_queue e < length (queues m)" using assms Some by (simp add: manager_wf_def)
  ultimately show ?thesis
    using Some manager_wf_post[OF assms eq] item_queue.push_conserves(1)[OF p]
      post_request_isolated[OF assms eq]
    by auto
qed

theorem requests_routed_by_client_witness:
  "post_request \<lparr>conn_id = ''b'', rq_msg = None, rq_ctx = 0\<rparr>
     (fst (add_conn ''a'' (mk_connection_manager :: (nat, unit) connection_manager))) =
   Inl (Terminated ''post_request: conns_.at'')"
  using requests_routed_by_client[OF manager_wf_add_conn[OF manager_wf_new],
      of "\<lparr>conn_id = ''b'', rq_msg = None, rq_ctx = 0\<rparr>" "''a''"]
  by (simp add: add_conn_eq mk_connection_manager_def)

text \<open>
  A client id that connects twice.  The second connection is queued for acceptance with a
  queue of its own, but the table keeps the first: every later request of that id goes to the
  first connection's queue, and the second connection's queue stays empty.
\<close>

lemma duplicate_client_id:
  assumes "manager_wf m" and "conns m i = Some e" and "add_conn i m = (m', h)" and "conn_id r = i"
  shows "item_queue.delivered h + queue_stored (conn_queue m') =
           queue_stored (conn_queue m) + {#\<lparr>entry_conn = i, entry_queue = length (queues m)\<rparr>#} \<and>
         conns m' = conns m \<and>
         (\<exists>m'' w. post_request r m' = Inr (m'', w) \<and>
            queues m'' ! entry_queue e = fst (queue_push r (queues m ! entry_queue e)) \<and>
            queues m'' ! length (queues m) = mk_item_queue)"
proof -
  have c: "conns m' = conns m" by (rule add_conn_duplicate[OF assms(2,3)])
  have j: "entry_queue e < length (queues m)" using assms(1,2) by (simp add: manager_wf_def)
  have q: "queues m' = queues m @ [mk_item_queue]" using assms(3) by (auto simp: add_conn_eq)
  have "queue_push (new_entry i m) (conn_queue m) = (conn_queue m', h)"
    using assms(3) by (auto simp: add_conn_eq)
  from item_queue.push_conserves(1)[OF this] show ?thesis
    using c j q assms(2,4) post_request_known[of m' r e] unfolding new_entry_def
    by (simp add: nth_append add.commute)
qed

lemma duplicate_client_id_witness:
  "let m1 = fst (add_conn ''a'' (mk_connection_manager :: (nat, unit) connection_manager));
       m2 = fst (add_conn ''a'' m1)
   in \<exists>m3 w. post_request \<lparr>conn_id = ''a'', rq_msg = None, rq_ctx = 0\<rparr> m2 = Inr (m3, w) \<and>
        queues m3 ! 1 = mk_item_queue \<and> items (queues m3 ! 0) = [\<lparr>conn_id = ''a'', rq_msg = None, rq_ctx = 0\<rparr>]"
proof -
  let ?m1 = "fst (add_conn ''a'' (mk_connection_manager :: (nat, unit) connection_manager))"
  have c: "conns ?m1 ''a'' = Some \<lparr>entry_conn = ''a'', entry_queue = 0\<rparr>"
    and q: "queues ?m1 = [mk_item_queue]"
    by (simp_all add: add_conn_eq mk_connection_manager_def new_entry_def)
  show ?thesis
    using duplicate_client_id[OF manager_wf_add_conn[OF manager_wf_new] c prod.collapse[symmetric],
        of "\<lparr>conn_id = ''a'', rq_msg = None, rq_ctx = 0\<rparr>"]
    by (auto simp: Let_def q queue_push_def mk_item_queue_def)
qed

text \<open>
  C23: the queue loses and invents nothing.  After any sequence of pushes, pops and cancels on a
  new queue, every pushed item has been handed over once or is still stored, every consumer has
  been woken once, is still parked, or was cancelled, and items and consumers do not wait at the
  same time.
\<close>

theorem queue_conserves:
  "\<exists>gone.
     pushed cs = queue_stored (fst (queue_run cs mk_item_queue)) +
       mset (map h_item (snd (queue_run cs mk_item_queue))) \<and>
     consumers cs = queue_parked (fst (queue_run cs mk_item_queue)) + gone +
       mset (map (\<lambda>w. (h_event w, h_cell w)) (snd (queue_run cs mk_item_queue))) \<and>
     set_mset gone \<subseteq> {w. Cancel (fst w) \<in> set cs} \<and>
     (items (fst (queue_run cs mk_item_queue)) = [] \<or> queue_entries (fst (queue_run cs mk_item_queue)) = [])"
proof -
  have new: "queue_stored mk_item_queue = {#}" "queue_parked mk_item_queue = {#}"
    by (simp_all add: queue_stored_def queue_parked_def mk_item_queue_def)
  have "item_queue.exclusive mk_item_queue" by (simp add: item_queue.exclusive_def new)
  from queue_run_exclusive[OF this, of cs]
  have "items (fst (queue_run cs mk_item_queue)) = [] \<or> queue_entries (fst (queue_run cs mk_item_queue)) = []"
    by (simp add: item_queue.exclusive_def queue_stored_def queue_parked_def)
  with queue_run_items[of mk_item_queue cs] queue_run_consumers[of mk_item_queue cs] show ?thesis
    unfolding new add_0 by blast
qed

text \<open>
  The queue is a stack, on both sides.  Items that were pushed before anybody waited are
  taken newest first, and consumers that waited before anything was pushed are served newest
  first: under load the oldest request waits longest.
\<close>

lemma queue_is_last_in_first_out:
  "snd (queue_run (map Push xs @ map (\<lambda>(e, p). Pop e p) ws) mk_item_queue) =
     map2 (\<lambda>(e, p) x. Handover e p x) ws (rev xs) \<and>
   snd (queue_run (map (\<lambda>(e, p). Pop e p) ws @ map Push xs) mk_item_queue) =
     map2 (\<lambda>(e, p) x. Handover e p x) (rev ws) xs"
proof -
  have 1: "queue_run (map Push xs) mk_item_queue = (\<lparr>items = xs, queue_entries = []\<rparr>, [])"
    using queue_run_pushes[of mk_item_queue xs] by (simp add: mk_item_queue_def)
  have 2: "queue_run (map (\<lambda>(e, p). Pop e p) ws) mk_item_queue =
      (\<lparr>items = [], queue_entries = map (\<lambda>(e, p). \<lparr>q_event = e, q_item = p\<rparr>) ws\<rparr>, [])"
    using queue_run_waits[of mk_item_queue ws] by (simp add: mk_item_queue_def)
  have "map2 (\<lambda>w x. Handover (q_event w) (q_item w) x) (rev (map (\<lambda>(e, p). \<lparr>q_event = e, q_item = p\<rparr>) ws)) xs =
      map2 (\<lambda>(e, p) x. Handover e p x) (rev ws) xs"
    by (simp add: rev_map zip_map1) (auto simp: comp_def split: prod.splits)
  then show ?thesis
    by (simp add: queue_run_append 1 2 queue_run_pops_all queue_run_pushes_all)
qed

section \<open>Routing\<close>

text \<open>
  C35: what the middleware refuses.  A request whose header does not parse, whose URL is empty or
  does not start with a slash, or names no service gets the status of that case and an empty
  body, the services keep their state, and the client concludes that status and no reply.
\<close>

theorem middleware_refuses_request:
  assumes "absl_laws A" and "codec_laws R" and "wf_msg m" and "sendable_status A R ec"
    and "refusal A Q (header_text m) = Some ec \<or>
         refusal A Q (header_text m) = None \<and> ec = UnimplementedError A ''url not found'' \<and>
         (\<forall>h svc. ParseFromString Q (header_text m) = Some h \<longrightarrow> svc \<in> set svcs \<longrightarrow>
            \<not> starts_with (tl (url h)) (svc_name svc))"
  shows "\<exists>reply. middleware_execute b A Q R svcs (Some m) st = Inr (reply, st) \<and>
           body_text reply = '''' \<and> rpc_result A R P' reply = (ec, None) \<and> \<not> st_ok A ec"
proof -
  have inner: "middleware_execute_inner A Q svcs (Some m) '''' st = Inr ((ec, ''''), st)"
    using assms(5)
  proof
    assume "refusal A Q (header_text m) = Some ec"
    then show ?thesis by (rule middleware_refuses[OF assms(1,3)])
  next
    assume r: "refusal A Q (header_text m) = None \<and> ec = UnimplementedError A ''url not found'' \<and>
         (\<forall>h svc. ParseFromString Q (header_text m) = Some h \<longrightarrow> svc \<in> set svcs \<longrightarrow>
            \<not> starts_with (tl (url h)) (svc_name svc))"
    then obtain h p where h: "ParseFromString Q (header_text m) = Some h" and u: "url h = CHR ''/'' # p"
      by (cases "ParseFromString Q (header_text m)")
        (auto simp: refusal_def neq_Nil_conv split: if_splits)
    then have parsed: "parse_request_header A Q (header_text m) '''' = (OkStatus A, CHR ''/'' # p)"
      by (simp add: parse_request_header_def)
    have "find (\<lambda>svc. starts_with p (svc_name svc)) svcs = None"
      using r h u by (auto simp: find_None_iff)
    then show ?thesis
      using middleware_execute_routes[OF assms(3) parsed assms(1), of svcs "''''" st] r
      by (simp add: middleware_dispatch_find)
  qed
  have "raw_code A ec \<noteq> 0"
    using assms(1,5) by (auto simp: refusal_def absl_lawsD split: option.splits if_splits)
  then have nok: "\<not> st_ok A ec" by (simp add: absl_lawsD(3)[OF assms(1)])
  have "length (wire R (status_header A ec)) < 2 ^ 32"
    using assms(4) by (simp add: sendable_status_def roundtrips_def wire_def)
  then show ?thesis
    using middleware_execute_reply[OF inner assms(1,2,4), of b] nok
      parse_reply_header_sendable[OF assms(1,2,4)] by (simp add: rpc_result_def)
qed

theorem middleware_refuses_request_witness:
  "\<exists>reply. middleware_execute Release pair_absl request_header_codec reply_header_codec [demo_hello]
       (Some (tool_message '''' (wire request_header_codec \<lparr>url = ''/x''\<rparr>))) () = Inr (reply, ()) \<and>
     rpc_result pair_absl reply_header_codec text_codec reply = ((12, ''url not found''), None)"
proof -
  let ?m = "tool_message '''' (wire request_header_codec \<lparr>url = ''/x''\<rparr>)"
  have "ParseFromString request_header_codec (header_text ?m) = Some \<lparr>url = ''/x''\<rparr>"
    by (simp add: request_header_codec_def string_field_def read_string_field_def)
  then have none: "refusal pair_absl request_header_codec (header_text ?m) = None \<and>
      (12, ''url not found'') = UnimplementedError pair_absl ''url not found'' \<and>
      (\<forall>h svc. ParseFromString request_header_codec (header_text ?m) = Some h \<longrightarrow>
      svc \<in> set [demo_hello] \<longrightarrow> \<not> starts_with (tl (url h)) (svc_name svc))"
    by (simp add: refusal_def demo_hello_def generated2_service_def generated_name_def starts_with_def)
  have "sendable_status pair_absl reply_header_codec (12, ''url not found'')" and "wf_msg ?m"
    by simp_all
  from middleware_refuses_request[OF pair_absl_laws reply_header_codec_laws this(2,1) disjI2[OF none],
      of Release "()" text_codec]
  show ?thesis by blast
qed

text \<open>
  Services are shadowed by prefixes.  A service whose name extends the name of an earlier
  service is never reached, whatever is requested: without it the middleware computes the same
  for every message and every state.
\<close>

lemma prefix_shadows:
  assumes "starts_with (svc_name t) (svc_name s)"
  shows "middleware_execute b A Q R (xs @ s # ys @ t # zs) req st =
         middleware_execute b A Q R (xs @ s # ys @ zs) req st"
proof -
  have pre: "starts_with u (svc_name t) \<Longrightarrow> starts_with u (svc_name s)" for u
    using assms starts_with_trans by blast
  have tail: "middleware_dispatch A (s # ys @ t # zs) u p r st' = middleware_dispatch A (s # ys @ zs) u p r st'"
    for u p r st'
    using pre[of "tl u"] by (cases "starts_with (tl u) (svc_name s)") (simp, induction ys, auto)
  have "middleware_dispatch A (xs @ s # ys @ t # zs) u p r st' =
      middleware_dispatch A (xs @ s # ys @ zs) u p r st'" for u p r st'
    using tail by (induction xs) auto
  then have "middleware_execute_inner A Q (xs @ s # ys @ t # zs) req r st' =
      middleware_execute_inner A Q (xs @ s # ys @ zs) req r st'" for r st'
    unfolding middleware_execute_inner_def by presburger
  then show ?thesis by (simp add: middleware_execute_def)
qed

lemma prefix_shadows_witness:
  "middleware_execute Debug pair_absl request_header_codec reply_header_codec
     [demo_hello\<lparr>svc_name := ''helloworld''\<rparr>, demo_hello] (Some demo_request) () =
   middleware_execute Debug pair_absl request_header_codec reply_header_codec
     [demo_hello\<lparr>svc_name := ''helloworld''\<rparr>] (Some demo_request) ()"
  using prefix_shadows[of demo_hello "demo_hello\<lparr>svc_name := ''helloworld''\<rparr>" Debug pair_absl
      request_header_codec reply_header_codec "[]" "[]" "[]" "Some demo_request" "()"]
  by (simp add: demo_hello_def generated2_service_def generated_name_def starts_with_def)

text \<open>
  The name that the second plugin writes.  Of several generated services, whatever their
  packages and methods, only the first is ever reached, and only by URLs that begin with
  \<open>/helloworld.FabricHello\<close>: a method of any other service, requested by the URL that the
  generated client sends, is answered \<open>UNIMPLEMENTED\<close>.
\<close>

lemma generated_services_share_a_name:
  "middleware_dispatch A (map (\<lambda>(p, s, hs). generated2_service A p s hs) (svc # others)) u payload resp st =
     (if starts_with (tl u) ''helloworld.FabricHello''
      then (case svc of (p, s, hs) \<Rightarrow> generated_execute A p s hs u payload resp st)
      else ((UnimplementedError A ''url not found'', resp), st))"
proof -
  have "middleware_dispatch A (map (\<lambda>(p, s, hs). generated2_service A p s hs) svcs) u payload resp st =
      ((UnimplementedError A ''url not found'', resp), st)"
    if "\<not> starts_with (tl u) ''helloworld.FabricHello''" for svcs :: "(string \<times> string \<times> ('a, 'b) generated_handler list) list"
    using that by (induction svcs) (auto simp: generated2_service_def generated_name_def)
  then show ?thesis
    by (auto simp: generated2_service_def generated_name_def split: prod.splits)
qed

section \<open>Status headers\<close>

text \<open>
  C29: the status of a reply header.  The codes 0 to the reserved enumerator become that status
  with the header's message, any other code becomes an invalid-argument error that names it,
  bytes that are not a header become an unknown error, and the header that the server writes for
  a status reads back as that status.
\<close>

theorem reply_header_status:
  assumes "absl_laws A" and "codec_laws R"
  shows "(case ParseFromString R data of
      None \<Rightarrow> parse_reply_header A R data = mk_status A 2 ''parse_proto_payload failed''
    | Some h \<Rightarrow> parse_reply_header A R data =
        (if 0 \<le> status_code h \<and> status_code h \<le> kDoNotUse A
         then mk_status A (status_code h) (status_message h)
         else mk_status A 3 (''reply_header has unknown statuscode: '' @ to_string (status_code h)))) \<and>
    (sendable_status A R st \<longrightarrow>
       (\<exists>bytes. serialize_reply_header A R st (Some r) = (OkStatus A, Some bytes) \<and>
          parse_reply_header A R bytes = st))"
proof -
  have "case ParseFromString R data of
      None \<Rightarrow> parse_reply_header A R data = mk_status A 2 ''parse_proto_payload failed''
    | Some h \<Rightarrow> parse_reply_header A R data =
        (if 0 \<le> status_code h \<and> status_code h \<le> kDoNotUse A
         then mk_status A (status_code h) (status_message h)
         else mk_status A 3 (''reply_header has unknown statuscode: '' @ to_string (status_code h)))"
  proof (cases "ParseFromString R data")
    case None
    then show ?thesis
      by (simp add: parse_reply_header_def parse_proto_payload_def absl_lawsD(1,3,7)[OF assms(1)])
  next
    case (Some h)
    then have "parse_reply_header A R data = status_from_header A (Some h)"
      using absl_OkStatus(3)[OF assms(1)] by (simp add: parse_reply_header_def parse_proto_payload_def)
    then show ?thesis
      using Some by (simp add: status_from_header_def Let_def absl_lawsD(6,10)[OF assms(1)] not_le not_less)
  qed
  moreover have "sendable_status A R st \<longrightarrow>
       (\<exists>bytes. serialize_reply_header A R st (Some r) = (OkStatus A, Some bytes) \<and>
          parse_reply_header A R bytes = st)"
    using serialize_reply_header_sendable[OF assms(2), of A st r] parse_reply_header_sendable[OF assms, of st]
    by simp
  ultimately show ?thesis by (rule conjI)
qed

theorem reply_header_status_witness:
  "parse_reply_header pair_absl reply_header_codec (wire reply_header_codec \<lparr>status_code = 21, status_message = ''m''\<rparr>) =
     (3, ''reply_header has unknown statuscode: 21'') \<and>
   (\<exists>bytes. serialize_reply_header pair_absl reply_header_codec (5, ''gone'') (Some '''') = ((0, ''''), Some bytes) \<and>
      parse_reply_header pair_absl reply_header_codec bytes = (5, ''gone''))"
proof -
  have "ParseFromString reply_header_codec (wire reply_header_codec \<lparr>status_code = 21, status_message = ''m''\<rparr>) =
      Some \<lparr>status_code = 21, status_message = ''m''\<rparr>"
    by (rule roundtripsD(3)) simp_all
  moreover have "to_string 21 = ''21''" by (simp add: to_string_def nat_digits.simps digit_char_def) code_simp
  ultimately show ?thesis
    using reply_header_status[of pair_absl reply_header_codec
        "wire reply_header_codec \<lparr>status_code = 21, status_message = ''m''\<rparr>" "(5, ''gone'')" "''''"]
    by simp
qed

section \<open>Completing requests and calls\<close>

text \<open>A handler that completes its request several times.\<close>

fun complete_all ::
    "build \<Rightarrow> (HRESULT \<times> IFabricTransportMessage option) list \<Rightarrow> request_context \<Rightarrow>
     (request_context \<times> nat) exec" where
  "complete_all b [] ctx = Inr (ctx, 0)"
| "complete_all b ((hr, m) # cs) ctx =
     ebind (request_complete b hr m ctx) (\<lambda>(ctx', invoked).
     ebind (complete_all b cs ctx') (\<lambda>(ctx'', n).
     Inr (ctx'', n + (if invoked then 1 else 0))))"

lemma complete_all_done:
  assumes "complete_all b cs ctx = Inr (ctx', n)" and "is_completed ctx"
  shows "n = 0 \<and> is_completed ctx' \<and>
    ac_content ctx' = (if cs = [] then ac_content ctx
      else (ac_content ctx)\<lparr>cc_hr := Some (fst (last cs)), reply_msg := snd (last cs)\<rparr>)"
  using assms
proof (induction cs arbitrary: ctx n)
  case (Cons c cs)
  obtain ctx1 i k where c: "request_complete b (fst c) (snd c) ctx = Inr (ctx1, i)"
    and r: "complete_all b cs ctx1 = Inr (ctx', k)" and n: "n = k + (if i then 1 else 0)"
    using Cons.prems(1) by (cases c) (auto elim!: ebind_InrE split: prod.splits)
  note one = request_complete_invokes_iff[OF c]
  show ?case using Cons.IH[OF r] one n Cons.prems(2) by auto
qed simp

text \<open>
  C36: the transport is told once.  However often a handler completes its request, the callback
  is invoked exactly for the first completion, while what the transport fetches is the result of
  the last one that came before the fetch; a fetch before any completion reads an uninitialised
  result.
\<close>

theorem request_completes_once:
  assumes "complete_all b cs \<lparr>ac_content = new_content, is_completed = False\<rparr> = Inr (ctx, n)"
  shows "n = (if cs = [] then 0 else 1) \<and>
    Msg_EndProcessRequest Release ctx =
      (if cs = [] then Inl (Uninitialised ''content.hr'')
       else Inr (fst (last cs), if fst (last cs) = S_OK then snd (last cs) else None))"
proof (cases cs)
  case Nil
  then show ?thesis using assms by (auto simp: Msg_EndProcessRequest_def get_content_def new_content_def)
next
  case (Cons c rest)
  let ?new = "\<lparr>ac_content = new_content, is_completed = False\<rparr>"
  obtain ctx1 i k where c: "request_complete b (fst c) (snd c) ?new = Inr (ctx1, i)"
    and r: "complete_all b rest ctx1 = Inr (ctx, k)" and n: "n = k + (if i then 1 else 0)"
    using assms Cons by (cases c) (auto elim!: ebind_InrE split: prod.splits)
  have "i \<and> is_completed ctx1 \<and> ac_content ctx1 = \<lparr>cc_hr = Some (fst c), reply_msg = snd c\<rparr>"
    using request_complete_invokes_iff[OF c] by (simp add: new_content_def)
  then show ?thesis
    using complete_all_done[OF r] n Cons by (auto simp: Msg_EndProcessRequest_def get_content_def)
qed

theorem request_completes_once_witness:
  "\<exists>ctx. complete_all Debug [(S_OK, Some demo_request), (5, None)] \<lparr>ac_content = new_content, is_completed = False\<rparr> =
     Inr (ctx, 1) \<and> Msg_EndProcessRequest Release ctx = Inr (5, None)"
proof -
  have "complete_all Debug [(S_OK, Some demo_request), (5, None)] \<lparr>ac_content = new_content, is_completed = False\<rparr> =
      Inr (\<lparr>ac_content = \<lparr>cc_hr = Some 5, reply_msg = None\<rparr>, is_completed = True\<rparr>, 1)"
    by (simp add: request_complete_def any_context_complete_def set_content_def get_content_def
        new_content_def S_OK_def)
  from request_completes_once[OF this] show ?thesis using \<open>complete_all _ _ _ = _\<close> by (simp add: S_OK_def)
qed




text \<open>A send in which the transport notifies before the operation waits.\<close>

definition sent_op :: "op_pc \<Rightarrow> bool \<Rightarrow> (unit, unit) client_op" where
  "sent_op pc given =
     \<lparr>op_at = pc, op_callback = \<lparr>has_ev = \<not> given\<rparr>, op_event = given, op_begun = (S_OK, Some ()),
      op_notified = given, op_world = ()\<rparr>"

lemma demo_send:
  "((\<lambda>s s'. op_step b (replying_client S_OK (Some m)) req s (Inr s')) ^^ 4) (mk_client_op ())
     (sent_op (Completed (S_OK, Some m)) True)"
proof -
  let ?c = "replying_client S_OK (Some m)"
  let ?step = "\<lambda>s s'. op_step b ?c req s (Inr s')"
  have "?step (mk_client_op ()) (sent_op Calling False)"
    using op_step.begins[of "mk_client_op ()" b ?c req]
    by (simp add: mk_client_op_def mk_private_callback_def op_begin_def private_callback_get_event_def
        replying_client_def sent_op_def)
  moreover have "?step (sent_op Calling False) (sent_op Calling True)"
    using op_step.invoked[of "sent_op Calling False" b ?c req]
    by (simp add: op_invoked_def private_callback_Invoke_def ev_pointer_def sent_op_def)
  moreover have "?step (sent_op Calling True) (sent_op Awaiting True)"
    using op_step.returned[of "sent_op Calling True" b ?c req] by (simp add: op_return_def sent_op_def)
  moreover have "?step (sent_op Awaiting True) (sent_op (Completed (S_OK, Some m)) True)"
    using op_step.woken[of "sent_op Awaiting True" b ?c req]
    by (simp add: op_wait_handler_def replying_client_def S_OK_def sent_op_def)
  ultimately show ?thesis by (auto simp: numeral_eq_Suc)
qed



section \<open>Closing the acceptor\<close>

text \<open>
  C40: what closing does to an accept operation.  While the listener waits for a connection and no
  client is connected, destroying the manager stops a debug build, because the operation is still
  queued; that is how \<open>ex_server\<close> ends, which does not close its acceptor.  \<open>close\<close> takes the
  operation out of the queue and the manager can be destroyed, but the operation is never
  completed: whatever the threads do afterwards, the listener goes on waiting, no connection is
  accepted, and clients that connect stay in the queue.
\<close>

theorem closing_strands_accept:
  assumes "server_reachable b A Q R svcs u (Inr s)" and "replies_ready A R"
    and "l_pc (listener s) = Waiting" and "\<not> l_signalled (listener s)" and "conns (mgr s) = Map.empty"
    and "acceptor_close b acc hs s = Inr (ec, s')"
  shows "mgr_destroy Debug (mgr s) = Inl (AssertionFailed ''queue_entries_.empty()'') \<and>
    mgr_destroy b (mgr s') = Inr () \<and>
    (\<forall>t. (server_step b A Q R svcs)\<^sup>*\<^sup>* s' t \<longrightarrow>
       listener t = listener s \<and> length (connections t) = length (connections s) \<and>
       queue_entries (conn_queue (mgr t)) = [])"
proof -
  have r: "routes s" using server_reachable_inv[OF assms(1,2)] by (simp add: server_inv_def)
  note w = waiting_listener[OF r assms(3,4)] and c = stranded_close[OF r assms(3,4,6)]
  have "mgr_destroy Debug (mgr s) = Inl (AssertionFailed ''queue_entries_.empty()'')"
    using w assms(5) by (simp add: mgr_destroy_def queue_destroy_def cxx_assert_Debug)
  moreover have "mgr_destroy b (mgr s') = Inr ()"
    using c(1-3) assms(5) by (cases b) (simp_all add: mgr_destroy_def queue_destroy_def stranded_def)
  moreover have "listener t = listener s \<and> length (connections t) = length (connections s) \<and>
      queue_entries (conn_queue (mgr t)) = []" if "(server_step b A Q R svcs)\<^sup>*\<^sup>* s' t" for t
    using stranded_for_ever[OF that c(1)] c(4,5) by (simp add: stranded_def)
  ultimately show ?thesis by blast
qed

definition demo_acceptor :: acceptor where
  "demo_acceptor = \<lparr>acc_ep = mk_endpoint ''localhost'' 12345, acc_listener = True\<rparr>"

definition demo_handshake :: handshake where
  "demo_handshake =
     \<lparr>hs_begin = S_OK, hs_invokes = 1, hs_completed = True, hs_sync = True, hs_end = S_OK\<rparr>"

theorem closing_strands_accept_witness:
  "\<exists>s'. acceptor_close Debug demo_acceptor demo_handshake (listener_accept (new_server ())) = Inr (S_OK, s') \<and>
     returns (mgr_destroy Debug (mgr s')) \<and>
     \<not> returns (mgr_destroy Debug (mgr (listener_accept (new_server ()))))"
proof -
  let ?s = "listener_accept (new_server ()) :: unit server"
  have reach: "server_reachable Debug pair_absl request_header_codec reply_header_codec [demo_hello] () (Inr ?s)"
    by (rule server_reachable.internal[OF server_reachable.fresh internal_step.accept_conn])
      (simp add: new_server_def)
  have l: "l_pc (listener ?s) = Waiting" "\<not> l_signalled (listener ?s)" "conns (mgr ?s) = Map.empty"
    by (simp_all add: listener_accept_def new_server_def mgr_async_pop_def queue_async_pop_def
        mk_connection_manager_def mk_item_queue_def wake_listener_def)
  have cl: "acceptor_close Debug demo_acceptor demo_handshake ?s =
      Inr (S_OK, ?s\<lparr>mgr := mgr_cancel 0 (mgr ?s)\<rparr>)"
    by (simp add: acceptor_close_def demo_acceptor_def demo_handshake_def listener_ptr_def)
  show ?thesis using closing_strands_accept[OF reach demo_ready l cl] cl by auto
qed

section \<open>The server is sequential\<close>

text \<open>
  C5: the server refines a sequential one.  In every state that the threads can reach, under any
  interleaving, the replies that the transport fetches and the state of the services are those of
  serving the answered requests one after the other, in the order in which the transport was
  notified, from the initial state of the services.
\<close>

theorem server_is_sequential:
  assumes "server_reachable b A Q R svcs u (Inr s)" and "replies_ready A R"
  shows "\<exists>rs. serve_all (middleware_execute b A Q R svcs)
        (map (\<lambda>n. rq_msg (posted s ! n)) (notifications s)) u = Inr (rs, services s) \<and>
      list_all2 (\<lambda>n reply. Msg_EndProcessRequest b (contexts s ! n) = Inr (S_OK, Some reply))
        (notifications s) rs"
proof -
  have w: "work_inv b A Q R svcs s" using reachable_sequential(1)[OF assms] by (simp add: server_ok_def)
  have "serve_all (middleware_execute b A Q R svcs) (map (\<lambda>n. rq_msg (posted s ! n)) (notifications s)) u =
      Inr (map (\<lambda>n. context_reply (contexts s ! n)) (notifications s), services s)"
    using reachable_sequential(2)[OF assms] by (simp add: sequential_def machine_of_def comp_def)
  moreover note answered_context[OF w, of _ b]
  ultimately show ?thesis by (auto simp: list_all2_conv_all_nth)
qed

theorem server_is_sequential_witness:
  "\<exists>s rs. demo_early = Inr s \<and>
     serve_all (middleware_execute Debug pair_absl request_header_codec reply_header_codec [demo_hello])
       (map (\<lambda>n. rq_msg (posted s ! n)) (notifications s)) () = Inr (rs, services s)"
proof -
  obtain s where s: "demo_early = Inr s"
    using server_reachable_inv[OF demo_early_reachable demo_ready] by (auto simp: server_inv_def)
  show ?thesis using server_is_sequential[OF demo_early_reachable[unfolded s] demo_ready] s by blast
qed

text \<open>
  C2: a remote call through the running server.  The client of a connection posts a request to
  the server in any state it can be in, other clients connect, post and disconnect, and the
  server's threads run until they are idle.  Then the request has been answered, at some place in
  the sequence of all requests, and the reply that the transport fetches and the client parses is
  the status and the reply of the user's function at the state the services had at that place.
\<close>

theorem call_through_server:
  assumes laws: "absl_laws A" "codec_laws Q" "codec_laws R" "codec_laws P" "codec_laws P'"
    and wires: "roundtrips Q \<lparr>url = a\<rparr>" "roundtrips P request"
    and found: "find (\<lambda>svc. starts_with (tl a) (svc_name svc)) svcs =
           Some (generated2_service A package service hs)"
      "handler_table package service hs a = Some (\<lambda>req resp. codegen_handler_helper A P P' req resp fn)"
    and replies: "\<And>st. sendable_status A R (fst (fst (fn request st)))"
      "\<And>st. st_ok A (fst (fst (fn request st))) \<Longrightarrow> roundtrips P' (snd (fst (fn request st)))"
    and run: "server_reachable b A Q R svcs u (Inr s)" "replies_ready A R" "conns (mgr s) client \<noteq> None"
      "transport_request b client (tool_message (SerializeAsString P request) (SerializeAsString Q \<lparr>url = a\<rparr>)) s =
         Inr s1"
      "(server_step b A Q R svcs)\<^sup>*\<^sup>* s1 s2" "server_idle b A Q R svcs s2"
  shows "\<exists>i rs st reply. i < length (notifications s2) \<and>
    serve_all (middleware_execute b A Q R svcs)
      (map (\<lambda>n. rq_msg (posted s2 ! n)) (take i (notifications s2))) u = Inr (rs, st) \<and>
    Msg_EndProcessRequest b (contexts s2 ! length (contexts s)) = Inr (S_OK, Some reply) \<and>
    async_rpc_op A Q R P P' (replying_client S_OK (Some reply)) 0 0 a request () =
      (case fn request st of ((ec, m), _) \<Rightarrow> Inr ((0, ec, if st_ok A ec then Some m else None), ()))"
proof -
  let ?m = "tool_message (SerializeAsString P request) (SerializeAsString Q \<lparr>url = a\<rparr>)"
  let ?c = "length (contexts s)"
  obtain e where e: "conns (mgr s) client = Some e" using run(3) by auto
  have "transport_step b s (Inr s1)"
    using transport_step.request[of s client ?m b] run(3,4) by simp
  then have reach: "server_reachable b A Q R svcs u (Inr s2)"
    using runs_reachable[OF run(5)] server_reachable.transport[OF run(1)] by blast
  have ok: "server_ok b A Q R svcs s2" using reachable_sequential(1)[OF reach run(2)] .
  have "length (posted s) = ?c"
    using reachable_sequential(1)[OF run(1,2)] by (simp add: server_ok_def work_inv_def)
  moreover have s1: "posted s1 = posted s @ [\<lparr>conn_id = client, rq_msg = Some ?m, rq_ctx = ?c\<rparr>]"
    using run(4) by (auto simp: transport_request_eq[OF e] Let_def split: prod.splits)
  ultimately have c: "?c < length (posted s2)" "rq_msg (posted s2 ! ?c) = Some ?m"
    using posted_nth_runs[OF run(5), of ?c] by (simp_all add: nth_append)
  have "all_answered b A Q R svcs s2"
    using idle_answered[OF _ _ run(6)] ok by (simp add: server_ok_def)
  then have "mset (notifications s2) = mset [0..<length (posted s2)]" by (simp add: all_answered_def)
  then have "?c \<in> set (notifications s2)" using c(1) by (metis atLeastLessThan_iff le0 mset_eq_setD set_upt)
  then obtain i where i: "i < length (notifications s2)" "notifications s2 ! i = ?c"
    by (auto simp: in_set_conv_nth)
  obtain rs st st' reply where seq: "serve_all (middleware_execute b A Q R svcs)
      (map (\<lambda>n. rq_msg (posted s2 ! n)) (take i (notifications s2))) u = Inr (rs, st)"
    and ex: "middleware_execute b A Q R svcs (Some ?m) st = Inr (reply, st')"
    and fetched: "Msg_EndProcessRequest b (contexts s2 ! ?c) = Inr (S_OK, Some reply)"
    using answered_in_sequence[OF reach run(2) i(1)] i(2) c(2) by auto
  obtain ec m st2 where fn: "fn request st = ((ec, m), st2)" by (metis prod.exhaust)
  have sendable: "sendable_status A R ec" and rt: "st_ok A ec \<Longrightarrow> roundtrips P' m"
    using replies[of st] fn by simp_all
  let ?resp = "if st_ok A ec then wire P' m else ''''"
  have "middleware_execute b A Q R svcs (Some ?m) st = Inr (tool_message ?resp (wire R (status_header A ec)), st2)"
    by (rule middleware_execute_reply[OF service_call_inner[OF laws(1,2,4,5) wires found fn sendable rt] laws(1,3)
          sendable])
  then have reply: "reply = tool_message ?resp (wire R (status_header A ec))" using ex by simp
  have eq: "ec = OkStatus A" if "st_ok A ec"
    using that laws(1) sendable absl_lawsD[OF laws(1)] by (auto simp: sendable_status_def)
  have len: "length ?resp < 2 ^ 32" using rt roundtripsD(5)[OF laws(5), of m] by (cases "st_ok A ec") auto
  have "async_rpc_op A Q R P P' (replying_client S_OK (Some reply)) 0 0 a request () =
      Inr ((0, ec, if st_ok A ec then Some m else None), ())"
    using client_reads_reply[OF laws(1,3) sendable len, of Q P P' a request] reply rt eq
      roundtripsD(3)[OF laws(5), of m]
    by (auto simp: parse_proto_payload_def)
  then show ?thesis using i(1) seq fetched fn by auto
qed

theorem call_through_server_witness:
  "\<exists>s s1 s2 reply. transport_connect Debug ''c'' (new_server ()) = Inr s \<and>
     transport_request Debug ''c'' demo_request s = Inr s1 \<and>
     (server_step Debug pair_absl request_header_codec reply_header_codec [demo_hello])\<^sup>*\<^sup>* s1 s2 \<and>
     Msg_EndProcessRequest Debug (contexts s2 ! 0) = Inr (S_OK, Some reply) \<and>
     async_rpc_op pair_absl request_header_codec reply_header_codec text_codec text_codec
       (replying_client S_OK (Some reply)) 0 0 ''/helloworld.FabricHello/SayHello'' ''bob'' () =
       Inr ((0, (0, ''''), Some ''Hellobob''), ())"
proof -
  let ?u = "''/helloworld.FabricHello/SayHello''"
  let ?step = "server_step Debug pair_absl request_header_codec reply_header_codec [demo_hello]"
  obtain s where s: "transport_connect Debug ''c'' (new_server ()) = Inr s" by (simp add: transport_connect_eq)
  then have conn: "conns (mgr s) ''c'' \<noteq> None" and c0: "length (contexts s) = 0"
    by (auto simp: transport_connect_eq add_conn_eq new_server_def split: option.splits)
  have reach: "server_reachable Debug pair_absl request_header_codec reply_header_codec [demo_hello] () (Inr s)"
    using server_reachable.transport[OF server_reachable.fresh] transport_step.connect[of Debug "new_server ()" "''c''"] s
    by metis
  have ser: "SerializeAsString text_codec t = wire text_codec t"
    "SerializeAsString request_header_codec h = wire request_header_codec h" for t h
    by (simp_all add: text_codec_def request_header_codec_def)
  obtain s1 where s1: "transport_request Debug ''c'' demo_request s = Inr s1"
    using demo_early_reachable demo_ready server_reachable_inv[OF demo_early_reachable demo_ready] s
    by (auto simp: demo_early_def server_inv_def)
  have "transport_step Debug s (Inr s1)"
    using transport_step.request[of s "''c''" demo_request Debug] conn s1 by (simp add: demo_request_def)
  then have "server_reachable Debug pair_absl request_header_codec reply_header_codec [demo_hello] () (Inr s1)"
    by (rule server_reachable.transport[OF reach])
  then have "routes s1" and "work_inv Debug pair_absl request_header_codec reply_header_codec [demo_hello] s1"
    using server_reachable_inv[OF _ demo_ready] by (fastforce simp: server_inv_def)+
  from server_drains[OF this demo_ready] obtain n s2 where
    r: "server_runs Debug pair_absl request_header_codec reply_header_codec [demo_hello] n s1 s2"
    and idle: "server_idle Debug pair_absl request_header_codec reply_header_codec [demo_hello] s2" by blast
  have steps: "?step\<^sup>*\<^sup>* s1 s2" by (rule server_runs_steps[OF r])
  have "\<exists>i rs st reply. i < length (notifications s2) \<and>
    serve_all (middleware_execute Debug pair_absl request_header_codec reply_header_codec [demo_hello])
      (map (\<lambda>n. rq_msg (posted s2 ! n)) (take i (notifications s2))) () = Inr (rs, st) \<and>
    Msg_EndProcessRequest Debug (contexts s2 ! length (contexts s)) = Inr (S_OK, Some reply) \<and>
    async_rpc_op pair_absl request_header_codec reply_header_codec text_codec text_codec
       (replying_client S_OK (Some reply)) 0 0 ?u ''bob'' () =
      (case demo_SayHello ''bob'' st of ((ec, m), _) \<Rightarrow>
        Inr ((0, ec, if st_ok pair_absl ec then Some m else None), ()))"
    by (rule call_through_server[where package = "''helloworld''" and service = "''FabricHello''"
          and hs = demo_handlers and client = "''c''" and fn = demo_SayHello and ?s1.0 = s1 and ?s2.0 = s2])
      (use conn reach s1 steps idle in \<open>simp_all add: demo_hello_def generated2_service_def generated_name_def
        starts_with_def handler_table_def demo_handlers_def method_url_def package_prefix_def demo_SayHello_def
        demo_request_def ser\<close>)
  then show ?thesis using s s1 steps c0 by (auto simp: demo_SayHello_def)
qed

text \<open>A state in which the request has been answered.\<close>

lemma demo_answered:
  obtains s :: "unit server" where "server_reachable Debug pair_absl request_header_codec reply_header_codec
      [demo_hello] () (Inr s)" and "0 \<in> set (notifications s)"
proof -
  let ?reach = "server_reachable Debug pair_absl request_header_codec reply_header_codec [demo_hello] ()"
  obtain s where s: "demo_early = Inr s" "routes s"
      "work_inv Debug pair_absl request_header_codec reply_header_codec [demo_hello] s"
    using server_reachable_inv[OF demo_early_reachable demo_ready] by (auto simp: server_inv_def)
  note reach = demo_early_reachable[unfolded s(1)]
  obtain c where c: "transport_connect Debug ''c'' (new_server ()) = Inr c" "conns (mgr c) ''c'' \<noteq> None"
    by (auto simp: transport_connect_eq add_conn_eq new_server_def split: option.splits)
  then have "transport_request Debug ''c'' demo_request c = Inr s" using s(1) by (simp add: demo_early_def)
  then have p: "0 < length (posted s)"
    using c(2) by (auto simp: transport_request_eq Let_def case_prod_unfold)
  obtain n s2 where r: "server_runs Debug pair_absl request_header_codec reply_header_codec [demo_hello] n s s2"
    and idle: "server_idle Debug pair_absl request_header_codec reply_header_codec [demo_hello] s2"
    using server_drains[OF s(2,3) demo_ready] by blast
  note steps = server_runs_steps[OF r]
  have reach2: "?reach (Inr s2)" by (rule runs_reachable[OF steps reach])
  have "all_answered Debug pair_absl request_header_codec reply_header_codec [demo_hello] s2"
    using idle_answered[OF _ _ idle] reachable_sequential(1)[OF reach2 demo_ready] by (simp add: server_ok_def)
  then have "mset (notifications s2) = mset [0..<length (posted s2)]" by (simp add: all_answered_def)
  moreover have "0 < length (posted s2)" using posted_nth_runs(1)[OF steps p] .
  ultimately have "0 \<in> set (notifications s2)" by (metis atLeastLessThan_iff le0 mset_eq_setD set_upt)
  then show ?thesis using that reach2 by blast
qed

text \<open>
  C13: clients do not see each other's requests.  In every reachable state each queue has an
  owner: the connection table leads to the queue from its owner only, and every request in the
  queue, or held by the connection that takes requests from it, was posted by the owner.  No
  later step of the server or the transport gives a queue to another client; in particular a
  client that connects again under its name, or under that of one that has gone, gets a new one.
\<close>

theorem clients_isolated:
  assumes "server_reachable b A Q R svcs u (Inr s)" and "replies_ready A R"
  shows "\<exists>own. belongs own s \<and>
    (\<forall>t. (server_step b A Q R svcs)\<^sup>*\<^sup>* s t \<longrightarrow> (\<exists>more. belongs (own @ more) t))"
proof -
  obtain own where "belongs own s"
    using belongs_runs[OF reachable_runs[OF assms(1)] server_ok_new[OF assms(2)] belongs_new] by auto
  with belongs_runs[OF _ reachable_sequential(1)[OF assms]] show ?thesis by blast
qed

theorem clients_isolated_witness:
  "\<exists>s own. demo_early = Inr s \<and> belongs own s"
proof -
  obtain s where s: "demo_early = Inr s"
    using server_reachable_inv[OF demo_early_reachable demo_ready] by (auto simp: server_inv_def)
  show ?thesis using clients_isolated[OF demo_early_reachable[unfolded s] demo_ready] s by blast
qed

text \<open>A client connects, its connection is accepted, and waits for a first request.\<close>

definition demo_waiting :: "unit server exec" where
  "demo_waiting =
     ebind (transport_connect Debug ''c'' (new_server ())) (\<lambda>s.
     ebind (listener_wakes Debug (listener_accept s)) (\<lambda>s. connection_accept Debug 0 s))"

lemma demo_waiting_reachable:
  "server_reachable Debug pair_absl request_header_codec reply_header_codec [demo_hello] () demo_waiting"
proof -
  let ?reach = "server_reachable Debug pair_absl request_header_codec reply_header_codec [demo_hello] ()"
  obtain s1 where s1: "transport_connect Debug ''c'' (new_server ()) = Inr s1" "l_pc (listener s1) = Accepting"
    by (auto simp: transport_connect_eq new_server_def wake_listener_def split: option.splits)
  then have 1: "?reach (Inr s1)"
    using server_reachable.transport[OF server_reachable.fresh] transport_step.connect[of Debug "new_server ()" "''c''"]
    by metis
  have w: "l_pc (listener (listener_accept s1)) = Waiting" "l_signalled (listener (listener_accept s1))"
    using s1(1)
    by (auto simp: transport_connect_eq new_server_def listener_accept_def add_conn_eq mk_connection_manager_def
        mk_item_queue_def queue_push_def mgr_async_pop_def queue_async_pop_def wake_listener_def)
  have "?reach (Inr (listener_accept s1))"
    by (rule server_reachable.internal[OF 1 internal_step.accept_conn[OF s1(2)]])
  from server_reachable.internal[OF this internal_step.accepted_conn[OF w]]
  have 2: "?reach (listener_wakes Debug (listener_accept s1))" .
  obtain s2 where s2: "listener_wakes Debug (listener_accept s1) = Inr s2" "length (connections s2) = 1"
    "c_pc (connections s2 ! 0) = Accepting"
    using s1(1)
    by (auto simp: listener_wakes_def transport_connect_eq new_server_def listener_accept_def add_conn_eq
        mk_connection_manager_def mk_item_queue_def queue_push_def mgr_async_pop_def queue_async_pop_def
        wake_listener_def cxx_assert_def)
  then have "?reach (connection_accept Debug 0 s2)"
    using server_reachable.internal[OF 2[unfolded s2(1)] internal_step.accept_request[of 0 s2]] by simp
  then show ?thesis by (simp add: demo_waiting_def s1(1) s2(1))
qed

lemma demo_waiting_state:
  obtains s where "demo_waiting = Inr s" "conns (mgr s) ''c'' = Some \<lparr>entry_conn = ''c'', entry_queue = 0\<rparr>"
    "connections s = [\<lparr>c_queue = Some 0, c_pc = Waiting, c_signalled = False, c_pl = None\<rparr>]"
  by (auto simp: demo_waiting_def listener_wakes_def transport_connect_eq new_server_def listener_accept_def
      add_conn_eq new_entry_def connection_accept_def mk_connection_manager_def mk_item_queue_def queue_push_def
      mgr_async_pop_def queue_async_pop_def wake_listener_def wake_connection_def cxx_assert_def deref_def)

text \<open>
  C25: the connection of a client that has gone is never released.  When a client disconnects
  while its connection waits for a request, the manager forgets the client and nothing else: the
  accept operation of the connection is never completed, by no request, no other client and no
  step of the server, and its coroutine keeps waiting with the event it waits for.
\<close>

theorem disconnected_connection_waits:
  assumes "server_reachable b A Q R svcs u (Inr s)" and "replies_ready A R"
    and "conns (mgr s) client = Some e" and "k < length (connections s)"
    and "c_queue (connections s ! k) = Some (entry_queue e)"
    and "c_pc (connections s ! k) = Waiting" and "\<not> c_signalled (connections s ! k)"
    and "transport_disconnect b client s = Inr s1" and "(server_step b A Q R svcs)\<^sup>*\<^sup>* s1 t"
  shows "k < length (connections t) \<and> connections t ! k = connections s ! k"
proof -
  note ok = reachable_sequential(1)[OF assms(1,2)]
  then have r: "routes s" by (simp add: server_ok_def)
  note orphan = disconnect_orphans[OF r assms(3-8)]
  have "server_ok b A Q R svcs s1"
    using server_ok_step[OF ok] transport_step.disconnects[of s client b] assms(3,8)
    by (simp add: server_step_def)
  from orphaned_runs[OF assms(9) this orphan(1)] show ?thesis
    using orphan(2) by (simp add: orphaned_def)
qed

theorem disconnected_connection_waits_witness:
  "\<exists>s s1. demo_waiting = Inr s \<and> transport_disconnect Debug ''c'' s = Inr s1 \<and>
     (\<forall>t. (server_step Debug pair_absl request_header_codec reply_header_codec [demo_hello])\<^sup>*\<^sup>* s1 t \<longrightarrow>
       connections t ! 0 = connections s ! 0)"
proof -
  obtain s where s: "demo_waiting = Inr s"
    "conns (mgr s) ''c'' = Some \<lparr>entry_conn = ''c'', entry_queue = 0\<rparr>"
    "connections s = [\<lparr>c_queue = Some 0, c_pc = Waiting, c_signalled = False, c_pl = None\<rparr>]"
    by (rule demo_waiting_state)
  moreover obtain s1 where "transport_disconnect Debug ''c'' s = Inr s1"
    using s(2) by (auto simp: transport_disconnect_def BeginProcessDisconnect_def disconnect_def mk_any_context_def
        any_context_complete_def)
  ultimately show ?thesis
    using disconnected_connection_waits[OF demo_waiting_reachable[unfolded s(1)] demo_ready s(2), of 0 s1] by auto
qed

section \<open>One send of a client\<close>

text \<open>
  C14: sending a message.  However the thread of \<open>async_req_op\<close> and the callback of the transport
  interleave, from the constructor on there are at most four steps and none of them faults; when
  no step is left the operation has completed; a notification that comes before the operation
  waits is not lost; and what it completes with is the result of the sequential function, for the
  error code of the wait, where a reply is fetched only after the transport has announced it.
\<close>

theorem client_send_correct:
  assumes "((\<lambda>s s'. op_step b client req s (Inr s')) ^^ n) (mk_client_op w) t"
  shows "n \<le> 4 \<and> (\<forall>r. op_step b client req t r \<longrightarrow> returns r) \<and>
    ((\<forall>r. \<not> op_step b client req t r) \<longrightarrow> (\<exists>res. op_at t = Completed res)) \<and>
    (op_at t = Awaiting \<and> op_notified t \<longrightarrow> event_wakes (op_event t)) \<and>
    (\<forall>res. op_at t = Completed res \<longrightarrow>
      (\<exists>ec. async_req_op client 0 ec req w = (res, op_world t) \<and>
        (ec = 0 \<longrightarrow> fst (op_begun t) = S_OK \<longrightarrow> op_notified t)))"
proof -
  have inv: "op_inv client req w t" by (rule op_runs_inv[OF assms])
  have "n \<le> 4"
    using op_left_runs[OF assms] by (simp add: op_left_def mk_client_op_def mk_private_callback_def)
  moreover have "returns r" if "op_step b client req t r" for r
    using op_inv_step[OF inv that] by auto
  ultimately show ?thesis
    using op_progress[OF inv] inv by (auto simp: op_inv_def op_result_def)
qed

theorem client_send_correct_witness:
  "\<exists>t :: (unit, unit) client_op. op_at t = Completed (S_OK, Some demo_request) \<and> op_notified t \<and>
     (\<exists>ec. async_req_op (replying_client S_OK (Some demo_request)) 0 ec demo_request () =
       ((S_OK, Some demo_request), op_world t))"
  using client_send_correct[OF demo_send[of Debug demo_request demo_request]]
  by (intro exI[of _ "sent_op (Completed (S_OK, Some demo_request)) True"]) (auto simp: sent_op_def)

section \<open>A connection that could not be opened\<close>

text \<open>
  C39: after \<open>open\<close> has failed.  If the transport client had been made, the connection keeps it: a
  second \<open>open\<close>, whatever the transport does, stops a debug build.  If it had not, the
  connection is as new, and a call on it reads the null pointer, in either build.
\<close>

theorem failed_open:
  assumes "connection_open Debug create hs ep mk_client_connection = Inr (ec, conn)" and "ec \<noteq> 0"
  shows "if fst (create (get_settings ep) (get_url ep)) = S_OK
    then connection_open Debug create' hs' ep' conn = Inl (AssertionFailed ''!client_'')
    else conn = mk_client_connection \<and>
      rpc_client_async_send A Q R P P' conn ec_wait u request w = Inl (NullDereference ''client_'')"
  using connection_reopen[OF assms(1)] connection_open_client(1)[OF assms(1)]
  by (cases conn) (auto simp: created_def mk_client_connection_def rpc_client_async_send_def deref_def)

theorem failed_open_witness:
  "\<exists>conn. connection_open Debug (\<lambda>_ _. (S_OK, replying_client S_OK None))
      \<lparr>hs_begin = S_OK, hs_invokes = 1, hs_completed = True, hs_sync = True, hs_end = 0x80004005\<rparr>
      (mk_endpoint ''localhost'' 12345) mk_client_connection = Inr (0x80004005, conn) \<and>
    connection_open Debug (\<lambda>_ _. (S_OK, replying_client S_OK None))
      \<lparr>hs_begin = S_OK, hs_invokes = 1, hs_completed = True, hs_sync = True, hs_end = S_OK\<rparr>
      (mk_endpoint ''localhost'' 12345) conn = Inl (AssertionFailed ''!client_'')"
proof -
  let ?create = "\<lambda>_ _. (S_OK, replying_client S_OK None)" and ?ep = "mk_endpoint ''localhost'' 12345"
  let ?hs = "\<lparr>hs_begin = S_OK, hs_invokes = 1, hs_completed = True, hs_sync = True, hs_end = 0x80004005\<rparr>"
  have o: "connection_open Debug ?create ?hs ?ep mk_client_connection =
      Inr (0x80004005, \<lparr>conn_client = Some (replying_client S_OK None)\<rparr>)"
    by (simp add: connection_open_def mk_client_connection_def created_def)
  show ?thesis using failed_open[OF o, of ?create "\<lparr>hs_begin = S_OK, hs_invokes = 1, hs_completed = True, hs_sync = True, hs_end = S_OK\<rparr>" ?ep] o by simp
qed

end
