(* ===== verification/Printer.thy ===== *)
theory Printer
  imports Foreign
begin

text \<open>
  The text printer of both protoc plugins (the class \<open>printer\<close> of src/generator/gen.hpp and of
  src/generator2/printer.hpp, which are the same), and the theory of its templates: what the
  replacement of every \<open>$key$\<close> in turn, and the indentation line by line, add up to.
\<close>

section \<open>The printer\<close>

definition nl :: char where
  "nl = CHR 0x0A"

text \<open>\<open>indent_\<close> is a \<open>size_t\<close>.\<close>

record printer =
  p_indent :: "64 word"
  p_output :: string

definition mk_printer :: printer where
  "mk_printer = \<lparr>p_indent = 0, p_output = ''''\<rparr>"

fun indent_lines :: "string \<Rightarrow> string list \<Rightarrow> string" where
  "indent_lines indent_str [] = ''''"
| "indent_lines indent_str (str # strs) =
     (if str = '''' then indent_lines indent_str strs
      else indent_str @ str @ [nl] @ indent_lines indent_str strs)"

definition Add :: "boost_api \<Rightarrow> string \<Rightarrow> printer \<Rightarrow> printer" where
  "Add B ls p =
     (let indent_str = concat (replicate (unat (p_indent p)) ('' '' @ '' ''));
          strs = split_any B (\<lambda>c. c = nl) ls
      in p\<lparr>p_output := p_output p @ indent_lines indent_str strs\<rparr>)"

definition AddLn :: "boost_api \<Rightarrow> string \<Rightarrow> printer \<Rightarrow> printer" where
  "AddLn B ls p = Add B (ls @ [nl]) p"

text \<open>\<open>std::map<std::string, std::string>\<close>: a list in the order of the keys.\<close>

type_synonym vars = "(string \<times> string) list"

fun set_var :: "string \<Rightarrow> string \<Rightarrow> vars \<Rightarrow> vars" where
  "set_var k v [] = [(k, v)]"
| "set_var k v ((k', v') # kvs) =
     (if k < k' then (k, v) # (k', v') # kvs
      else if k = k' then (k, v) # kvs
      else (k', v') # set_var k v kvs)"

fun replace_vars :: "boost_api \<Rightarrow> vars \<Rightarrow> string \<Rightarrow> string" where
  "replace_vars B [] s = s"
| "replace_vars B ((k, val) # kvs) s =
     (let key = ''$'' @ k @ ''$'' in replace_vars B kvs (replace_all B s key val))"

definition AddVars :: "boost_api \<Rightarrow> vars \<Rightarrow> string \<Rightarrow> printer \<Rightarrow> printer" where
  "AddVars B vs ls p = Add B (replace_vars B vs ls) p"

definition AddLnVars :: "boost_api \<Rightarrow> vars \<Rightarrow> string \<Rightarrow> printer \<Rightarrow> printer" where
  "AddLnVars B vs ls p = AddVars B vs (ls @ [nl]) p"

definition Indent :: "printer \<Rightarrow> printer" where
  "Indent p = p\<lparr>p_indent := p_indent p + 1\<rparr>"

definition Outdent :: "build \<Rightarrow> printer \<Rightarrow> printer exec" where
  "Outdent b p =
     ebind (cxx_assert b ''indent_ > 0'' (p_indent p > 0)) (\<lambda>_.
     Inr (p\<lparr>p_indent := p_indent p - 1\<rparr>))"

definition GetOutput :: "printer \<Rightarrow> string" where
  "GetOutput p = p_output p"

lemma set_var_lookup: "map_of (set_var k v kvs) = (map_of kvs)(k \<mapsto> v)"
proof (induction kvs)
  case (Cons kv kvs)
  then show ?case by (cases kv) (auto simp: fun_eq_iff)
qed auto

lemma Outdent_Indent: "p_indent p + 1 \<noteq> 0 \<Longrightarrow> Outdent b (Indent p) = Inr p"
  by (simp add: Outdent_def Indent_def cxx_assert_def word_gt_0)

section \<open>Line by line\<close>

text \<open>The lines of a text that the code writes as one literal.\<close>

definition code_lines :: "string list \<Rightarrow> string" where
  "code_lines ls = concat (map (\<lambda>l. l @ [nl]) ls)"

lemma code_lines_simps [simp]:
  "code_lines [] = ''''" "code_lines (l # ls) = l @ nl # code_lines ls"
  by (simp_all add: code_lines_def)

text \<open>Indented lines: what is left of a text in the output.\<close>

definition emit :: "64 word \<Rightarrow> string list \<Rightarrow> string" where
  "emit n ls = code_lines (map (\<lambda>l. concat (replicate (unat n) ''  '') @ l) (filter (\<lambda>l. l \<noteq> '''') ls))"

lemma emit_append [simp]: "emit n (xs @ ys) = emit n xs @ emit n ys"
  by (simp add: emit_def code_lines_def)

lemma emit_Nil [simp]: "emit n [] = ''''"
  by (simp add: emit_def)

lemma emit_Cons:
  "emit n (l # ls) = (if l = '''' then '''' else concat (replicate (unat n) ''  '') @ l @ [nl]) @ emit n ls"
  by (simp add: emit_def)

lemma indent_lines_eq:
  "indent_lines (concat (replicate (unat n) ''  '')) strs = emit n strs"
  by (induction strs) (auto simp: emit_def)

definition one_line :: "string \<Rightarrow> bool" where
  "one_line l \<longleftrightarrow> nl \<notin> set l"

lemma one_line_simps [simp]:
  "one_line ''''" "one_line (c # l) \<longleftrightarrow> c \<noteq> nl \<and> one_line l" "one_line (a @ l) \<longleftrightarrow> one_line a \<and> one_line l"
  by (auto simp: one_line_def)

lemma split_lines:
  assumes "boost_laws B" and "list_all one_line ls" and "one_line l"
  shows "split_any B (\<lambda>c. c = nl) (code_lines ls @ l) = ls @ [l]"
  using assms(2)
proof (induction ls)
  case Nil
  then show ?case using boost_lawsD(1)[OF assms(1), of l "\<lambda>c. c = nl"] assms(3) by (auto simp: one_line_def)
next
  case (Cons a ls)
  then show ?case
    using boost_lawsD(2)[OF assms(1), of a "\<lambda>c. c = nl" nl "code_lines ls @ l"]
    by (auto simp: one_line_def)
qed

lemma Add_lines:
  assumes "boost_laws B" and "list_all one_line ls" and "one_line l"
  shows "Add B (code_lines ls @ l) p = p\<lparr>p_output := p_output p @ emit (p_indent p) (ls @ [l])\<rparr>"
  using split_lines[OF assms] by (simp add: Add_def indent_lines_eq Let_def)

text \<open>A text is the lines it is split into.\<close>

fun text_lines :: "string \<Rightarrow> string list \<times> string" where
  "text_lines [] = ([], [])"
| "text_lines (c # s) =
     (let (ls, l) = text_lines s
      in if c = nl then ([] # ls, l)
         else (case ls of [] \<Rightarrow> ([], c # l) | x # xs \<Rightarrow> ((c # x) # xs, l)))"

lemma text_lines_inverse:
  "code_lines (fst (text_lines s)) @ snd (text_lines s) = s \<and>
   list_all one_line (fst (text_lines s)) \<and> one_line (snd (text_lines s))"
  by (induction s) (auto simp: Let_def split: prod.splits list.splits)

lemma Add_eq:
  assumes "boost_laws B"
  shows "Add B s p = p\<lparr>p_output := p_output p @ emit (p_indent p) (fst (text_lines s) @ [snd (text_lines s)])\<rparr>"
  using text_lines_inverse[of s] Add_lines[OF assms, of "fst (text_lines s)" "snd (text_lines s)" p] by simp

section \<open>Replacing one key\<close>

lemma replace_all_skip:
  assumes "boost_laws B" and "k \<noteq> ''''"
    and "\<And>a b x. p = a @ b \<Longrightarrow> b \<noteq> '''' \<Longrightarrow> b @ s \<noteq> k @ x"
  shows "replace_all B (p @ s) k v = p @ replace_all B s k v"
proof (cases "\<exists>a b. s = a @ k @ b")
  case False
  have "\<nexists>a b. p @ s = a @ k @ b"
  proof
    assume "\<exists>a b. p @ s = a @ k @ b"
    then obtain a b where "p @ s = a @ k @ b" by blast
    then obtain u where "p = a @ u \<and> u @ s = k @ b \<or> p @ u = a \<and> s = u @ k @ b"
      by (auto simp: append_eq_append_conv2)
    then show False
      using False assms(3)[of a u b] by (cases "u = ''''") auto
  qed
  then show ?thesis using boost_lawsD(3)[OF assms(1,2)] False by simp
next
  case True
  define n where "n = (LEAST n. \<exists>a b. s = a @ k @ b \<and> length a = n)"
  obtain a b where ab: "s = a @ k @ b" "length a = n"
    using LeastI_ex[of "\<lambda>n. \<exists>a b. s = a @ k @ b \<and> length a = n"] True unfolding n_def by blast
  have least: "n \<le> length a'" if "s = a' @ k @ b'" for a' b'
    unfolding n_def using that by (intro Least_le) blast
  have fst: "first_occurrence k a b"
    using least ab unfolding first_occurrence_def by simp
  have fst': "first_occurrence k (p @ a) b"
    unfolding first_occurrence_def
  proof (intro allI impI)
    fix p' s' assume eq: "(p @ a) @ k @ b = p' @ k @ s'"
    then have "p @ s = p' @ k @ s'" using ab by simp
    then obtain u where "p = p' @ u \<and> u @ s = k @ s' \<or> p @ u = p' \<and> s = u @ k @ s'"
      by (auto simp: append_eq_append_conv2)
    then show "length (p @ a) \<le> length p'"
      using assms(3)[of p' u s'] least[of u s'] ab(2) by (cases "u = ''''") auto
  qed
  have "replace_all B (p @ s) k v = (p @ a) @ v @ replace_all B b k v"
    using boost_lawsD(4)[OF assms(1,2) fst', of v] ab(1) by simp
  also have "\<dots> = p @ replace_all B s k v"
    using boost_lawsD(4)[OF assms(1,2) fst, of v] ab(1) by simp
  finally show ?thesis .
qed

text \<open>A key does not reach over a line break.\<close>

lemma replace_all_nl:
  assumes "boost_laws B" and "k \<noteq> ''''" and "one_line k"
  shows "replace_all B (a @ nl # s) k v = replace_all B a k v @ nl # replace_all B s k v"
proof (induction "length a" arbitrary: a rule: less_induct)
  case less
  show ?case
  proof (cases "\<exists>p t. a = p @ k @ t \<and> first_occurrence k p t")
    case True
    then obtain p t where a: "a = p @ k @ t" and f: "first_occurrence k p t" by blast
    have f': "first_occurrence k p (t @ nl # s)"
      unfolding first_occurrence_def
    proof (intro allI impI)
      fix p' s' assume eq: "p @ k @ t @ nl # s = p' @ k @ s'"
      show "length p \<le> length p'"
      proof (rule ccontr)
        assume "\<not> length p \<le> length p'"
        then obtain u where u: "p = p' @ u" "u @ k @ t @ nl # s = k @ s'"
          using eq by (auto simp: append_eq_append_conv2)
        then have "take (length k) (u @ k) = k"
          by (metis append_assoc append_eq_conv_conj le_add2 length_append take_all_iff take_append
              take_take min.absorb1)
        then have "u @ k = k @ drop (length k) (u @ k)" by (metis append_take_drop_id)
        then have "p @ k @ t = p' @ k @ drop (length k) (u @ k) @ t"
          using u(1) by (metis append_assoc)
        then show False using f \<open>\<not> length p \<le> length p'\<close> unfolding first_occurrence_def by blast
      qed
    qed
    have "length t < length a" using a assms(2) by simp
    then show ?thesis
      using less[of t] boost_lawsD(4)[OF assms(1,2) f', of v] boost_lawsD(4)[OF assms(1,2) f, of v] a by simp
  next
    case False
    have none: "\<nexists>p t. a = p @ k @ t"
    proof
      assume ex: "\<exists>p t. a = p @ k @ t"
      define n where "n = (LEAST n. \<exists>p t. a = p @ k @ t \<and> length p = n)"
      obtain p t where pt: "a = p @ k @ t" "length p = n"
        using LeastI_ex[of "\<lambda>n. \<exists>p t. a = p @ k @ t \<and> length p = n"] ex unfolding n_def by blast
      have "first_occurrence k p t"
        unfolding first_occurrence_def
        using pt(2) unfolding n_def pt(1)[symmetric] by (auto intro!: Least_le)
      then show False using False pt(1) by blast
    qed
    have "replace_all B ((a @ [nl]) @ s) k v = (a @ [nl]) @ replace_all B s k v"
    proof (rule replace_all_skip[OF assms(1,2)])
      fix x y z assume xy: "a @ [nl] = x @ y" and y: "y \<noteq> ''''"
      show "y @ s \<noteq> k @ z"
      proof
        assume eq: "y @ s = k @ z"
        obtain y' where y': "y = y' @ [nl]" "a = x @ y'"
          using xy y by (metis append_butlast_last_id butlast_append last_appendR last_snoc butlast_snoc)
        then have "length k \<le> length y'"
          using eq assms(3) by (auto simp: one_line_def append_eq_append_conv2 Cons_eq_append_conv)
        then have "y' = k @ drop (length k) y'"
          using eq y' by (auto simp: append_eq_append_conv_if split: if_splits) (metis append_take_drop_id)
        then show False using none y'(2) by blast
      qed
    qed
    then show ?thesis using boost_lawsD(3)[OF assms(1,2) none, of v] by simp
  qed
qed

end
