(* ===== verification/Templates.thy ===== *)
theory Templates
  imports Printer
begin

text \<open>
  What the printer's replacement loop computes on a template: replacing \<open>$key$\<close> for one key after
  the other is the simultaneous substitution of all of them, when the values have no dollar
  sign, the keys are identifiers, and between two placeholders there is nothing or something that is
  not an identifier.  \<open>good_template\<close> decides the last condition on the literals of the code.
\<close>

section \<open>Texts as fields between dollar signs\<close>

fun join_fields :: "string \<Rightarrow> string list \<Rightarrow> string" where
  "join_fields f [] = f"
| "join_fields f (g # fs) = f @ CHR ''$'' # join_fields g fs"

definition no_dollar :: "string \<Rightarrow> bool" where
  "no_dollar s \<longleftrightarrow> CHR ''$'' \<notin> set s"

lemma no_dollar_simps [simp]:
  "no_dollar ''''" "no_dollar (c # s) \<longleftrightarrow> c \<noteq> CHR ''$'' \<and> no_dollar s"
  "no_dollar (a @ s) \<longleftrightarrow> no_dollar a \<and> no_dollar s"
  by (auto simp: no_dollar_def)

fun rep_fields :: "string \<Rightarrow> string \<Rightarrow> string \<Rightarrow> string list \<Rightarrow> string \<times> string list" where
  "rep_fields k v f (g # h # fs) =
     (if g = k then let (f', fs') = rep_fields k v h fs in (f @ v @ f', fs')
      else let (g', fs') = rep_fields k v g (h # fs) in (f, g' # fs'))"
| "rep_fields k v f fs = (f, fs)"

definition dollar_key :: "string \<Rightarrow> string" where
  "dollar_key k = CHR ''$'' # k @ ''$''"

lemma dollar_prefix_unique:
  assumes "no_dollar g" and "no_dollar k" and "g @ CHR ''$'' # x = k @ CHR ''$'' # y"
  shows "g = k \<and> x = y"
  using assms
proof (induction g arbitrary: k)
  case Nil
  then show ?case by (cases k) auto
next
  case (Cons c g)
  then show ?case by (cases k) auto
qed

lemma join_fields_append [simp]: "join_fields (a @ f) fs = a @ join_fields f fs"
  by (cases fs) auto

lemma rep_fields_head: "\<exists>s. fst (rep_fields k v f fs) = f @ s"
  by (induction k v f fs rule: rep_fields.induct) (auto split: prod.splits)

text \<open>Replacing one key in a text of fields.\<close>

lemma replace_all_fields:
  assumes "boost_laws B"
  shows "no_dollar k \<Longrightarrow> no_dollar f \<Longrightarrow> list_all no_dollar fs \<Longrightarrow>
    replace_all B (join_fields f fs) (dollar_key k) v =
      (case rep_fields k v f fs of (f', fs') \<Rightarrow> join_fields f' fs')"
proof (induction k v f fs rule: rep_fields.induct [case_names pair none single])
  case (pair k v f g h fs)
  have key: "dollar_key k \<noteq> ''''" by (simp add: dollar_key_def)
  note k = pair.prems(1)
  have nd: "no_dollar f" "no_dollar g" "no_dollar h" "list_all no_dollar fs" using pair.prems by auto
  show ?case
  proof (cases "g = k")
    case True
    have "first_occurrence (dollar_key k) f (join_fields h fs)"
      unfolding first_occurrence_def
    proof (intro allI impI)
      fix p s assume eq: "f @ dollar_key k @ join_fields h fs = p @ dollar_key k @ s"
      show "length f \<le> length p"
      proof (rule ccontr)
        assume "\<not> length f \<le> length p"
        moreover have "(f @ dollar_key k @ join_fields h fs) ! length p = CHR ''$''"
          unfolding eq by (simp add: dollar_key_def)
        ultimately have "CHR ''$'' \<in> set f" by (metis not_le nth_append nth_mem)
        then show False using nd(1) by (simp add: no_dollar_def)
      qed
    qed
    from boost_lawsD(4)[OF assms(1) key this, of v] show ?thesis
      using True pair.IH(1)[OF True k nd(3,4)] by (simp add: dollar_key_def split: prod.splits)
  next
    case False
    have "replace_all B ((f @ ''$'') @ join_fields g (h # fs)) (dollar_key k) v =
        (f @ ''$'') @ replace_all B (join_fields g (h # fs)) (dollar_key k) v"
    proof (rule replace_all_skip[OF assms(1) key])
      fix a b x assume ab: "f @ ''$'' = a @ b" "b \<noteq> ''''"
      show "b @ join_fields g (h # fs) \<noteq> dollar_key k @ x"
      proof
        assume eq: "b @ join_fields g (h # fs) = dollar_key k @ x"
        then obtain b' where b: "b = CHR ''$'' # b'" using ab(2) by (cases b) (auto simp: dollar_key_def)
        then have "b' = ''''"
          using ab(1) nd(1) by (cases b' rule: rev_cases) (auto simp: append_eq_append_conv2 Cons_eq_append_conv)
        then show False
          using eq b dollar_prefix_unique[OF nd(2) k, of "join_fields h fs" x] False
          by (simp add: dollar_key_def)
      qed
    qed
    then show ?thesis
      using pair.IH(2)[OF False k] nd False by (simp split: prod.splits)
  qed
next
  case (none k v f)
  have "\<nexists>p s. f = p @ dollar_key k @ s" using none by (auto simp: dollar_key_def)
  then show ?case using boost_lawsD(3)[OF assms(1)] by (simp add: dollar_key_def)
next
  case (single k v f g)
  have "\<nexists>p s. join_fields f [g] = p @ dollar_key k @ s"
  proof
    assume "\<exists>p s. join_fields f [g] = p @ dollar_key k @ s"
    then obtain p s where "count_list (join_fields f [g]) (CHR ''$'') = count_list (p @ dollar_key k @ s) (CHR ''$'')"
      by metis
    then show False
      using single by (simp add: dollar_key_def no_dollar_def count_notin)
  qed
  then show ?case using boost_lawsD(3)[OF assms(1)] by (simp add: dollar_key_def)
qed

section \<open>Templates\<close>

text \<open>
  A template is a text with an even number of dollar signs: literal \<open>f\<close>, then pairs of a
  placeholder and the literal after it.
\<close>

definition placeholder :: "(string \<rightharpoonup> string) \<Rightarrow> string \<Rightarrow> string" where
  "placeholder m v = (case m v of None \<Rightarrow> dollar_key v | Some x \<Rightarrow> x)"

fun subst_fields :: "(string \<rightharpoonup> string) \<Rightarrow> string \<Rightarrow> string list \<Rightarrow> string" where
  "subst_fields m f (v # l # fs) = f @ placeholder m v @ subst_fields m l fs"
| "subst_fields m f fs = join_fields f fs"

definition between :: "char \<Rightarrow> char \<Rightarrow> char \<Rightarrow> bool" where
  [simp]: "between lo hi c \<longleftrightarrow> lo \<le> c \<and> c \<le> hi"

definition name_char :: "char \<Rightarrow> bool" where
  "name_char c \<longleftrightarrow> c \<noteq> CHR ''$'' \<and> c \<noteq> nl \<and>
     (c = CHR ''_'' \<or> between (CHR ''a'') (CHR ''z'') c \<or> between (CHR ''A'') (CHR ''Z'') c \<or>
      between (CHR ''0'') (CHR ''9'') c)"

definition key_name :: "string \<Rightarrow> bool" where
  "key_name k \<longleftrightarrow> k \<noteq> '''' \<and> list_all name_char k"

definition solid :: "string \<Rightarrow> bool" where
  "solid l \<longleftrightarrow> list_ex (\<lambda>c. \<not> name_char c) l"

lemma solid_append [simp]: "solid (a @ b) \<longleftrightarrow> solid a \<or> solid b"
  by (simp add: solid_def)

fun spaced :: "string list \<Rightarrow> bool" where
  "spaced [] = True"
| "spaced [v] = False"
| "spaced [v, l] = True"
| "spaced [v, l, w] = False"
| "spaced (v # l # w # m # fs) = ((solid l \<or> l = '''' \<and> (fs = [] \<or> solid m)) \<and> spaced (w # m # fs))"

lemma key_name_facts:
  assumes "key_name k"
  shows "k \<noteq> ''''" and "\<not> solid k" and "no_dollar k" and "one_line k"
  using assms
  by (auto simp: key_name_def solid_def no_dollar_def one_line_def list_all_iff list_ex_iff name_char_def)

text \<open>Replacing one placeholder of a template.\<close>

fun rep_pairs :: "string \<Rightarrow> string \<Rightarrow> string \<Rightarrow> string list \<Rightarrow> string \<times> string list" where
  "rep_pairs k x f (v # l # fs) =
     (let (h, t) = rep_pairs k x l fs in if v = k then (f @ x @ h, t) else (f, v # h # t))"
| "rep_pairs k x f fs = (f, fs)"

lemma spaced_Cons: "spaced (v # l # fs) \<Longrightarrow> spaced fs \<and> (fs = [] \<or> solid l \<or> l = '''')"
  by (cases fs rule: spaced.cases) auto

lemma rep_fields_pairs:
  "key_name k \<Longrightarrow> spaced fs \<Longrightarrow> rep_fields k x f fs = rep_pairs k x f fs"
proof (induction k x f fs rule: rep_pairs.induct)
  case (1 k x f v l fs)
  note s = spaced_Cons[OF "1.prems"(2)]
  have "fs = [] \<or> l \<noteq> k" using s key_name_facts[OF "1.prems"(1)] by auto
  moreover have "\<nexists>w. fs = [w]" using s by auto
  ultimately show ?case
    using "1.IH" "1.prems"(1) s
    by (cases fs rule: spaced.cases) (auto split: prod.splits)
qed auto

lemma rep_pairs_head: "\<exists>s. fst (rep_pairs k x f fs) = f @ s"
  by (induction k x f fs rule: rep_pairs.induct) (auto split: prod.splits)

lemma spaced_solid: "solid l \<Longrightarrow> spaced fs \<Longrightarrow> spaced (v # l # fs)"
  by (cases fs rule: spaced.cases) auto

lemma rep_pairs_spaced: "spaced fs \<Longrightarrow> spaced (snd (rep_pairs k x f fs))"
proof (induction fs arbitrary: f rule: spaced.induct)
  case (5 v l w m fs)
  obtain h t where r: "rep_pairs k x m fs = (h, t)" by fastforce
  have h: "solid m \<Longrightarrow> solid h" using rep_pairs_head[of k x m fs] r by auto
  have t: "fs = [] \<Longrightarrow> t = []" using r by auto
  have s: "spaced (w # m # fs)" and c: "solid l \<or> l = '''' \<and> (fs = [] \<or> solid m)"
    using "5.prems" by auto
  note ih = "5.IH"[OF s, of l]
  show ?case
  proof (cases "v = k \<or> w \<noteq> k")
    case True
    then show ?thesis using ih h t c r by (auto split: prod.splits if_splits)
  next
    case False
    then have "spaced t" using ih r by simp
    then show ?thesis using False c h t r spaced_solid[of "l @ x @ h" t v] by auto
  qed
qed (auto split: prod.splits)

lemma rep_pairs_no_dollar:
  "no_dollar x \<Longrightarrow> no_dollar f \<Longrightarrow> list_all no_dollar fs \<Longrightarrow>
   no_dollar (fst (rep_pairs k x f fs)) \<and> list_all no_dollar (snd (rep_pairs k x f fs))"
  by (induction k x f fs rule: rep_pairs.induct) (auto split: prod.splits)

lemma subst_fields_append: "subst_fields m (a @ f) fs = a @ subst_fields m f fs"
  by (cases "(m, f, fs)" rule: subst_fields.cases) auto

lemma subst_rep_pairs:
  "spaced fs \<Longrightarrow> subst_fields (map_of ((k, x) # vs)) f fs = (case rep_pairs k x f fs of (h, t) \<Rightarrow> subst_fields (map_of vs) h t)"
proof (induction k x f fs rule: rep_pairs.induct)
  case (1 k x f v l fs)
  then show ?case
    using "1.IH" spaced_Cons[OF "1.prems"] by (auto simp: placeholder_def subst_fields_append split: prod.splits)
qed auto

lemma subst_fields_none: "spaced fs \<Longrightarrow> subst_fields (\<lambda>_. None) f fs = join_fields f fs"
proof (induction "\<lambda>_ :: string. None :: string option" f fs rule: subst_fields.induct)
  case (1 f v l fs)
  then show ?case using spaced_Cons[OF "1.prems"] 1 by (simp add: placeholder_def dollar_key_def)
qed auto

text \<open>All placeholders: the loop of the printer.\<close>

lemma replace_vars_fields:
  assumes "boost_laws B"
  shows "list_all (\<lambda>(k, x). key_name k \<and> no_dollar x) vs \<Longrightarrow> no_dollar f \<Longrightarrow> list_all no_dollar fs \<Longrightarrow>
    spaced fs \<Longrightarrow> replace_vars B vs (join_fields f fs) = subst_fields (map_of vs) f fs"
proof (induction vs arbitrary: f fs)
  case Nil
  then show ?case by (simp add: subst_fields_none)
next
  case (Cons kx vs)
  obtain k x where kx: "kx = (k, x)" by fastforce
  obtain h t where r: "rep_pairs k x f fs = (h, t)" by fastforce
  have k: "key_name k" "no_dollar x" using Cons.prems(1) kx by auto
  have "no_dollar h" "list_all no_dollar t" "spaced t"
    using rep_pairs_no_dollar[OF k(2) Cons.prems(2,3), of k] rep_pairs_spaced[OF Cons.prems(4), of k x f] r
    by auto
  moreover have "replace_all B (join_fields f fs) (''$'' @ k @ ''$'') x = join_fields h t"
    using replace_all_fields[OF assms key_name_facts(3)[OF k(1)] Cons.prems(2,3), of x] r
    by (simp add: rep_fields_pairs[OF k(1) Cons.prems(4)] dollar_key_def)
  moreover have "subst_fields (map_of (kx # vs)) f fs = subst_fields (map_of vs) h t"
    using subst_rep_pairs[OF Cons.prems(4), of k x vs f] r unfolding kx by simp
  moreover have "replace_vars B vs (join_fields h t) = subst_fields (map_of vs) h t"
    using Cons.IH Cons.prems(1) calculation(1-3) by simp
  ultimately show ?case unfolding kx by (simp only: replace_vars.simps Let_def)
qed

section \<open>Reading a template\<close>

fun fields_of :: "string \<Rightarrow> string \<times> string list" where
  "fields_of [] = ([], [])"
| "fields_of (c # s) =
     (let (f, fs) = fields_of s in if c = CHR ''$'' then ([], f # fs) else (c # f, fs))"

definition good_template :: "string \<Rightarrow> bool" where
  "good_template s \<longleftrightarrow> spaced (snd (fields_of s))"

definition instance_of :: "(string \<rightharpoonup> string) \<Rightarrow> string \<Rightarrow> string" where
  "instance_of m s = (case fields_of s of (f, fs) \<Rightarrow> subst_fields m f fs)"

lemma fields_of_inverse:
  "join_fields (fst (fields_of s)) (snd (fields_of s)) = s \<and>
   no_dollar (fst (fields_of s)) \<and> list_all no_dollar (snd (fields_of s))"
proof (induction s)
  case (Cons c s)
  obtain f fs where "fields_of s = (f, fs)" by fastforce
  then show ?case using Cons join_fields_append[of "[c]" f fs] by auto
qed simp

definition good_vars :: "vars \<Rightarrow> bool" where
  "good_vars vs \<longleftrightarrow> list_all (\<lambda>(k, x). key_name k \<and> no_dollar x \<and> one_line x) vs"

lemma replace_vars_template:
  assumes "boost_laws B" and "good_vars vs" and "good_template s"
  shows "replace_vars B vs s = instance_of (map_of vs) s"
  using replace_vars_fields[OF assms(1), of vs "fst (fields_of s)" "snd (fields_of s)"]
    fields_of_inverse[of s] assms(2,3)
  by (auto simp: good_vars_def good_template_def instance_of_def list_all_iff split: prod.splits)

section \<open>Adding templates line by line\<close>

lemma replace_vars_nl:
  assumes "boost_laws B"
  shows "good_vars vs \<Longrightarrow> replace_vars B vs (a @ nl # s) = replace_vars B vs a @ nl # replace_vars B vs s"
proof (induction vs arbitrary: a s)
  case (Cons kx vs)
  obtain k x where kx: "kx = (k, x)" by fastforce
  then have "one_line (''$'' @ k @ ''$'')" and "''$'' @ k @ ''$'' \<noteq> ''''" and "good_vars vs"
    using Cons.prems key_name_facts(4)[of k] by (auto simp: good_vars_def nl_def)
  then show ?case using kx Cons.IH replace_all_nl[OF assms] by simp
qed simp

lemma replace_vars_lines:
  assumes "boost_laws B" and "good_vars vs" and "list_all good_template (l # ls)"
  shows "replace_vars B vs (code_lines ls @ l) = code_lines (map (instance_of (map_of vs)) ls) @ instance_of (map_of vs) l"
  using assms(3)
proof (induction ls)
  case (Cons a ls)
  then show ?case
    by (simp add: replace_vars_nl[OF assms(1,2)] replace_vars_template[OF assms(1,2)])
qed (simp add: replace_vars_template[OF assms(1,2)])

lemma good_vars_placeholder:
  assumes "good_vars vs" and "one_line v"
  shows "one_line (placeholder (map_of vs) v)"
  using assms by (auto simp: placeholder_def good_vars_def list_all_iff dollar_key_def nl_def
      dest!: map_of_SomeD split: option.splits)

lemma subst_fields_one_line:
  "good_vars vs \<Longrightarrow> one_line f \<Longrightarrow> list_all one_line fs \<Longrightarrow> one_line (subst_fields (map_of vs) f fs)"
  by (induction "map_of vs" f fs rule: subst_fields.induct) (auto simp: good_vars_placeholder nl_def)

lemma fields_of_one_line:
  "one_line s \<Longrightarrow> one_line (fst (fields_of s)) \<and> list_all one_line (snd (fields_of s))"
  by (induction s) (auto split: prod.splits)

lemma instance_of_one_line: "good_vars vs \<Longrightarrow> one_line s \<Longrightarrow> one_line (instance_of (map_of vs) s)"
  using subst_fields_one_line[of vs "fst (fields_of s)" "snd (fields_of s)"] fields_of_one_line[of s]
  by (cases "fields_of s") (simp add: instance_of_def)

text \<open>A text of good lines is added as its lines with every placeholder replaced.\<close>

definition good_line :: "string \<Rightarrow> bool" where
  "good_line l \<longleftrightarrow> good_template l \<and> one_line l"

lemma AddVars_lines:
  assumes "boost_laws B" and "good_vars vs" and "list_all good_line (l # ls)"
  shows "AddVars B vs (code_lines ls @ l) p =
    p\<lparr>p_output := p_output p @ emit (p_indent p) (map (instance_of (map_of vs)) (ls @ [l]))\<rparr>"
proof -
  have t: "list_all good_template (l # ls)" and o: "list_all one_line (l # ls)"
    using assms(3) by (auto simp: good_line_def list_all_iff)
  have "list_all one_line (map (instance_of (map_of vs)) ls)" "one_line (instance_of (map_of vs) l)"
    using o instance_of_one_line[OF assms(2)] by (auto simp: list_all_iff)
  from Add_lines[OF assms(1) this] show ?thesis
    using replace_vars_lines[OF assms(1,2) t] by (simp add: AddVars_def)
qed

end
