(* ===== verification/Generator.thy ===== *)
theory Generator
  imports Templates Operation
begin

text \<open>
  The first protoc plugin, src/generator/gen.hpp: \<open>pbGen\<close> turns the descriptor of a proto file
  into the text of the generated header and source.  A printing function is a sequence of
  statements on a state that holds the printer and the map of variables; the descriptors of the
  protobuf library are records of the accessors that the code calls.
\<close>

section \<open>Descriptors\<close>

record method_descriptor =
  md_name :: string
  md_input :: string
  md_output :: string
  md_client_streaming :: bool
  md_server_streaming :: bool

record service_descriptor =
  sd_name :: string
  sd_methods :: "method_descriptor list"

record file_descriptor =
  fd_name :: string
  fd_package :: string
  fd_services :: "service_descriptor list"

text \<open>\<open>rfind(".proto")\<close> and the cut before it.\<close>

fun rfind :: "string \<Rightarrow> string \<Rightarrow> nat option" where
  "rfind pat [] = (if pat = '''' then Some 0 else None)"
| "rfind pat (c # s) =
     (case rfind pat s of
        Some i \<Rightarrow> Some (Suc i)
      | None \<Rightarrow> if starts_with (c # s) pat then Some 0 else None)"

definition getProtoNameNoExt :: "string \<Rightarrow> string" where
  "getProtoNameNoExt filename =
     (case rfind ''.proto'' filename of None \<Rightarrow> filename | Some dot \<Rightarrow> take dot filename)"

section \<open>Statements\<close>

record gen_state =
  gs_printer :: printer
  gs_vars :: vars

type_synonym stmt = "gen_state \<Rightarrow> gen_state exec"

fun block :: "stmt list \<Rightarrow> stmt" where
  "block [] g = Inr g"
| "block (s # ss) g = ebind (s g) (block ss)"

text \<open>A function that takes the map by value: the caller keeps its own.\<close>

definition by_value :: "stmt \<Rightarrow> stmt" where
  "by_value s g = ebind (s g) (\<lambda>g'. Inr (g'\<lparr>gs_vars := gs_vars g\<rparr>))"

definition add :: "boost_api \<Rightarrow> string \<Rightarrow> stmt" where
  "add B t g = Inr (g\<lparr>gs_printer := Add B t (gs_printer g)\<rparr>)"

definition add_ln :: "boost_api \<Rightarrow> string \<Rightarrow> stmt" where
  "add_ln B t g = Inr (g\<lparr>gs_printer := AddLn B t (gs_printer g)\<rparr>)"

definition addv :: "boost_api \<Rightarrow> string \<Rightarrow> stmt" where
  "addv B t g = Inr (g\<lparr>gs_printer := AddVars B (gs_vars g) t (gs_printer g)\<rparr>)"

definition addv_ln :: "boost_api \<Rightarrow> string \<Rightarrow> stmt" where
  "addv_ln B t g = Inr (g\<lparr>gs_printer := AddLnVars B (gs_vars g) t (gs_printer g)\<rparr>)"

definition indent :: stmt where
  "indent g = Inr (g\<lparr>gs_printer := Indent (gs_printer g)\<rparr>)"

definition outdent :: "build \<Rightarrow> stmt" where
  "outdent b g = ebind (Outdent b (gs_printer g)) (\<lambda>p. Inr (g\<lparr>gs_printer := p\<rparr>))"

definition assign :: "string \<Rightarrow> string \<Rightarrow> stmt" where
  "assign k v g = Inr (g\<lparr>gs_vars := set_var k v (gs_vars g)\<rparr>)"

definition for_each :: "('a \<Rightarrow> stmt) \<Rightarrow> 'a list \<Rightarrow> stmt" where
  "for_each f xs = block (map f xs)"

text \<open>A loop over the index.\<close>

definition for_index :: "(nat \<Rightarrow> 'a \<Rightarrow> stmt) \<Rightarrow> 'a list \<Rightarrow> stmt" where
  "for_index f xs = block (map (\<lambda>(i, x). f i x) (enumerate 0 xs))"

text \<open>The text that a sequence of statements writes into a new printer.\<close>

definition generated :: "stmt \<Rightarrow> string exec" where
  "generated s = ebind (s \<lparr>gs_printer = mk_printer, gs_vars = []\<rparr>) (\<lambda>g. Inr (GetOutput (gs_printer g)))"

section \<open>What both parts of a file begin with\<close>

definition method_vars :: "method_descriptor \<Rightarrow> stmt" where
  "method_vars m = block
     [assign ''Method'' (md_name m), assign ''Request'' (md_input m), assign ''Response'' (md_output m)]"

definition no_streaming :: "method_descriptor \<Rightarrow> bool" where
  "no_streaming m \<longleftrightarrow> \<not> (md_client_streaming m \<or> md_server_streaming m)"

definition streaming_note :: string where
  "streaming_note =
     ''// Streamingfor method $Method$ request $Request$ response $Response$ not supported ''"

definition file_vars :: "file_descriptor \<Rightarrow> stmt" where
  "file_vars file = block
     [assign ''filename'' (fd_name file),
      assign ''filename_base'' (getProtoNameNoExt (fd_name file)),
      assign ''message_header_ext'' ''.pb.h'']"

text \<open>\<open>Package\<close> ends with a dot unless it is empty, \<open>Namespace\<close> has a default.\<close>

definition package_vars :: "string \<Rightarrow> file_descriptor \<Rightarrow> stmt" where
  "package_vars default_namespace file = block
     [assign ''Package'' (if fd_package file \<noteq> '''' then fd_package file @ ''.'' else fd_package file),
      assign ''Namespace'' (if fd_package file = '''' then default_namespace else fd_package file)]"

section \<open>The header: services\<close>

definition PrintHeaderServerMethodSync :: "boost_api \<Rightarrow> method_descriptor \<Rightarrow> stmt" where
  "PrintHeaderServerMethodSync B m = block
     [method_vars m,
      if no_streaming m
      then block
        [addv_ln B
           (''virtual fabricrpc::Status Begin$Method$('' @
            ''const $Request$* request, DWORD timeoutMilliseconds,'' @
            ''IFabricAsyncOperationCallback *callback, /*out*/ '' @
            ''IFabricAsyncOperationContext **context) = 0;''),
         addv_ln B
           (''virtual fabricrpc::Status End$Method$('' @
            ''IFabricAsyncOperationContext *context, /*out*/$Response$* '' @
            ''response) = 0;'')]
      else add_ln B streaming_note]"

definition PrintHeaderService :: "build \<Rightarrow> boost_api \<Rightarrow> service_descriptor \<Rightarrow> stmt" where
  "PrintHeaderService b B s = by_value (block
     [assign ''Service'' (sd_name s),
      addv B (code_lines [''class $Service$ final {'', ''  public:'']),
      indent,
      addv B (code_lines
        [''static constexpr char const* service_full_name() {'',
         ''  return \"$Package$$Service$\";'',
         ''}'']),
      add B (code_lines [''class Service : public fabricrpc::MiddleWare {'', ''  public:'']),
      indent,
      add B (code_lines [''Service() {};'']),
      add B (code_lines [''virtual ~Service() {};'']),
      for_each (PrintHeaderServerMethodSync B) (sd_methods s),
      addv_ln B
        (''virtual fabricrpc::Status Route(const std::string & url, '' @
         ''std::unique_ptr<fabricrpc::IBeginOperation> & beginOp, '' @
         ''std::unique_ptr<fabricrpc::IEndOperation> & endOp) override;''),
      outdent b,
      add B (code_lines [''};'']),
      outdent b,
      add_ln B ''};''])"

definition GetHeaderServices :: "build \<Rightarrow> boost_api \<Rightarrow> file_descriptor \<Rightarrow> string exec" where
  "GetHeaderServices b B file = generated (block
     [package_vars ''fabricrpc'' file,
      addv_ln B ''// Service pkg $Package$'',
      addv_ln B ''namespace $Namespace$ {'',
      for_each (PrintHeaderService b B) (fd_services file),
      add_ln B
        (''void CreateFabricRPCRequestHandler(const '' @
         ''std::vector<std::shared_ptr<fabricrpc::MiddleWare>> & svcList, '' @
         ''IFabricTransportMessageHandler ** handler);''),
      addv_ln B ''} // namespace $Namespace$''])"

section \<open>The header: clients\<close>

definition PrintHeaderClientMethodSync :: "boost_api \<Rightarrow> method_descriptor \<Rightarrow> stmt" where
  "PrintHeaderClientMethodSync B m = block
     [method_vars m,
      if no_streaming m
      then block
        [addv_ln B
           (''fabricrpc::Status Begin$Method$('' @
            ''const $Request$* request, '' @
            ''DWORD timeoutMilliseconds, '' @
            ''IFabricAsyncOperationCallback *callback, /*out*/ '' @
            ''IFabricAsyncOperationContext **context);''),
         addv_ln B
           (''fabricrpc::Status End$Method$('' @
            ''IFabricAsyncOperationContext *context, /*out*/$Response$* '' @
            ''response);'')]
      else add_ln B streaming_note]"

definition PrintHeaderClientService :: "build \<Rightarrow> boost_api \<Rightarrow> service_descriptor \<Rightarrow> stmt" where
  "PrintHeaderClientService b B s = by_value (block
     [assign ''Service'' (sd_name s),
      addv B (code_lines [''class $Service$Client{'', ''public:'']),
      indent,
      addv_ln B ''$Service$Client(IFabricTransportClient * client);'',
      for_each (PrintHeaderClientMethodSync B) (sd_methods s),
      outdent b,
      add B (code_lines [''private:'']),
      add B (code_lines
        [''  CComPtr<IFabricTransportClient> client_;'',
         ''  std::shared_ptr<fabricrpc::IFabricRPCHeaderProtoConverter> cv_;'']),
      add B (code_lines [''};''])])"

definition GetHeaderClients :: "build \<Rightarrow> boost_api \<Rightarrow> file_descriptor \<Rightarrow> string exec" where
  "GetHeaderClients b B file = generated (block
     [package_vars ''fabricrpc'' file,
      addv_ln B ''// Client code'',
      addv_ln B ''namespace $Namespace$ {'',
      for_each (PrintHeaderClientService b B) (fd_services file),
      addv_ln B ''} // namespace $Namespace$''])"

definition GenerateHeaderContent :: "build \<Rightarrow> boost_api \<Rightarrow> file_descriptor \<Rightarrow> string exec" where
  "GenerateHeaderContent b B file =
     ebind (generated (block
       [file_vars file,
        add_ln B ''// Generated by fabric_rpc_cpp_plugin. Do not Edit.'',
        addv_ln B ''// source: $filename$'',
        addv_ln B ''#pragma once'',
        addv_ln B ''#include \"$filename_base$$message_header_ext$\"'',
        add B (code_lines
          [''#include \"fabrictransport_.h\"'',
           ''#include <atlbase.h>'',
           ''#include <atlcom.h>'',
           ''#include \"fabricrpc/Operation.hpp\"'',
           ''#include \"fabricrpc/FRPCHeader.hpp\"''])])) (\<lambda>out.
     ebind (GetHeaderServices b B file) (\<lambda>services_code.
     ebind (GetHeaderClients b B file) (\<lambda>clients_code.
     Inr (out @ services_code @ clients_code))))"

section \<open>The source: services\<close>

definition route_url_test :: string where
  "route_url_test = ''if (url == \"/$Package$$Service$/$Method$\") {''"

definition PrintCCService_method :: "build \<Rightarrow> boost_api \<Rightarrow> nat \<Rightarrow> method_descriptor \<Rightarrow> stmt" where
  "PrintCCService_method b B i m = block
     [method_vars m,
      if i \<noteq> 0 then add B ''else '' else block [],
      addv B (code_lines [route_url_test]),
      indent,
      addv B (code_lines
        [''auto bo = std::bind(&Service::Begin$Method$, this, '' @ ''std::placeholders::_1,'',
         ''              std::placeholders::_2, std::placeholders::_3, '' @ ''std::placeholders::_4);'',
         ''auto eo = std::bind(&Service::End$Method$, this, '' @ ''std::placeholders::_1,'',
         ''              std::placeholders::_2);'',
         ''beginOp = '' @ ''std::make_unique<fabricrpc::BeginOperation<$Request$>>(bo);'',
         ''endOp = '' @ ''std::make_unique<fabricrpc::EndOperation<$Response$>>(eo);'']),
      outdent b,
      add B ''}'']"

definition PrintCCService :: "build \<Rightarrow> boost_api \<Rightarrow> service_descriptor \<Rightarrow> stmt" where
  "PrintCCService b B s = by_value (block
     [assign ''Service'' (sd_name s),
      addv_ln B
        (''fabricrpc::Status $Service$::Service::Route(const std::string & '' @
         ''url, std::unique_ptr<fabricrpc::IBeginOperation> & beginOp, '' @
         ''std::unique_ptr<fabricrpc::IEndOperation> & endOp) {''),
      indent,
      for_index (PrintCCService_method b B) (sd_methods s),
      add B (code_lines
        [''else {'',
         ''  return fabricrpc::Status(fabricrpc::StatusCode::NOT_FOUND, '' @
         ''\"method not found: \" + url);'',
         ''}'']),
      add_ln B ''return fabricrpc::Status();'',
      outdent b,
      add_ln B ''}''])"

definition GetCCServices :: "build \<Rightarrow> boost_api \<Rightarrow> file_descriptor \<Rightarrow> string exec" where
  "GetCCServices b B file = generated (block
     [package_vars ''fabricrpc'' file,
      addv_ln B ''// Service pkg $Package$'',
      addv_ln B ''namespace $Namespace$ {'',
      for_each (PrintCCService b B) (fd_services file),
      add_ln B (code_lines
        [''void CreateFabricRPCRequestHandler(const '' @
         ''std::vector<std::shared_ptr<fabricrpc::MiddleWare>> & svcList,''] @
        (''                                    '' @ ''IFabricTransportMessageHandler **handler) {'')),
      indent,
      add_ln B (code_lines
        [''using privateconverter = '' @ ''fabricrpc::FabricRPCHeaderProtoConverter<fabricrpc::request_'' @
         ''header, fabricrpc::reply_header>;'',
         ''std::shared_ptr<fabricrpc::IFabricRPCHeaderProtoConverter> cv = '' @
         ''std::make_shared<privateconverter>();'',
         ''CComPtr<CComObjectNoLock<fabricrpc::FRPCRequestHandler>> '' @ ''msgHandlerPtr('',
         ''  new CComObjectNoLock<fabricrpc::FRPCRequestHandler>());'',
         ''msgHandlerPtr->Initialize(svcList, cv);'',
         ''*handler = msgHandlerPtr.Detach();'']),
      outdent b,
      add_ln B ''}'',
      addv_ln B ''} // namespace $Namespace$''])"

section \<open>The source: clients\<close>

definition client_begin_call :: string where
  "client_begin_call =
     ''  return fabricrpc::ExecClientBegin(client_, cv_, '' @
     ''timeoutMilliseconds, \"/$Package$$Service$/$Method$\", request,''"

definition PrintCCClientService_method :: "boost_api \<Rightarrow> method_descriptor \<Rightarrow> stmt" where
  "PrintCCClientService_method B m = block
     [method_vars m,
      if no_streaming m
      then block
        [addv_ln B (code_lines
           [''fabricrpc::Status $Service$Client::Begin$Method$('' @
            ''const $Request$* request, '' @
            ''DWORD timeoutMilliseconds, '' @
            ''IFabricAsyncOperationCallback *callback, /*out*/ '' @
            ''IFabricAsyncOperationContext **context){'',
            client_begin_call,
            ''             callback, context);'' @ ''}'']),
         addv_ln B (code_lines
           [''fabricrpc::Status $Service$Client::End$Method$('' @
            ''IFabricAsyncOperationContext *context, '' @
            ''/*out*/$Response$* response){'',
            ''  return fabricrpc::ExecClientEnd(client_, cv_, '' @ ''context, response);'' @ ''}''])]
      else add_ln B streaming_note]"

definition PrintCCClientService :: "boost_api \<Rightarrow> service_descriptor \<Rightarrow> stmt" where
  "PrintCCClientService B s = by_value (block
     [assign ''Service'' (sd_name s),
      addv B (code_lines
        [''using privateconverter = '' @
         ''fabricrpc::FabricRPCHeaderProtoConverter<fabricrpc::request_header, '' @
         ''fabricrpc::reply_header>;'',
         ''$Service$Client::$Service$Client(IFabricTransportClient *client)'',
         ''  : client_(), cv_(std::make_shared<privateconverter>()) {'',
         ''  client->AddRef();'',
         ''  client_.Attach(client);'',
         ''}'']),
      for_each (PrintCCClientService_method B) (sd_methods s)])"

definition GetCCClientServices :: "boost_api \<Rightarrow> file_descriptor \<Rightarrow> string exec" where
  "GetCCClientServices B file = generated (block
     [package_vars ''fabricrpc'' file,
      addv_ln B ''// Client code'',
      addv_ln B ''namespace $Namespace$ {'',
      for_each (PrintCCClientService B) (fd_services file),
      addv_ln B ''} // namespace $Namespace$''])"

definition GenerateCCContent :: "build \<Rightarrow> boost_api \<Rightarrow> file_descriptor \<Rightarrow> string exec" where
  "GenerateCCContent b B file =
     ebind (generated (block
       [file_vars file,
        add_ln B ''// Generated by fabric_rpc_cpp_plugin. Do not Edit.'',
        addv_ln B ''// source: $filename$'',
        addv_ln B ''#include \"$filename_base$.fabricrpc.h\"'',
        addv_ln B ''#include <fabricrpc.pb.h>'',
        add B (code_lines
          [''#include <functional>'',
           ''#include \"fabricrpc/ClientHelpers.hpp\"'',
           ''#include \"fabricrpc/FRPCRequestHandler.hpp\"'',
           ''#include \"fabricrpc/FRPCHeader.hpp\"''])])) (\<lambda>out.
     ebind (GetCCServices b B file) (\<lambda>services_cc_code.
     ebind (GetCCClientServices B file) (\<lambda>clients_code.
     Inr (out @ services_cc_code @ clients_code))))"

text \<open>\<open>CodeGenerator::Generate\<close>: the files that are written, with their content.\<close>

definition Generate :: "build \<Rightarrow> boost_api \<Rightarrow> file_descriptor \<Rightarrow> (string \<times> string) list exec" where
  "Generate b B file =
     (let proto_name = getProtoNameNoExt (fd_name file)
      in ebind (GenerateHeaderContent b B file) (\<lambda>header.
         ebind (GenerateCCContent b B file) (\<lambda>cc.
         Inr [(proto_name @ ''.fabricrpc.h'', header), (proto_name @ ''.fabricrpc.cc'', cc)])))"

end
