(* ===== verification/Generator2.thy ===== *)
theory Generator2
  imports Generator
begin

text \<open>
  The second protoc plugin, src/generator2/code_generator.hpp.  Its printer is the same as that of
  the first plugin; the classes \<open>pbGenMetaHeader\<close>, \<open>pbGenClientHeader\<close> and \<open>pbGenServerHeader\<close>
  write the three parts of the one generated header, and the two classes for the source write nothing.
\<close>

section \<open>The head of the file\<close>

definition MetaHeader_GenerateContent :: "boost_api \<Rightarrow> file_descriptor \<Rightarrow> string exec" where
  "MetaHeader_GenerateContent B file = generated (block
     [file_vars file,
      add_ln B ''// Generated by fabric_rpc2_cpp_plugin. Do not Edit.'',
      addv_ln B ''// source: $filename$'',
      addv_ln B ''#pragma once'',
      addv_ln B ''#include \"$filename_base$$message_header_ext$\"'',
      add B (code_lines
        [''#include \"fabrictransport_.h\"'',
         ''#include \"fabricrpc/fabricrpc2.hpp\"''])])"

section \<open>Clients\<close>

definition client_url_line :: string where
  "client_url_line = ''static const std::string url = \"/$Package$$Service$/$Method$\";''"

definition PrintHeaderClientMethodSync2 :: "boost_api \<Rightarrow> method_descriptor \<Rightarrow> stmt" where
  "PrintHeaderClientMethodSync2 B m = block
     [method_vars m,
      if no_streaming m
      then addv_ln B (code_lines
        [''// handler void(ec, absl::Status)'',
         ''template <typename Token>'',
         ''auto SayHello($Request$ *request,'',
         ''/*out*/$Response$ *reply, Token &&token) {'',
         client_url_line,
         ''return conn_.async_send(url, request, reply, std::move(token));''] @
         ''}'')
      else add_ln B streaming_note]"

definition PrintHeaderClientService2 :: "build \<Rightarrow> boost_api \<Rightarrow> service_descriptor \<Rightarrow> stmt" where
  "PrintHeaderClientService2 b B s = by_value (block
     [assign ''Service'' (sd_name s),
      addv B (code_lines
        [''template <typename Executor = net::any_io_executor> class '' @ ''$Service$Client{'',
         ''public:'']),
      indent,
      add_ln B ''typedef Executor executor_type;'',
      addv_ln B (''$Service$Client(fabricrpc::rpc_client<executor_type> &conn) '' @ '': conn_(conn) {}''),
      for_each (PrintHeaderClientMethodSync2 B) (sd_methods s),
      outdent b,
      add_ln B (code_lines [''private:'']),
      indent,
      add B ''fabricrpc::rpc_client<executor_type> &conn_;'',
      outdent b,
      add B (code_lines [''};''])])"

definition ClientHeader_GenerateContent :: "build \<Rightarrow> boost_api \<Rightarrow> file_descriptor \<Rightarrow> string exec" where
  "ClientHeader_GenerateContent b B file = generated (block
     [package_vars ''fabricrpc2'' file,
      addv_ln B ''// Client code'',
      addv_ln B ''namespace $Namespace$ {'',
      add_ln B ''namespace net = boost::asio;'',
      for_each (PrintHeaderClientService2 b B) (fd_services file),
      addv_ln B ''} // namespace $Namespace$''])"

section \<open>Services\<close>

definition server_method_declaration :: string where
  "server_method_declaration =
     ''virtual net::awaitable<absl::Status> '' @
     ''SayHello(helloworld::FabricRequest *request,'' @
     ''helloworld::FabricResponse *resp) = 0;''"

definition PrintHeaderServerMethodSync2 :: "boost_api \<Rightarrow> method_descriptor \<Rightarrow> stmt" where
  "PrintHeaderServerMethodSync2 B m = block
     [method_vars m,
      if no_streaming m then add_ln B server_method_declaration
      else add_ln B
        (''// Streaming for method $Method$ request $Request$ response '' @ ''$Response$ not supported '')]"

definition service_name_line :: string where
  "service_name_line =
     ''const std::string_view name() override { return '' @ ''\"helloworld.FabricHello\"; }''"

definition PrintHeaderService2_method :: "build \<Rightarrow> boost_api \<Rightarrow> nat \<Rightarrow> method_descriptor \<Rightarrow> stmt" where
  "PrintHeaderService2_method b B i m = block
     [method_vars m,
      if i \<noteq> 0 then add B ''else '' else block [],
      addv B (code_lines [route_url_test]),
      indent,
      addv B (code_lines
        [''st = co_await fabricrpc::codegen_handler_helper<'',
         ''$Request$, $Response$,'',
         ''decltype(&$Service$::$Method$), decltype(this)>('',
         ''req, resp, &$Service$::$Method$, this);'']),
      outdent b,
      add_ln B ''}'']"

definition PrintHeaderService2 :: "build \<Rightarrow> boost_api \<Rightarrow> service_descriptor \<Rightarrow> stmt" where
  "PrintHeaderService2 b B s = by_value (block
     [assign ''Service'' (sd_name s),
      addv B (code_lines [''class $Service$ : public fabricrpc::service {'', ''  public:'']),
      indent,
      addv B (code_lines [service_name_line]),
      addv B (code_lines
        [''net::awaitable<absl::Status> execute(const std::string &url,'',
         ''const std::string_view req,'',
         ''std::string *resp) override {'']),
      indent,
      addv_ln B ''absl::Status st;'',
      for_index (PrintHeaderService2_method b B) (sd_methods s),
      add B (code_lines
        [''else {'',
         ''  st = absl::UnimplementedError(absl::StrCat(\"url: \", url, \" not '' @ ''found\"));'',
         ''}'']),
      add_ln B ''co_return st;'',
      outdent b,
      add_ln B ''}'',
      for_each (PrintHeaderServerMethodSync2 B) (sd_methods s),
      outdent b,
      add_ln B ''};''])"

definition ServerHeader_GenerateContent :: "build \<Rightarrow> boost_api \<Rightarrow> file_descriptor \<Rightarrow> string exec" where
  "ServerHeader_GenerateContent b B file = generated (block
     [package_vars ''fabricrpc2'' file,
      addv_ln B ''// Server code'',
      addv_ln B ''namespace $Namespace$ {'',
      add_ln B ''namespace net = boost::asio;'',
      for_each (PrintHeaderService2 b B) (fd_services file),
      addv_ln B ''} // namespace $Namespace$''])"

section \<open>The plugin\<close>

definition ClientCC_GenerateContent :: "file_descriptor \<Rightarrow> string" where
  "ClientCC_GenerateContent file = ''''"

definition ServerCC_GenerateContent :: "file_descriptor \<Rightarrow> string" where
  "ServerCC_GenerateContent file = ''''"

definition Generate2 :: "build \<Rightarrow> boost_api \<Rightarrow> file_descriptor \<Rightarrow> (string \<times> string) list exec" where
  "Generate2 b B file =
     (let proto_name = getProtoNameNoExt (fd_name file)
      in ebind (MetaHeader_GenerateContent B file) (\<lambda>meta.
         ebind (ClientHeader_GenerateContent b B file) (\<lambda>client.
         ebind (ServerHeader_GenerateContent b B file) (\<lambda>server.
         Inr [(proto_name @ ''.fabricrpc2.h'', meta @ client @ server),
              (proto_name @ ''.fabricrpc2.cc'',
               ClientCC_GenerateContent file @ ServerCC_GenerateContent file)]))))"

end
