(* ===== verification/Generator_Text.thy ===== *)
theory Generator_Text
  imports Generator2
begin

text \<open>
  How the statements of the two plugins compose.  \<open>shifts\<close> follows the indentation alone and needs
  nothing of the descriptor; \<open>writes\<close> follows the text, for descriptors whose names can stand in a
  template.  The rules are collected in \<open>shift_rules\<close> and \<open>write_rules\<close>.
\<close>

named_theorems shift_rules \<open>indentation of statements\<close>

section \<open>Indentation\<close>

definition shifts :: "64 word \<Rightarrow> 64 word \<Rightarrow> stmt \<Rightarrow> bool" where
  "shifts m n s \<longleftrightarrow>
     (\<forall>g. p_indent (gs_printer g) = m \<longrightarrow> (\<exists>g'. s g = Inr g' \<and> p_indent (gs_printer g') = n))"

lemma shifts_simple [shift_rules]:
  "shifts m m (add B t)" "shifts m m (add_ln B t)" "shifts m m (addv B t)" "shifts m m (addv_ln B t)"
  "shifts m m (assign k v)" "shifts m (m + 1) indent" "shifts m m (block [])"
  by (simp_all add: shifts_def add_def add_ln_def addv_def addv_ln_def assign_def indent_def Indent_def
      Add_def AddLn_def AddVars_def AddLnVars_def Let_def)

lemma shifts_outdent [shift_rules]: "n + 1 \<noteq> 0 \<Longrightarrow> shifts (n + 1) n (outdent b)"
  by (auto simp: shifts_def outdent_def Outdent_def cxx_assert_def word_gt_0)

lemma shifts_Cons [shift_rules]: "shifts m k s \<Longrightarrow> shifts k n (block ss) \<Longrightarrow> shifts m n (block (s # ss))"
  by (fastforce simp: shifts_def)

lemma shifts_by_value [shift_rules]: "shifts m n s \<Longrightarrow> shifts m n (by_value s)"
  by (fastforce simp: shifts_def by_value_def)

lemma shifts_if [shift_rules]:
  "(c \<Longrightarrow> shifts m n s) \<Longrightarrow> (\<not> c \<Longrightarrow> shifts m n t) \<Longrightarrow> shifts m n (if c then s else t)"
  by simp

lemma shifts_blocks: "(\<And>s. s \<in> set ss \<Longrightarrow> shifts m m s) \<Longrightarrow> shifts m m (block ss)"
  by (induction ss) (auto intro: shift_rules)

lemma shifts_for_each [shift_rules]: "(\<And>x. shifts m m (f x)) \<Longrightarrow> shifts m m (for_each f xs)"
  unfolding for_each_def by (rule shifts_blocks) auto

lemma shifts_for_index [shift_rules]: "(\<And>i x. shifts m m (f i x)) \<Longrightarrow> shifts m m (for_index f xs)"
  unfolding for_index_def by (rule shifts_blocks) auto

lemma shifts_vars [shift_rules]:
  "shifts m m (method_vars d)" "shifts m m (file_vars file)" "shifts m m (package_vars n file)"
  unfolding method_vars_def file_vars_def package_vars_def by (rule shift_rules)+

lemma generated_returns: "shifts 0 0 s \<Longrightarrow> returns (generated s)"
  unfolding shifts_def generated_def mk_printer_def
  by (drule spec[of _ "\<lparr>gs_printer = \<lparr>p_indent = 0, p_output = ''''\<rparr>, gs_vars = []\<rparr>"]) auto

lemma shifts_methods [shift_rules]:
  "shifts m m (PrintHeaderServerMethodSync B d)"
  "shifts m m (PrintHeaderClientMethodSync B d)"
  "shifts m m (PrintCCClientService_method B d)"
  "shifts m m (PrintHeaderClientMethodSync2 B d)"
  "shifts m m (PrintHeaderServerMethodSync2 B d)"
  "m + 1 \<noteq> 0 \<Longrightarrow> shifts m m (PrintCCService_method b B i d)"
  "m + 1 \<noteq> 0 \<Longrightarrow> shifts m m (PrintHeaderService2_method b B i d)"
  unfolding PrintHeaderServerMethodSync_def PrintHeaderClientMethodSync_def
    PrintCCClientService_method_def PrintHeaderClientMethodSync2_def PrintHeaderServerMethodSync2_def
    PrintCCService_method_def PrintHeaderService2_method_def
  by (((rule shift_rules | assumption)+)[1])+

lemma shifts_services [shift_rules]:
  "shifts 0 0 (PrintHeaderService b B s)"
  "shifts 0 0 (PrintHeaderClientService b B s)"
  "shifts 0 0 (PrintCCService b B s)"
  "shifts 0 0 (PrintCCClientService B s)"
  "shifts 0 0 (PrintHeaderClientService2 b B s)"
  "shifts 0 0 (PrintHeaderService2 b B s)"
  unfolding PrintHeaderService_def PrintHeaderClientService_def PrintCCService_def PrintCCClientService_def
    PrintHeaderClientService2_def PrintHeaderService2_def
  by (((rule shift_rules | simp)+)[1])+

lemma small_indents: "(0 :: 64 word) + 1 \<noteq> 0" "(0 :: 64 word) + 1 + 1 \<noteq> 0" "(0 :: 64 word) + 1 + 1 + 1 \<noteq> 0"
  by simp_all

lemma returns_ebind: "returns m \<Longrightarrow> (\<And>x. returns (f x)) \<Longrightarrow> returns (ebind m f)"
  by (cases m) auto

lemma contents_return:
  "returns (GenerateHeaderContent b B file)" "returns (GenerateCCContent b B file)"
  "returns (MetaHeader_GenerateContent B file)" "returns (ClientHeader_GenerateContent b B file)"
  "returns (ServerHeader_GenerateContent b B file)"
  unfolding GenerateHeaderContent_def GetHeaderServices_def GetHeaderClients_def GenerateCCContent_def
    GetCCServices_def GetCCClientServices_def MetaHeader_GenerateContent_def
    ClientHeader_GenerateContent_def ServerHeader_GenerateContent_def
  by (((rule returns_ebind generated_returns shift_rules small_indents returns_simps)+)[1])+

section \<open>Text\<close>

definition binds :: "vars \<Rightarrow> (string \<rightharpoonup> string) \<Rightarrow> bool" where
  "binds kvs m \<longleftrightarrow> (\<forall>(k, v) \<in> set kvs. m k = Some v)"

text \<open>
  Where the variables \<open>kvs\<close> are set and the indentation is \<open>m\<close>, the statement returns, appends the
  text \<open>t\<close>, and leaves the variables \<open>kvs'\<close> set and the indentation at \<open>n\<close>.
\<close>

definition writes :: "vars \<Rightarrow> 64 word \<Rightarrow> string \<Rightarrow> vars \<Rightarrow> 64 word \<Rightarrow> stmt \<Rightarrow> bool" where
  "writes kvs m t kvs' n s \<longleftrightarrow>
     (\<forall>g. good_vars (gs_vars g) \<and> binds kvs (map_of (gs_vars g)) \<and> p_indent (gs_printer g) = m \<longrightarrow>
        (\<exists>g'. s g = Inr g' \<and> good_vars (gs_vars g') \<and> binds kvs' (map_of (gs_vars g')) \<and>
          p_indent (gs_printer g') = n \<and> p_output (gs_printer g') = p_output (gs_printer g) @ t))"

text \<open>A template whose placeholders are all bound has one instance.\<close>

fun covered :: "string list \<Rightarrow> string list \<Rightarrow> bool" where
  "covered ks (v # l # fs) \<longleftrightarrow> v \<in> set ks \<and> covered ks fs"
| "covered ks [v] \<longleftrightarrow> False"
| "covered ks [] \<longleftrightarrow> True"

definition ready :: "string list \<Rightarrow> string \<Rightarrow> bool" where
  "ready ks l \<longleftrightarrow> good_line l \<and> covered ks (snd (fields_of l))"

lemma subst_fields_covered:
  "covered ks fs \<Longrightarrow> (\<And>k. k \<in> set ks \<Longrightarrow> m k = m' k) \<Longrightarrow> subst_fields m f fs = subst_fields m' f fs"
  by (induction m f fs rule: subst_fields.induct) (auto simp: placeholder_def)

lemma instance_of_binds:
  assumes "binds kvs m" and "distinct (map fst kvs)" and "ready (map fst kvs) l"
  shows "instance_of m l = instance_of (map_of kvs) l"
proof -
  have "m k = map_of kvs k" if "k \<in> set (map fst kvs)" for k
    using assms(1,2) that by (auto simp: binds_def)
  then show ?thesis
    using subst_fields_covered[of "map fst kvs" "snd (fields_of l)" m "map_of kvs" "fst (fields_of l)"] assms(3)
    by (cases "fields_of l") (simp add: instance_of_def ready_def)
qed

lemma writes_addv:
  assumes "boost_laws B" and "distinct (map fst kvs)" and "list_all (ready (map fst kvs)) (l # ls)"
  shows "writes kvs n (emit n (map (instance_of (map_of kvs)) (ls @ [l]))) kvs n (addv B (code_lines ls @ l))"
  unfolding writes_def
proof (intro allI impI)
  fix g :: gen_state
  assume g: "good_vars (gs_vars g) \<and> binds kvs (map_of (gs_vars g)) \<and> p_indent (gs_printer g) = n"
  have eq: "map (instance_of (map_of (gs_vars g))) (ls @ [l]) = map (instance_of (map_of kvs)) (ls @ [l])"
    using instance_of_binds[OF _ assms(2)] g assms(3) by (auto simp: list_all_iff)
  have "good_vars (gs_vars g)" and "list_all good_line (l # ls)"
    using g assms(3) by (auto simp: ready_def list_all_iff)
  from AddVars_lines[OF assms(1) this, of "gs_printer g", unfolded eq] show "\<exists>g'. addv B (code_lines ls @ l) g = Inr g' \<and> good_vars (gs_vars g') \<and>
      binds kvs (map_of (gs_vars g')) \<and> p_indent (gs_printer g') = n \<and>
      p_output (gs_printer g') = p_output (gs_printer g) @
        emit n (map (instance_of (map_of kvs)) (ls @ [l]))"
    using g by (simp add: addv_def del: map_append)
qed

lemma writes_add:
  assumes "boost_laws B" and "list_all one_line (l # ls)"
  shows "writes kvs n (emit n (ls @ [l])) kvs n (add B (code_lines ls @ l))"
  using Add_lines[OF assms(1), of ls l] assms(2) by (simp add: writes_def add_def)

lemma ready_empty [simp]: "ready ks ''''"
  by (simp add: ready_def good_line_def good_template_def)

lemma instance_of_empty [simp]: "instance_of m '''' = ''''"
  by (simp add: instance_of_def)

lemma emit_blank [simp]: "emit n [''''] = ''''"
  by (simp add: emit_def)

text \<open>The forms in which the code adds text.\<close>

lemma writes_addv_forms:
  assumes "boost_laws B" and "distinct (map fst kvs)"
  shows "list_all (ready (map fst kvs)) ls \<Longrightarrow>
      writes kvs n (emit n (map (instance_of (map_of kvs)) ls)) kvs n (addv B (code_lines ls))"
    and "list_all (ready (map fst kvs)) ls \<Longrightarrow>
      writes kvs n (emit n (map (instance_of (map_of kvs)) ls)) kvs n (addv_ln B (code_lines ls))"
    and "ready (map fst kvs) l \<Longrightarrow>
      writes kvs n (emit n [instance_of (map_of kvs) l]) kvs n (addv_ln B l)"
    and "list_all (ready (map fst kvs)) (l # ls) \<Longrightarrow>
      writes kvs n (emit n (map (instance_of (map_of kvs)) (ls @ [l]))) kvs n (addv_ln B (code_lines ls @ l))"
proof -
  have ln: "addv_ln B t = addv B (t @ [nl])" for t
    by (rule ext) (simp add: addv_ln_def addv_def AddLnVars_def)
  have snoc: "code_lines (ls @ [l]) = code_lines ls @ l @ [nl]" for ls l by (simp add: code_lines_def)
  show "writes kvs n (emit n (map (instance_of (map_of kvs)) ls)) kvs n (addv B (code_lines ls))"
    if "list_all (ready (map fst kvs)) ls"
    using writes_addv[OF assms, of "''''" ls n] that by simp
  show "writes kvs n (emit n (map (instance_of (map_of kvs)) ls)) kvs n (addv_ln B (code_lines ls))"
    if "list_all (ready (map fst kvs)) ls"
    using writes_addv[OF assms, of "''''" "ls @ ['''']" n] that unfolding ln by (simp add: snoc emit_Cons)
  show l: "writes kvs n (emit n (map (instance_of (map_of kvs)) (ls @ [l]))) kvs n (addv_ln B (code_lines ls @ l))"
    if "list_all (ready (map fst kvs)) (l # ls)" for l ls
    using writes_addv[OF assms, of "''''" "ls @ [l]" n] that unfolding ln
    by (simp add: snoc emit_Cons)
  show "writes kvs n (emit n [instance_of (map_of kvs) l]) kvs n (addv_ln B l)"
    if "ready (map fst kvs) l"
    using l[of l "[]"] that by simp
qed

lemma writes_add_forms:
  assumes "boost_laws B"
  shows "list_all one_line ls \<Longrightarrow> writes kvs n (emit n ls) kvs n (add B (code_lines ls))"
    and "list_all one_line ls \<Longrightarrow> writes kvs n (emit n ls) kvs n (add_ln B (code_lines ls))"
    and "one_line l \<Longrightarrow> writes kvs n (emit n [l]) kvs n (add B l)"
    and "one_line l \<Longrightarrow> writes kvs n (emit n [l]) kvs n (add_ln B l)"
    and "list_all one_line (l # ls) \<Longrightarrow> writes kvs n (emit n (ls @ [l])) kvs n (add_ln B (code_lines ls @ l))"
proof -
  have ln: "add_ln B t = add B (t @ [nl])" for t
    by (rule ext) (simp add: add_ln_def add_def AddLn_def)
  have snoc: "code_lines (ls @ [l]) = code_lines ls @ l @ [nl]" for ls l by (simp add: code_lines_def)
  show "writes kvs n (emit n ls) kvs n (add B (code_lines ls))" if "list_all one_line ls"
    using writes_add[OF assms, of "''''" ls kvs n] that by simp
  show "writes kvs n (emit n ls) kvs n (add_ln B (code_lines ls))" if "list_all one_line ls"
    using writes_add[OF assms, of "''''" "ls @ ['''']" kvs n] that unfolding ln by (simp add: snoc emit_Cons)
  show "writes kvs n (emit n [l]) kvs n (add B l)" if "one_line l"
    using writes_add[OF assms, of l "[]" kvs n] that by simp
  show l: "writes kvs n (emit n (ls @ [l])) kvs n (add_ln B (code_lines ls @ l))"
    if "list_all one_line (l # ls)" for l ls
    using writes_add[OF assms, of "''''" "ls @ [l]" kvs n] that unfolding ln
    by (simp add: snoc emit_Cons)
  show "writes kvs n (emit n [l]) kvs n (add_ln B l)" if "one_line l"
    using l[of l "[]"] that by simp
qed

text \<open>Sequences, scopes, branches and indentation.\<close>

lemma writes_Nil: "writes kvs n '''' kvs n (block [])"
  by (simp add: writes_def)

lemma writes_Cons:
  "writes kvs m t kvs' k s \<Longrightarrow> writes kvs' k u kvs'' n (block ss) \<Longrightarrow> writes kvs m (t @ u) kvs'' n (block (s # ss))"
  unfolding writes_def by fastforce

lemma writes_by_value: "writes kvs m t kvs' n s \<Longrightarrow> writes kvs m t kvs n (by_value s)"
  unfolding writes_def by_value_def by fastforce

lemma writes_if:
  "(c \<Longrightarrow> writes kvs m t kvs' n s) \<Longrightarrow> (\<not> c \<Longrightarrow> writes kvs m u kvs' n s') \<Longrightarrow>
   writes kvs m (if c then t else u) kvs' n (if c then s else s')"
  by simp

lemma writes_text: "writes kvs m t kvs' n s \<Longrightarrow> t = u \<Longrightarrow> writes kvs m u kvs' n s"
  by simp

lemma writes_indent: "writes kvs n '''' kvs (n + 1) indent"
  by (simp add: writes_def indent_def Indent_def)

lemma writes_outdent: "n + 1 \<noteq> 0 \<Longrightarrow> writes kvs (n + 1) '''' kvs n (outdent b)"
  by (auto simp: writes_def outdent_def Outdent_def cxx_assert_def word_gt_0)

lemma writes_weaken:
  "writes kvs m t kvs' n s \<Longrightarrow> set kvs'' \<subseteq> set kvs' \<Longrightarrow> writes kvs m t kvs'' n s"
proof -
  assume w: "writes kvs m t kvs' n s" and "set kvs'' \<subseteq> set kvs'"
  then have "binds kvs' x \<Longrightarrow> binds kvs'' x" for x by (auto simp: binds_def)
  with w show ?thesis unfolding writes_def by fast
qed

lemma writes_for_each:
  assumes "\<And>x. x \<in> set xs \<Longrightarrow> writes kvs n (t x) kvs n (f x)"
  shows "writes kvs n (concat (map t xs)) kvs n (for_each f xs)"
  using assms unfolding for_each_def
  by (induction xs) (auto intro: writes_Nil writes_Cons)

lemma writes_for_index:
  assumes "\<And>i x. x \<in> set xs \<Longrightarrow> writes kvs n (t i x) kvs n (f i x)"
  shows "writes kvs n (concat (map (\<lambda>(i, x). t i x) (enumerate 0 xs))) kvs n (for_index f xs)"
proof -
  have "writes kvs n (concat (map (\<lambda>(i, x). t i x) (enumerate k xs))) kvs n
      (block (map (\<lambda>(i, x). f i x) (enumerate k xs)))" for k
    using assms by (induction xs arbitrary: k) (auto intro: writes_Nil writes_Cons)
  then show ?thesis by (simp add: for_index_def)
qed

section \<open>Variables\<close>

definition good_name :: "string \<Rightarrow> bool" where
  "good_name s \<longleftrightarrow> no_dollar s \<and> one_line s"

lemma good_name_append [simp]: "good_name (a @ b) \<longleftrightarrow> good_name a \<and> good_name b"
  by (auto simp: good_name_def)

lemma good_vars_set_var: "good_vars vs \<Longrightarrow> key_name k \<Longrightarrow> good_name v \<Longrightarrow> good_vars (set_var k v vs)"
  by (induction k v vs rule: set_var.induct) (auto simp: good_vars_def good_name_def)

lemma binds_upd: "binds kvs m \<Longrightarrow> k \<notin> fst ` set kvs \<Longrightarrow> binds ((k, v) # kvs) (m(k \<mapsto> v))"
  unfolding binds_def by (auto simp: image_iff; fastforce)

lemma writes_assign:
  assumes "key_name k" and "good_name v" and "k \<notin> fst ` set kvs"
  shows "writes kvs n '''' ((k, v) # kvs) n (assign k v)"
  using assms
  by (auto simp: writes_def assign_def set_var_lookup good_vars_set_var intro: binds_upd)

lemma key_names [simp]:
  "key_name ''Method''" "key_name ''Request''" "key_name ''Response''" "key_name ''Service''"
  "key_name ''Package''" "key_name ''Namespace''" "key_name ''filename''" "key_name ''filename_base''"
  "key_name ''message_header_ext''"
  by (simp_all add: key_name_def) code_simp+

definition good_method :: "method_descriptor \<Rightarrow> bool" where
  "good_method m \<longleftrightarrow> good_name (md_name m) \<and> good_name (md_input m) \<and> good_name (md_output m)"

definition good_service :: "service_descriptor \<Rightarrow> bool" where
  "good_service s \<longleftrightarrow> good_name (sd_name s) \<and> list_all good_method (sd_methods s)"

text \<open>Names that can stand in a template: without a dollar sign or a line break.\<close>

definition good_file :: "file_descriptor \<Rightarrow> bool" where
  "good_file file \<longleftrightarrow> good_name (fd_name file) \<and> good_name (fd_package file) \<and>
     list_all good_service (fd_services file)"

definition method_scope :: "method_descriptor \<Rightarrow> vars" where
  "method_scope m = [(''Response'', md_output m), (''Request'', md_input m), (''Method'', md_name m)]"

definition service_scope :: "string \<Rightarrow> file_descriptor \<Rightarrow> service_descriptor \<Rightarrow> vars" where
  "service_scope ns file s =
     [(''Service'', sd_name s), (''Namespace'', if fd_package file = '''' then ns else fd_package file),
      (''Package'', package_prefix (fd_package file))]"

definition file_scope :: "string \<Rightarrow> file_descriptor \<Rightarrow> vars" where
  "file_scope ns file =
     [(''Namespace'', if fd_package file = '''' then ns else fd_package file),
      (''Package'', package_prefix (fd_package file))]"

lemmas scope_defs = method_scope_def service_scope_def file_scope_def

lemma writes_method_vars:
  assumes "good_method m" and "list_all (\<lambda>(k, v). k \<notin> {''Method'', ''Request'', ''Response''}) kvs"
  shows "writes kvs n '''' (method_scope m @ kvs) n (method_vars m)"
proof -
  have k: "''Method'' \<notin> fst ` set kvs" "''Request'' \<notin> fst ` set kvs" "''Response'' \<notin> fst ` set kvs"
    using assms(2) by (auto simp: list_all_iff)
  show ?thesis
    unfolding method_vars_def method_scope_def append_Cons append_Nil
    by (rule writes_text[OF writes_Cons[OF writes_assign writes_Cons[OF writes_assign
            writes_Cons[OF writes_assign writes_Nil]]]])
      (use assms(1) k in \<open>auto simp: good_method_def\<close>)
qed

text \<open>The rules in the order in which they are tried.\<close>

lemmas write_rules =
  writes_Cons writes_Nil writes_indent writes_outdent writes_if
  writes_addv_forms(1,2,4) writes_addv_forms(3) writes_add_forms(1,2,5) writes_add_forms(3,4)
  writes_method_vars small_indents

lemmas instance_simps = instance_of_def scope_defs placeholder_def method_url_def

end
