(* ===== verification/Generated_Code.thy ===== *)
theory Generated_Code
  imports Generator_Text Middleware
begin

text \<open>
  The text of the generated functions that the runtime libraries depend on, written without
  templates: the router of a service and its client in the source of the first plugin, and the
  service class and the client class in the header of the second.  Each printing function writes exactly its text.
\<close>

section \<open>The first plugin: the router of a service\<close>

definition url_test :: "string \<Rightarrow> string" where
  "url_test u = ''if (url == \"'' @ u @ ''\") {''"

definition route_branch_text :: "64 word \<Rightarrow> file_descriptor \<Rightarrow> service_descriptor \<Rightarrow> nat \<Rightarrow> method_descriptor \<Rightarrow> string" where
  "route_branch_text n file s i m =
     (if i \<noteq> 0 then emit n [''else ''] else '''') @
     emit n [url_test (method_url (fd_package file) (sd_name s) (md_name m))] @
     emit (n + 1)
       [''auto bo = std::bind(&Service::Begin'' @ md_name m @ '', this, std::placeholders::_1,'',
        ''              std::placeholders::_2, std::placeholders::_3, std::placeholders::_4);'',
        ''auto eo = std::bind(&Service::End'' @ md_name m @ '', this, std::placeholders::_1,'',
        ''              std::placeholders::_2);'',
        ''beginOp = std::make_unique<fabricrpc::BeginOperation<'' @ md_input m @ ''>>(bo);'',
        ''endOp = std::make_unique<fabricrpc::EndOperation<'' @ md_output m @ ''>>(eo);''] @
     emit n [''}'']"

lemma PrintCCService_method_writes:
  assumes "boost_laws B" and "good_method m" and "n + 1 \<noteq> 0"
  shows "writes (service_scope ns file s) n (route_branch_text n file s i m)
           (service_scope ns file s) n (PrintCCService_method b B i m)"
  unfolding PrintCCService_method_def
  by (rule writes_weaken[OF writes_text], ((rule write_rules assms | (code_simp; fail))+)[1],
      simp add: route_branch_text_def url_test_def route_url_test_def instance_simps, simp)

definition route_text :: "file_descriptor \<Rightarrow> service_descriptor \<Rightarrow> string" where
  "route_text file s =
     emit 0
       [''fabricrpc::Status '' @ sd_name s @ ''::Service::Route(const std::string & url, '' @
        ''std::unique_ptr<fabricrpc::IBeginOperation> & beginOp, '' @
        ''std::unique_ptr<fabricrpc::IEndOperation> & endOp) {''] @
     concat (map (\<lambda>(i, m). route_branch_text 1 file s i m) (enumerate 0 (sd_methods s))) @
     emit 1
       [''else {'',
        ''  return fabricrpc::Status(fabricrpc::StatusCode::NOT_FOUND, \"method not found: \" + url);'',
        ''}'',
        ''return fabricrpc::Status();''] @
     emit 0 [''}'']"

lemma writes_assign_Service:
  assumes "good_service s"
  shows "writes (file_scope ns file) n '''' (service_scope ns file s) n (assign ''Service'' (sd_name s))"
  using writes_assign[of "''Service''" "sd_name s" "file_scope ns file" n] assms
  by (simp add: scope_defs good_service_def)

lemma good_service_methods: "good_service s \<Longrightarrow> m \<in> set (sd_methods s) \<Longrightarrow> good_method m"
  by (simp add: good_service_def list_all_iff)

lemma PrintCCService_writes:
  assumes "boost_laws B" and "good_service s"
  shows "writes (file_scope ns file) 0 (route_text file s) (file_scope ns file) 0 (PrintCCService b B s)"
proof -
  have loop: "writes (service_scope ns file s) (0 + 1)
      (concat (map (\<lambda>(i, m). route_branch_text (0 + 1) file s i m) (enumerate 0 (sd_methods s))))
      (service_scope ns file s) (0 + 1) (for_index (PrintCCService_method b B) (sd_methods s))"
    using PrintCCService_method_writes[OF assms(1) good_service_methods[OF assms(2)]]
    by (intro writes_for_index) simp
  show ?thesis
    unfolding PrintCCService_def
    by (rule writes_by_value, rule writes_text,
        ((rule writes_assign_Service loop write_rules assms | (code_simp; fail))+)[1],
        simp add: route_text_def instance_simps emit_Cons)
qed

section \<open>The first plugin: the client of a service\<close>

definition client_method_text :: "file_descriptor \<Rightarrow> service_descriptor \<Rightarrow> method_descriptor \<Rightarrow> string" where
  "client_method_text file s m =
     (if no_streaming m
      then emit 0
        [''fabricrpc::Status '' @ sd_name s @ ''Client::Begin'' @ md_name m @ ''(const '' @ md_input m @
           ''* request, DWORD timeoutMilliseconds, IFabricAsyncOperationCallback *callback, '' @
           ''/*out*/ IFabricAsyncOperationContext **context){'',
         ''  return fabricrpc::ExecClientBegin(client_, cv_, timeoutMilliseconds, \"'' @
           method_url (fd_package file) (sd_name s) (md_name m) @ ''\", request,'',
         ''             callback, context);}'',
         ''fabricrpc::Status '' @ sd_name s @ ''Client::End'' @ md_name m @
           ''(IFabricAsyncOperationContext *context, /*out*/'' @ md_output m @ ''* response){'',
         ''  return fabricrpc::ExecClientEnd(client_, cv_, context, response);}'']
      else emit 0 [streaming_note])"

lemma PrintCCClientService_method_writes:
  assumes "boost_laws B" and "good_method m"
  shows "writes (service_scope ns file s) 0 (client_method_text file s m)
           (service_scope ns file s) 0 (PrintCCClientService_method B m)"
  unfolding PrintCCClientService_method_def
  by (rule writes_weaken[OF writes_text], ((rule write_rules assms | (code_simp; fail))+)[1],
      simp add: client_method_text_def client_begin_call_def instance_simps emit_Cons, simp)

definition client_text :: "file_descriptor \<Rightarrow> service_descriptor \<Rightarrow> string" where
  "client_text file s =
     emit 0
       [''using privateconverter = fabricrpc::FabricRPCHeaderProtoConverter<fabricrpc::request_header, fabricrpc::reply_header>;'',
        sd_name s @ ''Client::'' @ sd_name s @ ''Client(IFabricTransportClient *client)'',
        ''  : client_(), cv_(std::make_shared<privateconverter>()) {'',
        ''  client->AddRef();'',
        ''  client_.Attach(client);'',
        ''}''] @
     concat (map (client_method_text file s) (sd_methods s))"

lemma PrintCCClientService_writes:
  assumes "boost_laws B" and "good_service s"
  shows "writes (file_scope ns file) 0 (client_text file s) (file_scope ns file) 0 (PrintCCClientService B s)"
proof -
  have loop: "writes (service_scope ns file s) 0 (concat (map (client_method_text file s) (sd_methods s)))
      (service_scope ns file s) 0 (for_each (PrintCCClientService_method B) (sd_methods s))"
    using PrintCCClientService_method_writes[OF assms(1) good_service_methods[OF assms(2)]]
    by (intro writes_for_each)
  show ?thesis
    unfolding PrintCCClientService_def
    by (rule writes_by_value, rule writes_text,
        ((rule writes_assign_Service loop write_rules assms | (code_simp; fail))+)[1],
        simp add: client_text_def instance_simps emit_Cons)
qed

section \<open>The first plugin: the source file\<close>

lemma generated_writes: "writes [] 0 t kvs n s \<Longrightarrow> generated s = Inr t"
  by (auto simp: writes_def generated_def mk_printer_def good_vars_def binds_def GetOutput_def
      dest!: spec[of _ "\<lparr>gs_printer = \<lparr>p_indent = 0, p_output = ''''\<rparr>, gs_vars = []\<rparr>"])

lemma writes_package_vars:
  assumes "good_file file" and "good_name ns"
  shows "writes [] n '''' (file_scope ns file) n (package_vars ns file)"
proof -
  have "good_name (fd_package file @ ''.'')" and "good_name (fd_package file)"
    using assms(1) by (simp_all add: good_file_def good_name_def nl_def)
  then show ?thesis
    unfolding package_vars_def
    by (rule_tac writes_text[OF writes_weaken[OF writes_Cons[OF writes_assign writes_Cons[OF writes_assign writes_Nil]]]])
      (use assms(2) in \<open>auto simp: file_scope_def package_prefix_def\<close>)
qed

definition namespace_of :: "string \<Rightarrow> file_descriptor \<Rightarrow> string" where
  "namespace_of ns file = (if fd_package file = '''' then ns else fd_package file)"

definition services_text :: "file_descriptor \<Rightarrow> string" where
  "services_text file =
     emit 0
       [''// Service pkg '' @ package_prefix (fd_package file),
        ''namespace '' @ namespace_of ''fabricrpc'' file @ '' {''] @
     concat (map (route_text file) (fd_services file)) @
     emit 0
       [''void CreateFabricRPCRequestHandler(const std::vector<std::shared_ptr<fabricrpc::MiddleWare>> & svcList,'',
        ''                                    IFabricTransportMessageHandler **handler) {''] @
     emit 1
       [''using privateconverter = fabricrpc::FabricRPCHeaderProtoConverter<fabricrpc::request_header, fabricrpc::reply_header>;'',
        ''std::shared_ptr<fabricrpc::IFabricRPCHeaderProtoConverter> cv = std::make_shared<privateconverter>();'',
        ''CComPtr<CComObjectNoLock<fabricrpc::FRPCRequestHandler>> msgHandlerPtr('',
        ''  new CComObjectNoLock<fabricrpc::FRPCRequestHandler>());'',
        ''msgHandlerPtr->Initialize(svcList, cv);'',
        ''*handler = msgHandlerPtr.Detach();''] @
     emit 0 [''}'', ''} // namespace '' @ namespace_of ''fabricrpc'' file]"

definition clients_text :: "file_descriptor \<Rightarrow> string" where
  "clients_text file =
     emit 0 [''// Client code'', ''namespace '' @ namespace_of ''fabricrpc'' file @ '' {''] @
     concat (map (client_text file) (fd_services file)) @
     emit 0 [''} // namespace '' @ namespace_of ''fabricrpc'' file]"

lemma good_file_services: "good_file file \<Longrightarrow> s \<in> set (fd_services file) \<Longrightarrow> good_service s"
  by (simp add: good_file_def list_all_iff)

lemma good_namespaces: "good_name ''fabricrpc''" "good_name ''fabricrpc2''"
  by code_simp+

lemma GetCCServices_text:
  assumes "boost_laws B" and "good_file file"
  shows "GetCCServices b B file = Inr (services_text file)"
proof -
  have loop: "writes (file_scope ''fabricrpc'' file) 0 (concat (map (route_text file) (fd_services file)))
      (file_scope ''fabricrpc'' file) 0 (for_each (PrintCCService b B) (fd_services file))"
    using PrintCCService_writes[OF assms(1) good_file_services[OF assms(2)]] by (intro writes_for_each)
  note head = writes_package_vars[OF assms(2) good_namespaces(1)]
  show ?thesis
    unfolding GetCCServices_def
    by (rule generated_writes, rule writes_text,
        ((rule head loop write_rules assms | (code_simp; fail))+)[1],
        simp add: services_text_def namespace_of_def instance_simps emit_Cons)
qed

lemma GetCCClientServices_text:
  assumes "boost_laws B" and "good_file file"
  shows "GetCCClientServices B file = Inr (clients_text file)"
proof -
  have loop: "writes (file_scope ''fabricrpc'' file) 0 (concat (map (client_text file) (fd_services file)))
      (file_scope ''fabricrpc'' file) 0 (for_each (PrintCCClientService B) (fd_services file))"
    using PrintCCClientService_writes[OF assms(1) good_file_services[OF assms(2)]] by (intro writes_for_each)
  note head = writes_package_vars[OF assms(2) good_namespaces(1)]
  show ?thesis
    unfolding GetCCClientServices_def
    by (rule generated_writes, rule writes_text,
        ((rule head loop write_rules assms | (code_simp; fail))+)[1],
        simp add: clients_text_def namespace_of_def instance_simps emit_Cons)
qed

definition source_head :: "file_descriptor \<Rightarrow> string" where
  "source_head file = emit 0
     [''// Generated by fabric_rpc_cpp_plugin. Do not Edit.'',
      ''// source: '' @ fd_name file,
      ''#include \"'' @ getProtoNameNoExt (fd_name file) @ ''.fabricrpc.h\"'',
      ''#include <fabricrpc.pb.h>'',
      ''#include <functional>'',
      ''#include \"fabricrpc/ClientHelpers.hpp\"'',
      ''#include \"fabricrpc/FRPCRequestHandler.hpp\"'',
      ''#include \"fabricrpc/FRPCHeader.hpp\"'']"

definition name_scope :: "file_descriptor \<Rightarrow> vars" where
  "name_scope file =
     [(''message_header_ext'', ''.pb.h''), (''filename_base'', getProtoNameNoExt (fd_name file)),
      (''filename'', fd_name file)]"

lemma good_name_take: "good_name s \<Longrightarrow> good_name (take n s)"
  by (auto simp: good_name_def no_dollar_def one_line_def dest: in_set_takeD)

lemma writes_file_vars:
  assumes "good_file file"
  shows "writes [] n '''' (name_scope file) n (file_vars file)"
proof -
  have g: "good_name (fd_name file)" "good_name ''.pb.h''"
    using assms by (simp add: good_file_def) code_simp
  then have "good_name (getProtoNameNoExt (fd_name file))"
    by (simp add: getProtoNameNoExt_def good_name_take split: option.splits)
  then show ?thesis
    unfolding file_vars_def name_scope_def
    by (rule_tac writes_text[OF writes_Cons[OF writes_assign writes_Cons[OF writes_assign
            writes_Cons[OF writes_assign writes_Nil]]]]) (use g in auto)
qed

lemma GenerateCCContent_text:
  assumes "boost_laws B" and "good_file file"
  shows "GenerateCCContent b B file = Inr (source_head file @ services_text file @ clients_text file)"
proof -
  have "generated (block
       [file_vars file,
        add_ln B ''// Generated by fabric_rpc_cpp_plugin. Do not Edit.'',
        addv_ln B ''// source: $filename$'',
        addv_ln B ''#include \"$filename_base$.fabricrpc.h\"'',
        addv_ln B ''#include <fabricrpc.pb.h>'',
        add B (code_lines
          [''#include <functional>'',
           ''#include \"fabricrpc/ClientHelpers.hpp\"'',
           ''#include \"fabricrpc/FRPCRequestHandler.hpp\"'',
           ''#include \"fabricrpc/FRPCHeader.hpp\"''])]) = Inr (source_head file)"
    by (rule generated_writes, rule writes_text,
        ((rule writes_file_vars[OF assms(2)] write_rules assms | (code_simp; fail))+)[1],
        simp add: source_head_def name_scope_def instance_simps emit_Cons)
  then show ?thesis
    using GetCCServices_text[OF assms] GetCCClientServices_text[OF assms]
    by (simp add: GenerateCCContent_def)
qed

section \<open>The second plugin: the client of a service\<close>

definition client2_method_text :: "file_descriptor \<Rightarrow> service_descriptor \<Rightarrow> method_descriptor \<Rightarrow> string" where
  "client2_method_text file s m =
     (if no_streaming m
      then emit 1
        [''// handler void(ec, absl::Status)'',
         ''template <typename Token>'',
         ''auto SayHello('' @ md_input m @ '' *request,'',
         ''/*out*/'' @ md_output m @ '' *reply, Token &&token) {'',
         ''static const std::string url = \"'' @ method_url (fd_package file) (sd_name s) (md_name m) @ ''\";'',
         ''return conn_.async_send(url, request, reply, std::move(token));'',
         ''}'']
      else emit 1 [streaming_note])"

lemma PrintHeaderClientMethodSync2_writes:
  assumes "boost_laws B" and "good_method m"
  shows "writes (service_scope ns file s) (0 + 1) (client2_method_text file s m)
           (service_scope ns file s) (0 + 1) (PrintHeaderClientMethodSync2 B m)"
  unfolding PrintHeaderClientMethodSync2_def
  by (rule writes_weaken[OF writes_text], ((rule write_rules assms | (code_simp; fail))+)[1],
      simp add: client2_method_text_def client_url_line_def instance_simps emit_Cons, simp)

definition client2_text :: "file_descriptor \<Rightarrow> service_descriptor \<Rightarrow> string" where
  "client2_text file s =
     emit 0
       [''template <typename Executor = net::any_io_executor> class '' @ sd_name s @ ''Client{'',
        ''public:''] @
     emit 1
       [''typedef Executor executor_type;'',
        sd_name s @ ''Client(fabricrpc::rpc_client<executor_type> &conn) : conn_(conn) {}''] @
     concat (map (client2_method_text file s) (sd_methods s)) @
     emit 0 [''private:''] @
     emit 1 [''fabricrpc::rpc_client<executor_type> &conn_;''] @
     emit 0 [''};'']"

lemma PrintHeaderClientService2_writes:
  assumes "boost_laws B" and "good_service s"
  shows "writes (file_scope ns file) 0 (client2_text file s) (file_scope ns file) 0
           (PrintHeaderClientService2 b B s)"
proof -
  have loop: "writes (service_scope ns file s) (0 + 1) (concat (map (client2_method_text file s) (sd_methods s)))
      (service_scope ns file s) (0 + 1) (for_each (PrintHeaderClientMethodSync2 B) (sd_methods s))"
    using PrintHeaderClientMethodSync2_writes[OF assms(1) good_service_methods[OF assms(2)]]
    by (intro writes_for_each)
  show ?thesis
    unfolding PrintHeaderClientService2_def
    by (rule writes_by_value, rule writes_text,
        ((rule writes_assign_Service loop write_rules assms | (code_simp; fail))+)[1],
        simp add: client2_text_def instance_simps emit_Cons)
qed

section \<open>The second plugin: the service class\<close>

definition execute_branch_text :: "file_descriptor \<Rightarrow> service_descriptor \<Rightarrow> nat \<Rightarrow> method_descriptor \<Rightarrow> string" where
  "execute_branch_text file s i m =
     (if i \<noteq> 0 then emit 2 [''else ''] else '''') @
     emit 2 [url_test (method_url (fd_package file) (sd_name s) (md_name m))] @
     emit 3
       [''st = co_await fabricrpc::codegen_handler_helper<'',
        md_input m @ '', '' @ md_output m @ '','',
        ''decltype(&'' @ sd_name s @ ''::'' @ md_name m @ ''), decltype(this)>('',
        ''req, resp, &'' @ sd_name s @ ''::'' @ md_name m @ '', this);''] @
     emit 2 [''}'']"

lemma PrintHeaderService2_method_writes:
  assumes "boost_laws B" and "good_method m"
  shows "writes (service_scope ns file s) (0 + 1 + 1) (execute_branch_text file s i m)
           (service_scope ns file s) (0 + 1 + 1) (PrintHeaderService2_method b B i m)"
  unfolding PrintHeaderService2_method_def
  by (rule writes_weaken[OF writes_text], ((rule write_rules assms | (code_simp; fail))+)[1],
      simp add: execute_branch_text_def url_test_def route_url_test_def instance_simps, simp)

definition server2_method_text :: "method_descriptor \<Rightarrow> string" where
  "server2_method_text m =
     emit 1
       [if no_streaming m then server_method_declaration
        else ''// Streaming for method $Method$ request $Request$ response $Response$ not supported '']"

lemma PrintHeaderServerMethodSync2_writes:
  assumes "boost_laws B" and "good_method m"
  shows "writes (service_scope ns file s) (0 + 1) (server2_method_text m)
           (service_scope ns file s) (0 + 1) (PrintHeaderServerMethodSync2 B m)"
  unfolding PrintHeaderServerMethodSync2_def
  by (rule writes_weaken[OF writes_text], ((rule write_rules assms | (code_simp; fail))+)[1],
      simp add: server2_method_text_def instance_simps, simp)

definition service2_text :: "file_descriptor \<Rightarrow> service_descriptor \<Rightarrow> string" where
  "service2_text file s =
     emit 0 [''class '' @ sd_name s @ '' : public fabricrpc::service {'', ''  public:''] @
     emit 1
       [''const std::string_view name() override { return \"'' @ generated_name @ ''\"; }'',
        ''net::awaitable<absl::Status> execute(const std::string &url,'',
        ''const std::string_view req,'',
        ''std::string *resp) override {''] @
     emit 2 [''absl::Status st;''] @
     concat (map (\<lambda>(i, m). execute_branch_text file s i m) (enumerate 0 (sd_methods s))) @
     emit 2
       [''else {'',
        ''  st = absl::UnimplementedError(absl::StrCat(\"url: \", url, \" not found\"));'',
        ''}'',
        ''co_return st;''] @
     emit 1 [''}''] @
     concat (map server2_method_text (sd_methods s)) @
     emit 0 [''};'']"

lemma PrintHeaderService2_writes:
  assumes "boost_laws B" and "good_service s"
  shows "writes (file_scope ns file) 0 (service2_text file s) (file_scope ns file) 0
           (PrintHeaderService2 b B s)"
proof -
  note m = good_service_methods[OF assms(2)]
  have branches: "writes (service_scope ns file s) (0 + 1 + 1)
      (concat (map (\<lambda>(i, m). execute_branch_text file s i m) (enumerate 0 (sd_methods s))))
      (service_scope ns file s) (0 + 1 + 1) (for_index (PrintHeaderService2_method b B) (sd_methods s))"
    using PrintHeaderService2_method_writes[OF assms(1) m] by (intro writes_for_index)
  have methods: "writes (service_scope ns file s) (0 + 1) (concat (map server2_method_text (sd_methods s)))
      (service_scope ns file s) (0 + 1) (for_each (PrintHeaderServerMethodSync2 B) (sd_methods s))"
    using PrintHeaderServerMethodSync2_writes[OF assms(1) m] by (intro writes_for_each)
  show ?thesis
    unfolding PrintHeaderService2_def
    by (rule writes_by_value, rule writes_text,
        ((rule writes_assign_Service branches methods write_rules assms | (code_simp; fail))+)[1],
        simp add: service2_text_def service_name_line_def generated_name_def instance_simps emit_Cons)
qed

section \<open>The first plugin: the header\<close>

definition server_method_text :: "method_descriptor \<Rightarrow> string" where
  "server_method_text m =
     (if no_streaming m
      then emit 2
        [''virtual fabricrpc::Status Begin'' @ md_name m @ ''(const '' @ md_input m @
           ''* request, DWORD timeoutMilliseconds,IFabricAsyncOperationCallback *callback, '' @
           ''/*out*/ IFabricAsyncOperationContext **context) = 0;'',
         ''virtual fabricrpc::Status End'' @ md_name m @ ''(IFabricAsyncOperationContext *context, /*out*/'' @
           md_output m @ ''* response) = 0;'']
      else emit 2 [streaming_note])"

lemma PrintHeaderServerMethodSync_writes:
  assumes "boost_laws B" and "good_method m"
  shows "writes (service_scope ns file s) (0 + 1 + 1) (server_method_text m)
           (service_scope ns file s) (0 + 1 + 1) (PrintHeaderServerMethodSync B m)"
  unfolding PrintHeaderServerMethodSync_def
  by (rule writes_weaken[OF writes_text], ((rule write_rules assms | (code_simp; fail))+)[1],
      simp add: server_method_text_def instance_simps emit_Cons, simp)

definition service_text :: "file_descriptor \<Rightarrow> service_descriptor \<Rightarrow> string" where
  "service_text file s =
     emit 0 [''class '' @ sd_name s @ '' final {'', ''  public:''] @
     emit 1
       [''static constexpr char const* service_full_name() {'',
        ''  return \"'' @ package_prefix (fd_package file) @ sd_name s @ ''\";'',
        ''}'',
        ''class Service : public fabricrpc::MiddleWare {'',
        ''  public:''] @
     emit 2 [''Service() {};'', ''virtual ~Service() {};''] @
     concat (map server_method_text (sd_methods s)) @
     emit 2
       [''virtual fabricrpc::Status Route(const std::string & url, '' @
        ''std::unique_ptr<fabricrpc::IBeginOperation> & beginOp, '' @
        ''std::unique_ptr<fabricrpc::IEndOperation> & endOp) override;''] @
     emit 1 [''};''] @
     emit 0 [''};'']"

lemma PrintHeaderService_writes:
  assumes "boost_laws B" and "good_service s"
  shows "writes (file_scope ns file) 0 (service_text file s) (file_scope ns file) 0 (PrintHeaderService b B s)"
proof -
  have loop: "writes (service_scope ns file s) (0 + 1 + 1) (concat (map server_method_text (sd_methods s)))
      (service_scope ns file s) (0 + 1 + 1) (for_each (PrintHeaderServerMethodSync B) (sd_methods s))"
    using PrintHeaderServerMethodSync_writes[OF assms(1) good_service_methods[OF assms(2)]]
    by (intro writes_for_each)
  show ?thesis
    unfolding PrintHeaderService_def
    by (rule writes_by_value, rule writes_text,
        ((rule writes_assign_Service loop write_rules assms | (code_simp; fail))+)[1],
        simp add: service_text_def instance_simps emit_Cons)
qed

definition client_declaration_text :: "method_descriptor \<Rightarrow> string" where
  "client_declaration_text m =
     (if no_streaming m
      then emit 1
        [''fabricrpc::Status Begin'' @ md_name m @ ''(const '' @ md_input m @
           ''* request, DWORD timeoutMilliseconds, IFabricAsyncOperationCallback *callback, '' @
           ''/*out*/ IFabricAsyncOperationContext **context);'',
         ''fabricrpc::Status End'' @ md_name m @ ''(IFabricAsyncOperationContext *context, /*out*/'' @
           md_output m @ ''* response);'']
      else emit 1 [streaming_note])"

lemma PrintHeaderClientMethodSync_writes:
  assumes "boost_laws B" and "good_method m"
  shows "writes (service_scope ns file s) (0 + 1) (client_declaration_text m)
           (service_scope ns file s) (0 + 1) (PrintHeaderClientMethodSync B m)"
  unfolding PrintHeaderClientMethodSync_def
  by (rule writes_weaken[OF writes_text], ((rule write_rules assms | (code_simp; fail))+)[1],
      simp add: client_declaration_text_def instance_simps emit_Cons, simp)

definition client_class_text :: "service_descriptor \<Rightarrow> string" where
  "client_class_text s =
     emit 0 [''class '' @ sd_name s @ ''Client{'', ''public:''] @
     emit 1 [sd_name s @ ''Client(IFabricTransportClient * client);''] @
     concat (map client_declaration_text (sd_methods s)) @
     emit 0
       [''private:'',
        ''  CComPtr<IFabricTransportClient> client_;'',
        ''  std::shared_ptr<fabricrpc::IFabricRPCHeaderProtoConverter> cv_;'',
        ''};'']"

lemma PrintHeaderClientService_writes:
  assumes "boost_laws B" and "good_service s"
  shows "writes (file_scope ns file) 0 (client_class_text s) (file_scope ns file) 0
           (PrintHeaderClientService b B s)"
proof -
  have loop: "writes (service_scope ns file s) (0 + 1) (concat (map client_declaration_text (sd_methods s)))
      (service_scope ns file s) (0 + 1) (for_each (PrintHeaderClientMethodSync B) (sd_methods s))"
    using PrintHeaderClientMethodSync_writes[OF assms(1) good_service_methods[OF assms(2)]]
    by (intro writes_for_each)
  show ?thesis
    unfolding PrintHeaderClientService_def
    by (rule writes_by_value, rule writes_text,
        ((rule writes_assign_Service loop write_rules assms | (code_simp; fail))+)[1],
        simp add: client_class_text_def instance_simps emit_Cons)
qed

definition header_head :: "file_descriptor \<Rightarrow> string" where
  "header_head file = emit 0
     [''// Generated by fabric_rpc_cpp_plugin. Do not Edit.'',
      ''// source: '' @ fd_name file,
      ''#pragma once'',
      ''#include \"'' @ getProtoNameNoExt (fd_name file) @ ''.pb.h\"'',
      ''#include \"fabrictransport_.h\"'',
      ''#include <atlbase.h>'',
      ''#include <atlcom.h>'',
      ''#include \"fabricrpc/Operation.hpp\"'',
      ''#include \"fabricrpc/FRPCHeader.hpp\"'']"

definition header_services_text :: "file_descriptor \<Rightarrow> string" where
  "header_services_text file =
     emit 0
       [''// Service pkg '' @ package_prefix (fd_package file),
        ''namespace '' @ namespace_of ''fabricrpc'' file @ '' {''] @
     concat (map (service_text file) (fd_services file)) @
     emit 0
       [''void CreateFabricRPCRequestHandler(const std::vector<std::shared_ptr<fabricrpc::MiddleWare>> & svcList, '' @
        ''IFabricTransportMessageHandler ** handler);'',
        ''} // namespace '' @ namespace_of ''fabricrpc'' file]"

definition header_clients_text :: "file_descriptor \<Rightarrow> string" where
  "header_clients_text file =
     emit 0 [''// Client code'', ''namespace '' @ namespace_of ''fabricrpc'' file @ '' {''] @
     concat (map client_class_text (fd_services file)) @
     emit 0 [''} // namespace '' @ namespace_of ''fabricrpc'' file]"

lemma GetHeaderServices_text:
  assumes "boost_laws B" and "good_file file"
  shows "GetHeaderServices b B file = Inr (header_services_text file)"
proof -
  have loop: "writes (file_scope ''fabricrpc'' file) 0 (concat (map (service_text file) (fd_services file)))
      (file_scope ''fabricrpc'' file) 0 (for_each (PrintHeaderService b B) (fd_services file))"
    using PrintHeaderService_writes[OF assms(1) good_file_services[OF assms(2)]] by (intro writes_for_each)
  note head = writes_package_vars[OF assms(2) good_namespaces(1)]
  show ?thesis
    unfolding GetHeaderServices_def
    by (rule generated_writes, rule writes_text,
        ((rule head loop write_rules assms | (code_simp; fail))+)[1],
        simp add: header_services_text_def namespace_of_def instance_simps emit_Cons)
qed

lemma GetHeaderClients_text:
  assumes "boost_laws B" and "good_file file"
  shows "GetHeaderClients b B file = Inr (header_clients_text file)"
proof -
  have loop: "writes (file_scope ''fabricrpc'' file) 0 (concat (map client_class_text (fd_services file)))
      (file_scope ''fabricrpc'' file) 0 (for_each (PrintHeaderClientService b B) (fd_services file))"
    using PrintHeaderClientService_writes[OF assms(1) good_file_services[OF assms(2)]] by (intro writes_for_each)
  note head = writes_package_vars[OF assms(2) good_namespaces(1)]
  show ?thesis
    unfolding GetHeaderClients_def
    by (rule generated_writes, rule writes_text,
        ((rule head loop write_rules assms | (code_simp; fail))+)[1],
        simp add: header_clients_text_def namespace_of_def instance_simps emit_Cons)
qed

lemma GenerateHeaderContent_text:
  assumes "boost_laws B" and "good_file file"
  shows "GenerateHeaderContent b B file =
    Inr (header_head file @ header_services_text file @ header_clients_text file)"
proof -
  have "generated (block
       [file_vars file,
        add_ln B ''// Generated by fabric_rpc_cpp_plugin. Do not Edit.'',
        addv_ln B ''// source: $filename$'',
        addv_ln B ''#pragma once'',
        addv_ln B ''#include \"$filename_base$$message_header_ext$\"'',
        add B (code_lines
          [''#include \"fabrictransport_.h\"'',
           ''#include <atlbase.h>'',
           ''#include <atlcom.h>'',
           ''#include \"fabricrpc/Operation.hpp\"'',
           ''#include \"fabricrpc/FRPCHeader.hpp\"''])]) = Inr (header_head file)"
    by (rule generated_writes, rule writes_text,
        ((rule writes_file_vars[OF assms(2)] write_rules assms | (code_simp; fail))+)[1],
        simp add: header_head_def name_scope_def instance_simps emit_Cons)
  then show ?thesis
    using GetHeaderServices_text[OF assms] GetHeaderClients_text[OF assms]
    by (simp add: GenerateHeaderContent_def)
qed

section \<open>The files of the second plugin\<close>

definition header2_head :: "file_descriptor \<Rightarrow> string" where
  "header2_head file = emit 0
     [''// Generated by fabric_rpc2_cpp_plugin. Do not Edit.'',
      ''// source: '' @ fd_name file,
      ''#pragma once'',
      ''#include \"'' @ getProtoNameNoExt (fd_name file) @ ''.pb.h\"'',
      ''#include \"fabrictransport_.h\"'',
      ''#include \"fabricrpc/fabricrpc2.hpp\"'']"

definition namespace2_text :: "string \<Rightarrow> file_descriptor \<Rightarrow> string \<Rightarrow> string" where
  "namespace2_text title file body =
     emit 0 [title, ''namespace '' @ namespace_of ''fabricrpc2'' file @ '' {'', ''namespace net = boost::asio;''] @
     body @
     emit 0 [''} // namespace '' @ namespace_of ''fabricrpc2'' file]"

lemma MetaHeader_text:
  assumes "boost_laws B" and "good_file file"
  shows "MetaHeader_GenerateContent B file = Inr (header2_head file)"
  unfolding MetaHeader_GenerateContent_def
  by (rule generated_writes, rule writes_text,
      ((rule writes_file_vars[OF assms(2)] write_rules assms | (code_simp; fail))+)[1],
      simp add: header2_head_def name_scope_def instance_simps emit_Cons)

lemma ClientHeader_text:
  assumes "boost_laws B" and "good_file file"
  shows "ClientHeader_GenerateContent b B file =
    Inr (namespace2_text ''// Client code'' file (concat (map (client2_text file) (fd_services file))))"
proof -
  have loop: "writes (file_scope ''fabricrpc2'' file) 0 (concat (map (client2_text file) (fd_services file)))
      (file_scope ''fabricrpc2'' file) 0 (for_each (PrintHeaderClientService2 b B) (fd_services file))"
    using PrintHeaderClientService2_writes[OF assms(1) good_file_services[OF assms(2)]]
    by (intro writes_for_each)
  note head = writes_package_vars[OF assms(2) good_namespaces(2)]
  show ?thesis
    unfolding ClientHeader_GenerateContent_def
    by (rule generated_writes, rule writes_text,
        ((rule head loop write_rules assms | (code_simp; fail))+)[1],
        simp add: namespace2_text_def namespace_of_def instance_simps emit_Cons)
qed

lemma ServerHeader_text:
  assumes "boost_laws B" and "good_file file"
  shows "ServerHeader_GenerateContent b B file =
    Inr (namespace2_text ''// Server code'' file (concat (map (service2_text file) (fd_services file))))"
proof -
  have loop: "writes (file_scope ''fabricrpc2'' file) 0 (concat (map (service2_text file) (fd_services file)))
      (file_scope ''fabricrpc2'' file) 0 (for_each (PrintHeaderService2 b B) (fd_services file))"
    using PrintHeaderService2_writes[OF assms(1) good_file_services[OF assms(2)]]
    by (intro writes_for_each)
  note head = writes_package_vars[OF assms(2) good_namespaces(2)]
  show ?thesis
    unfolding ServerHeader_GenerateContent_def
    by (rule generated_writes, rule writes_text,
        ((rule head loop write_rules assms | (code_simp; fail))+)[1],
        simp add: namespace2_text_def namespace_of_def instance_simps emit_Cons)
qed

section \<open>The base name of a proto file\<close>

lemma rfind_None: "rfind pat s = None \<Longrightarrow> s \<noteq> p @ pat @ q"
proof (induction s arbitrary: p)
  case Nil
  then show ?case by (auto split: if_splits)
next
  case (Cons c s)
  show ?case
  proof (cases p)
    case Nil
    then show ?thesis using Cons.prems by (auto simp: starts_with_iff split: option.splits if_splits)
  next
    case (Cons d p')
    then show ?thesis using Cons.IH[of p'] Cons.prems by (auto split: option.splits)
  qed
qed

lemma rfind_Some:
  "rfind pat s = Some i \<Longrightarrow>
     (\<exists>q. s = take i s @ pat @ q) \<and> i \<le> length s \<and> (\<forall>p q. s = p @ pat @ q \<longrightarrow> length p \<le> i)"
proof (induction s arbitrary: i)
  case Nil
  then show ?case by (auto split: if_splits)
next
  case (Cons c s)
  show ?case
  proof (cases "rfind pat s")
    case (Some j)
    then have i: "i = Suc j" using Cons.prems by simp
    have "length p \<le> i" if "c # s = p @ pat @ q" for p q
      using that Cons.IH[OF Some] i by (cases p) auto
    then show ?thesis using Cons.IH[OF Some] i by auto
  next
    case None
    then have i: "i = 0" and "\<exists>q. c # s = pat @ q"
      using Cons.prems by (auto simp: starts_with_iff split: if_splits)
    moreover have "length p \<le> 0" if "c # s = p @ pat @ q" for p q
      using that rfind_None[OF None, of "tl p" q] by (cases p) auto
    ultimately show ?thesis by auto
  qed
qed

end
