(* ===== verification/Generator_Properties.thy ===== *)
theory Generator_Properties
  imports Generated_Code "HOL-Library.Sublist"
begin

text \<open>
  The properties of the two protoc plugins: the template printer, the absence of faults, the text
  of the generated code, and the agreement of the URLs on the two sides of a generated call.
\<close>

section \<open>A concrete file\<close>

definition demo_method :: "string \<Rightarrow> bool \<Rightarrow> method_descriptor" where
  "demo_method name streaming =
     \<lparr>md_name = name, md_input = ''FabricRequest'', md_output = ''FabricResponse'',
      md_client_streaming = streaming, md_server_streaming = False\<rparr>"

definition demo_service :: service_descriptor where
  "demo_service =
     \<lparr>sd_name = ''FabricHello'', sd_methods = [demo_method ''SayHello'' False, demo_method ''Listen'' True]\<rparr>"

definition demo_file :: file_descriptor where
  "demo_file = \<lparr>fd_name = ''helloworld.proto'', fd_package = ''helloworld'', fd_services = [demo_service]\<rparr>"

lemma demo_good [simp]: "good_file demo_file" "good_service demo_service"
  "demo_service \<in> set (fd_services demo_file)"
  by (code_simp, code_simp, simp add: demo_file_def)

section \<open>The printer\<close>

text \<open>
  C24: the printer substitutes.  Replacing \<open>$key$\<close> for one variable after the other, in the order of
  the map, and then indenting line by line, adds exactly the lines of the template with every
  placeholder replaced at once, each non-empty line once, indented by two spaces per level and
  ended by one line break.  No value is read as a placeholder, whatever the order.
\<close>

theorem printer_substitutes:
  assumes "boost_laws B" and "good_vars vs" and "list_all good_line (l # ls)"
  shows "AddVars B vs (code_lines ls @ l) p =
    p\<lparr>p_output := p_output p @ emit (p_indent p) (map (instance_of (map_of vs)) (ls @ [l]))\<rparr>"
  by (rule AddVars_lines[OF assms])

theorem printer_substitutes_witness:
  "p_output (AddVars boost_ref [(''Package'', ''a.''), (''Service'', ''Method'')] (code_lines [''url $Package$$Service$;'', '''']) mk_printer) =
     ''url a.Method;'' @ [nl]"
proof -
  have "good_vars [(''Package'', ''a.''), (''Service'', ''Method'')]"
    and "list_all good_line ['''', ''url $Package$$Service$;'', '''']"
    by code_simp+
  from printer_substitutes[OF boost_ref_laws this, of mk_printer] show ?thesis
    by (simp add: mk_printer_def emit_Cons instance_of_def placeholder_def)
qed

text \<open>
  C38: the generators finish.  For every descriptor, whatever its names, and in either build, both
  plugins return their two files: the assertion in \<open>Outdent\<close> never fails and the indentation
  counter never wraps.
\<close>

theorem generators_finish:
  "returns (Generate b B file) \<and> returns (Generate2 b B file)"
  unfolding Generate_def Generate2_def Let_def
  by (intro conjI returns_ebind contents_return returns_simps)

section \<open>The generated code\<close>

text \<open>Where a text stands in the generated code.\<close>

lemma sublist_before: "sublist x b \<Longrightarrow> sublist x (a @ b)"
  and sublist_after: "sublist x a \<Longrightarrow> sublist x (a @ b)"
  unfolding sublist_def by (metis append.assoc)+

lemma sublist_concat: "sublist t (f x) \<Longrightarrow> x \<in> set xs \<Longrightarrow> sublist t (concat (map f xs))"
  by (induction xs) (auto intro: sublist_before sublist_after)

lemma sublist_emit:
  assumes "l \<in> set ls"
  shows "sublist (emit n [l]) (emit n ls)"
proof -
  obtain xs ys where "ls = xs @ [l] @ ys" using split_list[OF assms] by auto
  then show ?thesis unfolding emit_append by (simp only: sublist_appendI emit_append)
qed

lemma sublist_two: "sublist (t @ emit n [l]) (t @ emit n (l # ls) @ r)"
proof -
  have "emit n (l # ls) = emit n [l] @ emit n ls" using emit_append[of n "[l]" ls] by simp
  then have "t @ emit n (l # ls) @ r = '''' @ (t @ emit n [l]) @ (emit n ls @ r)" by simp
  then show ?thesis unfolding sublist_def by blast
qed

lemma sublist_mid: "sublist x b \<Longrightarrow> sublist x (a @ b @ c)"
  by (rule sublist_before, rule sublist_after)

definition route_test :: "file_descriptor \<Rightarrow> service_descriptor \<Rightarrow> method_descriptor \<Rightarrow> string" where
  "route_test file s m = emit 1 [url_test (method_url (fd_package file) (sd_name s) (md_name m))]"

definition client_call :: "string \<Rightarrow> string" where
  "client_call u = emit 0
     [''  return fabricrpc::ExecClientBegin(client_, cv_, timeoutMilliseconds, \"'' @ u @ ''\", request,'']"

definition execute_test :: "file_descriptor \<Rightarrow> service_descriptor \<Rightarrow> method_descriptor \<Rightarrow> string" where
  "execute_test file s m = emit 2 [url_test (method_url (fd_package file) (sd_name s) (md_name m))]"

definition client2_url :: "string \<Rightarrow> string" where
  "client2_url u = emit 1 [''static const std::string url = \"'' @ u @ ''\";'']"

lemma in_enumerate: "m \<in> set ms \<Longrightarrow> \<exists>i. (i, m) \<in> set (enumerate 0 ms)"
  by (auto simp: in_set_conv_nth[of m] in_set_enumerate_eq)

lemma services_text_test:
  assumes "s \<in> set (fd_services file)" and "m \<in> set (sd_methods s)"
  shows "sublist (route_test file s m) (services_text file)"
proof -
  obtain i where i: "(i, m) \<in> set (enumerate 0 (sd_methods s))" using in_enumerate[OF assms(2)] by blast
  have "sublist (route_test file s m) (route_branch_text 1 file s i m)"
    unfolding route_branch_text_def route_test_def by (rule sublist_mid) simp
  then have "sublist (route_test file s m) (route_text file s)"
    unfolding route_text_def
    by (intro sublist_mid sublist_concat[OF _ i]) simp
  then show ?thesis
    unfolding services_text_def by (intro sublist_mid sublist_concat[OF _ assms(1)])
qed

lemma clients_text_call:
  assumes "s \<in> set (fd_services file)" and "m \<in> set (sd_methods s)" and "no_streaming m"
  shows "sublist (client_call (method_url (fd_package file) (sd_name s) (md_name m))) (clients_text file)"
proof -
  have "sublist (client_call (method_url (fd_package file) (sd_name s) (md_name m))) (client_method_text file s m)"
    using assms(3) unfolding client_method_text_def client_call_def by (simp add: sublist_emit)
  then have "sublist (client_call (method_url (fd_package file) (sd_name s) (md_name m))) (client_text file s)"
    unfolding client_text_def by (intro sublist_before sublist_concat[OF _ assms(2)])
  then show ?thesis
    unfolding clients_text_def by (intro sublist_mid sublist_concat[OF _ assms(1)])
qed

text \<open>
  The files of the first plugin.  For a file whose names can stand in a template, the plugin
  writes a header and a source with the base name of the proto file; each is its head, the
  services in the order of the file, and their clients, written out without templates: the router
  of a service tests the URLs of the methods in their order and binds \<open>BeginM\<close> and \<open>EndM\<close> of the
  method whose URL it tests, and a URL that no method has is answered \<open>NOT_FOUND\<close>.
\<close>

lemma first_plugin_files:
  assumes "boost_laws B" and "good_file file"
  shows "Generate b B file = Inr
    [(getProtoNameNoExt (fd_name file) @ ''.fabricrpc.h'',
      header_head file @ header_services_text file @ header_clients_text file),
     (getProtoNameNoExt (fd_name file) @ ''.fabricrpc.cc'',
      source_head file @ services_text file @ clients_text file)]"
  by (simp add: Generate_def GenerateHeaderContent_text[OF assms] GenerateCCContent_text[OF assms] Let_def)

lemma first_plugin_files_witness:
  "\<exists>header source. Generate Debug boost_ref demo_file =
     Inr [(''helloworld.fabricrpc.h'', header), (''helloworld.fabricrpc.cc'', source)]"
proof -
  have "getProtoNameNoExt (fd_name demo_file) = ''helloworld''" by code_simp
  then show ?thesis using first_plugin_files[OF boost_ref_laws demo_good(1), of Debug] by simp
qed

text \<open>
  Both sides of a call name the same URL.  For every method of every service of a file, the
  generated router tests the URL \<open>/package.Service/Method\<close>; the stub of the generated client of
  the same plugin, which every method without streaming has, passes exactly this URL to
  \<open>ExecClientBegin\<close>; and the second plugin writes the same pair into its header.
\<close>

lemma generated_urls_agree:
  assumes "boost_laws B" and "good_file file"
    and "s \<in> set (fd_services file)" and "m \<in> set (sd_methods s)" and "no_streaming m"
  shows "(\<exists>out. GenerateCCContent b B file = Inr out \<and>
      sublist (emit 1 [url_test (method_url (fd_package file) (sd_name s) (md_name m))]) out \<and>
      sublist (client_call (method_url (fd_package file) (sd_name s) (md_name m))) out) \<and>
    (\<exists>client server. ClientHeader_GenerateContent b B file = Inr client \<and>
      ServerHeader_GenerateContent b B file = Inr server \<and>
      sublist (client2_url (method_url (fd_package file) (sd_name s) (md_name m))) client \<and>
      sublist (emit 2 [url_test (method_url (fd_package file) (sd_name s) (md_name m))]) server)"
proof -
  have "sublist (client2_url (method_url (fd_package file) (sd_name s) (md_name m))) (client2_method_text file s m)"
    using assms(5) unfolding client2_method_text_def client2_url_def by (simp add: sublist_emit)
  then have "sublist (client2_url (method_url (fd_package file) (sd_name s) (md_name m))) (client2_text file s)"
    unfolding client2_text_def by (intro sublist_before sublist_after sublist_concat[OF _ assms(4)])
  then have client: "sublist (client2_url (method_url (fd_package file) (sd_name s) (md_name m)))
      (namespace2_text t file (concat (map (client2_text file) (fd_services file))))" for t
    unfolding namespace2_text_def by (intro sublist_mid sublist_concat[OF _ assms(3)])
  obtain i where i: "(i, m) \<in> set (enumerate 0 (sd_methods s))" using in_enumerate[OF assms(4)] by blast
  have "sublist (execute_test file s m) (execute_branch_text file s i m)"
    unfolding execute_branch_text_def execute_test_def by (rule sublist_mid) simp
  then have "sublist (execute_test file s m) (service2_text file s)"
    unfolding service2_text_def
    by (intro sublist_before sublist_after sublist_concat[OF _ i]) simp
  then have server: "sublist (execute_test file s m)
      (namespace2_text t file (concat (map (service2_text file) (fd_services file))))" for t
    unfolding namespace2_text_def by (intro sublist_mid sublist_concat[OF _ assms(3)])
  show ?thesis
    using GenerateCCContent_text[OF assms(1,2)] ClientHeader_text[OF assms(1,2)] ServerHeader_text[OF assms(1,2)]
      client server services_text_test[OF assms(3,4)] clients_text_call[OF assms(3-5)]
    unfolding route_test_def execute_test_def
    by (metis sublist_before sublist_after)
qed

lemma generated_urls_agree_witness:
  "\<exists>out. GenerateCCContent Release boost_ref demo_file = Inr out \<and>
     sublist (emit 1 [''if (url == \"/helloworld.FabricHello/SayHello\") {'']) out \<and>
     sublist (client_call ''/helloworld.FabricHello/SayHello'') out"
proof -
  have "demo_method ''SayHello'' False \<in> set (sd_methods demo_service)" and "no_streaming (demo_method ''SayHello'' False)"
    by (simp_all add: demo_service_def demo_method_def no_streaming_def)
  from generated_urls_agree[OF boost_ref_laws demo_good(1,3) this, of Release]
  show ?thesis
    by (simp add: demo_file_def demo_service_def demo_method_def method_url_def package_prefix_def url_test_def)
qed

text \<open>
  Methods with streaming.  The header of the first plugin declares no operation for such a
  method, only a comment in which the placeholders are left as they are; the router of the
  generated source tests its URL and binds \<open>BeginM\<close> and \<open>EndM\<close> all the same.
\<close>

lemma streaming_method_routed_not_declared:
  assumes "boost_laws B" and "good_file file"
    and "s \<in> set (fd_services file)" and "m \<in> set (sd_methods s)" and "\<not> no_streaming m"
  shows "(\<exists>g'. PrintHeaderServerMethodSync B m g = Inr g' \<and>
      p_output (gs_printer g') = p_output (gs_printer g) @ emit (p_indent (gs_printer g))
        [''// Streamingfor method $Method$ request $Request$ response $Response$ not supported '']) \<and>
    (\<exists>out. GetCCServices b B file = Inr out \<and>
      sublist (emit 1 [url_test (method_url (fd_package file) (sd_name s) (md_name m))] @
        emit 2 [''auto bo = std::bind(&Service::Begin'' @ md_name m @ '', this, std::placeholders::_1,'']) out)"
proof -
  have line: "AddLn B streaming_note p = p\<lparr>p_output := p_output p @ emit (p_indent p) [streaming_note]\<rparr>" for p
    using Add_lines[OF assms(1), of "[streaming_note]" "''''" p]
    by (simp add: AddLn_def streaming_note_def one_line_def nl_def emit_Cons)
  obtain i where i: "(i, m) \<in> set (enumerate 0 (sd_methods s))" using in_enumerate[OF assms(4)] by blast
  have "sublist (route_test file s m @
      emit 2 [''auto bo = std::bind(&Service::Begin'' @ md_name m @ '', this, std::placeholders::_1,''])
      (route_branch_text 1 file s i m)"
    unfolding route_branch_text_def route_test_def
    by (rule sublist_before) (simp add: sublist_two)
  then have "sublist (route_test file s m @
      emit 2 [''auto bo = std::bind(&Service::Begin'' @ md_name m @ '', this, std::placeholders::_1,''])
      (route_text file s)"
    unfolding route_text_def by (intro sublist_mid sublist_concat[OF _ i]) simp
  then have "sublist (route_test file s m @
      emit 2 [''auto bo = std::bind(&Service::Begin'' @ md_name m @ '', this, std::placeholders::_1,''])
      (services_text file)"
    unfolding services_text_def by (intro sublist_mid sublist_concat[OF _ assms(3)])
  then show ?thesis
    using GetCCServices_text[OF assms(1,2)] assms(5) line
    by (simp add: PrintHeaderServerMethodSync_def method_vars_def assign_def add_ln_def route_test_def
        streaming_note_def)
qed

lemma streaming_method_routed_not_declared_witness:
  "\<exists>out. GetCCServices Debug boost_ref demo_file = Inr out \<and>
     sublist (emit 1 [''if (url == \"/helloworld.FabricHello/Listen\") {''] @
       emit 2 [''auto bo = std::bind(&Service::BeginListen, this, std::placeholders::_1,'']) out"
proof -
  have "demo_method ''Listen'' True \<in> set (sd_methods demo_service)" and "\<not> no_streaming (demo_method ''Listen'' True)"
    by (simp_all add: demo_service_def demo_method_def no_streaming_def)
  from streaming_method_routed_not_declared[OF boost_ref_laws demo_good(1,3) this,
      of "\<lparr>gs_printer = mk_printer, gs_vars = []\<rparr>" Debug]
  show ?thesis
    by (simp add: demo_file_def demo_service_def demo_method_def method_url_def package_prefix_def url_test_def)
qed

text \<open>
  The files of the second plugin.  It writes one header, the head, the clients and the
  services of the file, and an empty source.  Every service class returns the name
  \<open>helloworld.FabricHello\<close>, and declares for each method without streaming, whatever its name
  and its messages, the same pure virtual \<open>SayHello\<close> on \<open>helloworld::FabricRequest\<close>.
\<close>

lemma second_plugin_files:
  assumes "boost_laws B" and "good_file file"
  shows "Generate2 b B file = Inr
      [(getProtoNameNoExt (fd_name file) @ ''.fabricrpc2.h'',
        header2_head file @
        namespace2_text ''// Client code'' file (concat (map (client2_text file) (fd_services file))) @
        namespace2_text ''// Server code'' file (concat (map (service2_text file) (fd_services file)))),
       (getProtoNameNoExt (fd_name file) @ ''.fabricrpc2.cc'', '''')] \<and>
    (\<forall>s \<in> set (fd_services file).
       sublist (emit 1 [''const std::string_view name() override { return \"helloworld.FabricHello\"; }''])
         (service2_text file s) \<and>
       (\<forall>m \<in> set (sd_methods s). no_streaming m \<longrightarrow>
          sublist (emit 1 [''virtual net::awaitable<absl::Status> SayHello(helloworld::FabricRequest *request,helloworld::FabricResponse *resp) = 0;''])
            (service2_text file s)))"
proof (intro conjI ballI impI)
  show "Generate2 b B file = Inr
      [(getProtoNameNoExt (fd_name file) @ ''.fabricrpc2.h'',
        header2_head file @
        namespace2_text ''// Client code'' file (concat (map (client2_text file) (fd_services file))) @
        namespace2_text ''// Server code'' file (concat (map (service2_text file) (fd_services file)))),
       (getProtoNameNoExt (fd_name file) @ ''.fabricrpc2.cc'', '''')]"
    by (simp add: Generate2_def MetaHeader_text[OF assms] ClientHeader_text[OF assms] ServerHeader_text[OF assms]
        ClientCC_GenerateContent_def ServerCC_GenerateContent_def Let_def)
next
  fix s :: service_descriptor
  have "emit 1 [''const std::string_view name() override { return \"helloworld.FabricHello\"; }''] =
      emit 1 [''const std::string_view name() override { return \"'' @ generated_name @ ''\"; }'']"
    by (simp add: generated_name_def)
  then show "sublist (emit 1 [''const std::string_view name() override { return \"helloworld.FabricHello\"; }''])
      (service2_text file s)"
    unfolding service2_text_def by (simp only:) (intro sublist_mid sublist_emit list.set_intros)
next
  fix s :: service_descriptor and m assume m: "m \<in> set (sd_methods s)" "no_streaming m"
  then have "emit 1 [''virtual net::awaitable<absl::Status> SayHello(helloworld::FabricRequest *request,helloworld::FabricResponse *resp) = 0;''] =
      server2_method_text m"
    by (simp add: server2_method_text_def server_method_declaration_def)
  then show "sublist (emit 1 [''virtual net::awaitable<absl::Status> SayHello(helloworld::FabricRequest *request,helloworld::FabricResponse *resp) = 0;''])
      (service2_text file s)"
    unfolding service2_text_def
    by (simp only:) (rule sublist_before, rule sublist_before, rule sublist_before, rule sublist_before,
        rule sublist_before, rule sublist_before, rule sublist_after, rule sublist_concat[OF _ m(1)], simp)
qed

lemma second_plugin_files_witness:
  "\<exists>header. Generate2 Debug boost_ref demo_file = Inr [(''helloworld.fabricrpc2.h'', header), (''helloworld.fabricrpc2.cc'', '''')]"
proof -
  have "getProtoNameNoExt (fd_name demo_file) = ''helloworld''" by code_simp
  then show ?thesis using second_plugin_files[OF boost_ref_laws demo_good(1), of Debug] by simp
qed

text \<open>
  The base name of a proto file.  The name is cut before the last \<open>.proto\<close> that occurs in it,
  wherever that is, and what follows is dropped; a name without it stays whole.
\<close>

lemma proto_base_name:
  "getProtoNameNoExt (base @ ''.proto'') = base \<and>
   (case rfind ''.proto'' filename of
      None \<Rightarrow> getProtoNameNoExt filename = filename \<and> (\<nexists>p q. filename = p @ ''.proto'' @ q)
    | Some dot \<Rightarrow> (\<exists>rest. filename = getProtoNameNoExt filename @ ''.proto'' @ rest) \<and>
        (\<forall>p q. filename = p @ ''.proto'' @ q \<longrightarrow> length p \<le> length (getProtoNameNoExt filename)))"
proof
  have "rfind ''.proto'' (base @ ''.proto'') \<noteq> None" using rfind_None[of "''.proto''" "base @ ''.proto''" base "''''"] by auto
  then obtain i where i: "rfind ''.proto'' (base @ ''.proto'') = Some i" by blast
  have "length base \<le> i" using rfind_Some[OF i] by (metis append_Nil2)
  moreover obtain q where q: "base @ ''.proto'' = take i (base @ ''.proto'') @ ''.proto'' @ q"
    using rfind_Some[OF i] by blast
  have "length (base @ ''.proto'') = i + 6 + length q"
    using conjunct1[OF conjunct2[OF rfind_Some[OF i]]] by (subst q) (auto simp: min_def)
  then have "i \<le> length base" by simp
  ultimately show "getProtoNameNoExt (base @ ''.proto'') = base" by (simp add: getProtoNameNoExt_def i)
next
  show "case rfind ''.proto'' filename of
      None \<Rightarrow> getProtoNameNoExt filename = filename \<and> (\<nexists>p q. filename = p @ ''.proto'' @ q)
    | Some dot \<Rightarrow> (\<exists>rest. filename = getProtoNameNoExt filename @ ''.proto'' @ rest) \<and>
        (\<forall>p q. filename = p @ ''.proto'' @ q \<longrightarrow> length p \<le> length (getProtoNameNoExt filename))"
  proof (cases "rfind ''.proto'' filename")
    case None
    then show ?thesis using rfind_None[OF None] by (auto simp: getProtoNameNoExt_def)
  next
    case (Some dot)
    then have "getProtoNameNoExt filename = take dot filename" by (simp add: getProtoNameNoExt_def)
    moreover have "length (take dot filename) = dot" using rfind_Some[OF Some] by simp
    ultimately show ?thesis unfolding Some option.case using rfind_Some[OF Some] by metis
  qed
qed

end
