(* ===== verification/Hello_Programs.thy ===== *)
theory Hello_Programs
  imports Rpc_Call Example_Services Acceptor
begin

text \<open>
  The main programs of examples/helloworld and examples/helloworld2, each as the function from
  what the transport and the protobuf library answer to its exit code and its two output streams.
  A client program sends through a transport client that is a parameter; \<open>loopback\<close> is the one
  that is connected to a request handler.
\<close>

section \<open>Programs\<close>

record program_run =
  exit_code :: int
  std_out :: string
  std_err :: string

definition EXIT_SUCCESS :: int where
  "EXIT_SUCCESS = 0"

definition EXIT_FAILURE :: int where
  "EXIT_FAILURE = 1"

definition endl :: string where
  "endl = [CHR 0x0A]"

definition fails_with :: "string \<Rightarrow> string \<Rightarrow> program_run" where
  "fails_with printed message = \<lparr>exit_code = EXIT_FAILURE, std_out = printed, std_err = message\<rparr>"

text \<open>An \<open>HRESULT\<close> is printed as a signed number.\<close>

definition show_hresult :: "HRESULT \<Rightarrow> string" where
  "show_hresult hr = to_string (sint hr)"

text \<open>
  \<open>Status\<close> has no \<open><<\<close> of its own: \<open>operator bool\<close> makes it print as a boolean.
\<close>

definition show_status :: "Status \<Rightarrow> string" where
  "show_status st = (if failed st then ''1'' else ''0'')"

section \<open>The programs of the first library\<close>

text \<open>
  The settings that both programs give to the transport, the address that the server listens on,
  and the one that the client connects to.
\<close>

definition hello_settings :: transport_settings where
  "hello_settings =
     \<lparr>KeepAliveTimeoutInSeconds = 10, MaxConcurrentCalls = 10, MaxMessageSize = 100,
      MaxQueueSize = 100, OperationTimeoutInSeconds = 30\<rparr>"

definition hello_client_settings :: transport_settings where
  "hello_client_settings =
     \<lparr>KeepAliveTimeoutInSeconds = 10, MaxConcurrentCalls = 10, MaxMessageSize = 100,
      MaxQueueSize = 100, OperationTimeoutInSeconds = 30\<rparr>"

definition hello_listen_addr :: "string \<times> 32 word \<times> string" where
  "hello_listen_addr = (''localhost'', 12345, ''/'')"

definition hello_addr_str :: string where
  "hello_addr_str = ''localhost:12345+/''"

text \<open>
  The generated \<open>CreateFabricRPCRequestHandler\<close>, the same for every file, and the example's server;
  \<open>str\<close> is the address that the listener opens.
\<close>

definition CreateFabricRPCRequestHandler ::
    "build \<Rightarrow> request_header codec \<Rightarrow> reply_header codec \<Rightarrow> ('c, 'u) MiddleWare list \<Rightarrow>
     ('c, 'u) FRPCRequestHandler exec" where
  "CreateFabricRPCRequestHandler b Q R svcList =
     Handler_Initialize b svcList (Some (FabricRPCHeaderProtoConverter Q R)) mk_FRPCRequestHandler"

definition hello_server_main ::
    "build \<Rightarrow> request_header codec \<Rightarrow> reply_header codec \<Rightarrow> string codec \<Rightarrow> string codec \<Rightarrow>
     create_listener \<Rightarrow> handshake \<Rightarrow> string \<Rightarrow> handshake \<Rightarrow>
     (program_run \<times> (string, 'u) FRPCRequestHandler) exec" where
  "hello_server_main b Q R Req Resp create opening str closing =
     ebind (CreateFabricRPCRequestHandler b Q R [Service_Route (hello_service Req Resp)]) (\<lambda>H.
     if create hello_settings hello_listen_addr \<noteq> S_OK then Inr (fails_with '''' '''', H)
     else if hs_begin opening \<noteq> S_OK then Inr (fails_with '''' '''', H)
     else
       ebind (await (hs_invokes opening)) (\<lambda>_.
       if hs_end opening \<noteq> S_OK then Inr (fails_with '''' '''', H)
       else
         let printed = ''Listening on: '' @ str
         in if hs_begin closing \<noteq> S_OK then Inr (fails_with printed '''', H)
            else
              ebind (await (hs_invokes closing)) (\<lambda>_.
              if hs_end closing \<noteq> S_OK then Inr (fails_with printed '''', H)
              else Inr (\<lparr>exit_code = EXIT_SUCCESS, std_out = printed, std_err = ''''\<rparr>, H))))"

text \<open>
  The example's client; \<open>BeginSayHello\<close> and \<open>EndSayHello\<close> of the generated class call the two
  client helpers with the method's URL.  \<open>calls\<close> is how often the transport invokes the callback
  of the request.  A response that is not filled is an empty message.
\<close>

definition hello_client_main ::
    "build \<Rightarrow> ('x, 'w) create_client \<Rightarrow> handshake \<Rightarrow> nat \<Rightarrow>
     IFabricRPCHeaderProtoConverter \<Rightarrow> string codec \<Rightarrow> string codec \<Rightarrow> int \<times> int \<Rightarrow> 'w \<Rightarrow>
     (program_run \<times> 'w) exec" where
  "hello_client_main b create opening calls conv Req Resp clk w =
     (let (hr, client) = create hello_client_settings hello_addr_str
      in if hr \<noteq> S_OK
      then Inr (fails_with '''' (''cannot create client '' @ show_hresult hr @ endl), w)
      else if hs_begin opening \<noteq> S_OK
      then Inr (fails_with '''' (''cannot begin open '' @ show_hresult (hs_begin opening) @ endl), w)
      else
        ebind (await (hs_invokes opening)) (\<lambda>_.
        if hs_end opening \<noteq> S_OK
        then Inr (fails_with '''' (''cannot end open '' @ show_hresult (hs_end opening) @ endl), w)
        else
          ebind (ExecClientBegin b client conv Req 1000 ''/helloworld.FabricHello/SayHello'' ''world'' clk w)
            (\<lambda>((st, ctx), w1).
          if failed st
          then Inr (fails_with '''' (''BeginSayHello Failed '' @ show_status st @ endl), w1)
          else
            ebind (await calls) (\<lambda>_.
            ebind (ExecClientEnd client conv Resp ctx w1) (\<lambda>((st, response), w2).
            if failed st
            then Inr (fails_with '''' (''SaySayHelloEnd Failed '' @ show_status st @ endl), w2)
            else
              let text = (case response of None \<Rightarrow> '''' | Some fabricmessage \<Rightarrow> fabricmessage)
              in Inr (\<lparr>exit_code = EXIT_SUCCESS, std_out = ''Reply: '' @ text @ endl, std_err = ''''\<rparr>,
                      w2))))))"

section \<open>The programs of the second library\<close>

definition fabric_hello_impl_SayHello :: "'s absl_api \<Rightarrow> string \<Rightarrow> 'u \<Rightarrow> ('s \<times> string) \<times> 'u" where
  "fabric_hello_impl_SayHello A fabricname u =
     (let reply = ''Hello'' @ fabricname in ((OkStatus A, reply), u))"

text \<open>\<open>to_text\<close> is \<open>ToString\<close> of \<open>absl::Status\<close>.\<close>

definition server2_main ::
    "build \<Rightarrow> 's absl_api \<Rightarrow> ('s \<Rightarrow> string) \<Rightarrow> create_listener \<Rightarrow> handshake \<Rightarrow> string \<Rightarrow> 'u \<Rightarrow>
     program_run exec" where
  "server2_main b A to_text create opening str u =
     ebind (ex_serve b A create opening str 12345 u) (\<lambda>started.
     let printed = (case started of Inl _ \<Rightarrow> '''' | Inr (line, _) \<Rightarrow> line @ endl);
         st = ex_serve_result A started
     in Inr (if \<not> st_ok A st then fails_with printed (''Failed: '' @ to_text st @ endl)
             else \<lparr>exit_code = EXIT_SUCCESS, std_out = printed, std_err = ''''\<rparr>))"

text \<open>
  \<open>message\<close> and \<open>what\<close> are the texts of an error code and of the exception that \<open>use_awaitable\<close>
  throws for it.  The end of \<open>main\<close> is reached with exit code 0 also when the call has failed.
\<close>

definition client2_main ::
    "build \<Rightarrow> 's absl_api \<Rightarrow> ('s \<Rightarrow> string) \<Rightarrow> (HRESULT \<Rightarrow> string) \<Rightarrow> (HRESULT \<Rightarrow> string) \<Rightarrow>
     request_header codec \<Rightarrow> reply_header codec \<Rightarrow> string codec \<Rightarrow> string codec \<Rightarrow>
     ('x, 'w) create_client \<Rightarrow> handshake \<Rightarrow> HRESULT \<Rightarrow> 'w \<Rightarrow>
     (program_run \<times> 'w) exec" where
  "client2_main b A to_text message what Q R Req Resp create opening ec_wait w =
     (let ep = mk_endpoint ''localhost'' 12345
      in ebind (cxx_assert b ''ep.get_url() == localhost:12345+/'' (get_url ep = ''localhost:12345+/'')) (\<lambda>_.
         ebind (connection_open b create opening ep mk_client_connection) (\<lambda>(ec, conn).
         if ec \<noteq> 0 then Inr (fails_with '''' (''open:'' @ message ec), w)
         else
           ebind (rpc_client_async_send A Q R Req Resp conn ec_wait ''/helloworld.FabricHello/SayHello''
                    ''myname'' w) (\<lambda>((ec, st, reply), w').
           let (status, printed) =
                 (if ec \<noteq> 0 then (UnknownError A (''coro has exception '' @ what ec), '''')
                  else (st, ''Reply: '' @ (case reply of None \<Rightarrow> '''' | Some fabricmessage \<Rightarrow> fabricmessage) @ endl))
           in Inr (\<lparr>exit_code = EXIT_SUCCESS, std_out = printed,
                    std_err = (if \<not> st_ok A status then ''send failed:'' @ to_text status else '''')\<rparr>,
                   w')))))"

section \<open>A transport that is connected to a handler\<close>

text \<open>
  The transport's state is the server's and the reply that has come back; a server that faults is
  a connection that breaks.
\<close>

definition E_FAIL :: HRESULT where
  "E_FAIL = 0x80004005"

definition loopback ::
    "build \<Rightarrow> ('c, 'u) FRPCRequestHandler \<Rightarrow> int \<times> int \<Rightarrow> int \<times> int \<Rightarrow>
     (unit, 'u \<times> (HRESULT \<times> IFabricTransportMessage) option) IFabricTransportClient" where
  "loopback b H clk clk_op =
     \<lparr>BeginRequest = (\<lambda>m t (u, _).
        case serve b H m t clk clk_op u of
          Inl _ \<Rightarrow> ((E_FAIL, None), (u, None))
        | Inr (reply, u') \<Rightarrow> ((S_OK, Some ()), (u', Some reply))),
      EndRequest = (\<lambda>_ (u, r).
        case r of None \<Rightarrow> ((E_FAIL, None), (u, None)) | Some (hr, v) \<Rightarrow> ((hr, Some v), (u, None)))\<rparr>"

text \<open>The same for the second library: the service of the second server program and a middleware.\<close>

definition fabric_hello_handlers ::
    "'s absl_api \<Rightarrow> string codec \<Rightarrow> string codec \<Rightarrow> ('s, 'u) generated_handler list" where
  "fabric_hello_handlers A Req Resp =
     [\<lparr>gh_name = ''SayHello'',
       gh_run = (\<lambda>req resp. codegen_handler_helper A Req Resp req resp (fabric_hello_impl_SayHello A))\<rparr>]"

definition fabric_hello :: "'s absl_api \<Rightarrow> string codec \<Rightarrow> string codec \<Rightarrow> ('s, 'u) service" where
  "fabric_hello A Req Resp =
     generated2_service A ''helloworld'' ''FabricHello'' (fabric_hello_handlers A Req Resp)"

definition loopback2 ::
    "build \<Rightarrow> 's absl_api \<Rightarrow> request_header codec \<Rightarrow> reply_header codec \<Rightarrow> ('s, 'u) service list \<Rightarrow>
     (unit, 'u \<times> IFabricTransportMessage option) IFabricTransportClient" where
  "loopback2 b A Q R svcs =
     \<lparr>BeginRequest = (\<lambda>m t (u, _).
        case middleware_execute b A Q R svcs (Some m) u of
          Inl _ \<Rightarrow> ((E_FAIL, None), (u, None))
        | Inr (reply, u') \<Rightarrow> ((S_OK, Some ()), (u', Some reply))),
      EndRequest = (\<lambda>_ (u, r).
        case r of None \<Rightarrow> ((E_FAIL, None), (u, None)) | Some v \<Rightarrow> ((S_OK, Some v), (u, None)))\<rparr>"

text \<open>An RPC over it is \<open>rpc_call\<close>.\<close>

lemma ExecClientEnd_same_reply:
  assumes "EndRequest client ctx w = (reply, w')" and "EndRequest client2 ctx2 v = (reply, v')"
    and "ExecClientEnd client conv P ctx w = Inr (res, w'')"
  shows "ExecClientEnd client2 conv P ctx2 v = Inr (res, v')"
proof -
  obtain hr m where r: "reply = (hr, m)" by (cases reply)
  have "ExecClientEnd client2 conv P ctx2 v = ebind (ExecClientEnd client conv P ctx w) (\<lambda>(res, _). Inr (res, v'))"
  proof (cases "FRPC_CopyMsg m mk_FRPCTransportMessage")
    case (Inr msg)
    show ?thesis
    proof (cases "DeserializeReplyHeader conv (FRPC_GetHeader msg) mk_FabricRPCReplyHeader")
      case (Pair ok h)
      with Inr show ?thesis using assms(1,2) r by (simp add: ExecClientEnd_def Let_def split: option.split)
    qed
  qed (use assms(1,2) r in \<open>simp add: ExecClientEnd_def\<close>)
  then show ?thesis using assms(3) by simp
qed

lemma rpc_call_over_loopback:
  assumes "call_setting Q R P P' a request"
    and "rpc_call b H (FabricRPCHeaderProtoConverter Q R) P P' t a request clk_client clk clk_op u =
      Inr (res, u')"
  shows "\<exists>w. ExecClientBegin b (loopback b H clk clk_op) (FabricRPCHeaderProtoConverter Q R) P t a
        request clk_client (u, None) = Inr ((Status0, Some ()), w) \<and>
      ExecClientEnd (loopback b H clk clk_op) (FabricRPCHeaderProtoConverter Q R) P' (Some ()) w =
        Inr (res, (u', None))"
proof -
  let ?conv = "FabricRPCHeaderProtoConverter Q R" and ?c = "loopback b H clk clk_op"
  let ?m = "request_view (wire Q \<lparr>url = a\<rparr>) (wire P request)"
  obtain hr v where s: "serve b H ?m (remaining_timeout t clk_client) clk clk_op u = Inr ((hr, v), u')"
    and e: "ExecClientEnd (delivering_client hr v) ?conv P' (Some ()) () = Inr (res, ())"
    using assms(2) client_sends[OF assms(1)] by (auto simp: rpc_call_def ebind_Inr_iff)
  have "BeginRequest ?c ?m (remaining_timeout t clk_client) (u, None) = ((S_OK, Some ()), (u', Some (hr, v)))"
    using s by (simp add: loopback_def)
  then have "ExecClientBegin b ?c ?conv P t a request clk_client (u, None) =
      Inr ((Status0, Some ()), (u', Some (hr, v)))"
    using assms(1)
    by (subst ExecClientBegin_sends[where h = "wire Q \<lparr>url = a\<rparr>" and d = "wire P request" and hr = S_OK])
      (simp_all add: call_setting_def roundtripsD converter_defs header_defs)
  moreover have "ExecClientEnd ?c ?conv P' (Some ()) (u', Some (hr, v)) = Inr (res, (u', None))"
    by (rule ExecClientEnd_same_reply[OF _ _ e]) (simp_all add: delivering_client_def loopback_def)
  ultimately show ?thesis by blast
qed

section \<open>What the programs report\<close>

lemma hello_server_handler:
  assumes "hello_server_main b Q R Req Resp create opening str closing = Inr (report, H)"
  shows "H = handler_of (FRPCRouter_Route [Service_Route (hello_service Req Resp)])
    (FabricRPCHeaderProtoConverter Q R)"
  using assms
  by (simp add: hello_server_main_def CreateFabricRPCRequestHandler_def Handler_Initialize_ok)
    (auto simp: Let_def ebind_Inr_iff split: if_splits)

lemma hello_client_streams:
  assumes "hello_client_main b create opening calls conv Req Resp clk w = Inr (report, w')"
  shows "(exit_code report = EXIT_SUCCESS \<longleftrightarrow> std_err report = '''') \<and>
    (exit_code report = EXIT_SUCCESS \<longleftrightarrow> std_out report \<noteq> '''')"
proof -
  obtain hr client where "create hello_client_settings hello_addr_str = (hr, client)" by (rule prod.exhaust)
  with assms show ?thesis
    by (auto simp: hello_client_main_def fails_with_def EXIT_SUCCESS_def EXIT_FAILURE_def Let_def
        ebind_Inr_iff split: if_splits)
qed

lemma url2: "get_url (mk_endpoint ''localhost'' 12345) = ''localhost:12345+/''"
  by (simp add: get_url_def mk_endpoint_def to_string_def nat_digits.simps digit_char_def) code_simp

lemma client2_not_opened:
  assumes "connection_open b create opening (mk_endpoint ''localhost'' 12345) mk_client_connection = Inr (ec, conn)"
    and "ec \<noteq> 0"
  shows "client2_main b A to_text message what Q R Req Resp create opening ec_wait w =
    Inr (fails_with '''' (''open:'' @ message ec), w)"
  using assms by (simp add: client2_main_def url2)

lemma client2_opened:
  assumes "connection_open b create hs (mk_endpoint ''localhost'' 12345) mk_client_connection = Inr (0, conn)"
    and "rpc_client_async_send A Q R Req Resp conn ec_wait ''/helloworld.FabricHello/SayHello'' ''myname'' w =
      Inr ((ec, st, reply), w')"
  shows "client2_main b A to_text message what Q R Req Resp create hs ec_wait w =
    Inr (if ec \<noteq> 0
         then \<lparr>exit_code = EXIT_SUCCESS, std_out = '''',
               std_err = (let status = UnknownError A (''coro has exception '' @ what ec)
                          in if \<not> st_ok A status then ''send failed:'' @ to_text status else '''')\<rparr>
         else \<lparr>exit_code = EXIT_SUCCESS,
               std_out = ''Reply: '' @ (case reply of None \<Rightarrow> '''' | Some m \<Rightarrow> m) @ endl,
               std_err = (if \<not> st_ok A st then ''send failed:'' @ to_text st else '''')\<rparr>, w')"
  using assms by (simp add: client2_main_def url2 Let_def)

section \<open>Addresses\<close>

text \<open>
  The address that clients use for a listen address, in the format of the transport, and a network
  on which a listener is open: a client can be made for its address only.
\<close>

definition listen_url :: "string \<times> 32 word \<times> string \<Rightarrow> string" where
  "listen_url addr = (case addr of (host, port, path) \<Rightarrow> host @ '':'' @ to_string (uint port) @ ''+'' @ path)"

definition network :: "string \<times> 32 word \<times> string \<Rightarrow> ('x, 'w) IFabricTransportClient \<Rightarrow> ('x, 'w) create_client" where
  "network addr client settings address = (if address = listen_url addr then S_OK else E_FAIL, client)"

text \<open>The programs of both libraries name the same address, with the same settings on either side.\<close>

lemma endpoint_address: "get_url (mk_endpoint host port) = listen_url (get_addr (mk_endpoint host port))"
  by (simp add: get_url_def get_addr_def mk_endpoint_def listen_url_def)

lemma hello_addresses:
  "hello_addr_str = listen_url hello_listen_addr"
  "get_addr (mk_endpoint ''localhost'' 12345) = hello_listen_addr"
  "hello_client_settings = hello_settings"
  "get_settings (mk_endpoint ''localhost'' 12345) = hello_settings"
proof -
  show addr: "get_addr (mk_endpoint ''localhost'' 12345) = hello_listen_addr"
    by (simp add: get_addr_def mk_endpoint_def hello_listen_addr_def)
  show "hello_addr_str = listen_url hello_listen_addr"
    using url2 by (simp add: endpoint_address addr hello_addr_str_def)
qed (simp_all add: get_settings_def mk_endpoint_def hello_settings_def hello_client_settings_def)

lemma hello_client_network [simp]:
  "network hello_listen_addr client hello_client_settings hello_addr_str = (S_OK, client)"
  by (simp add: network_def hello_addresses)

lemma client2_network [simp]:
  "network hello_listen_addr client (get_settings (mk_endpoint ''localhost'' 12345))
     (get_url (mk_endpoint ''localhost'' 12345)) = (S_OK, client)"
  using hello_addresses(1) by (simp add: network_def url2 hello_addr_str_def)

end
