(* ===== verification/Cxx_Tokens.thy ===== *)
theory Cxx_Tokens
  imports Generated_Code "HOL-Library.Monad_Syntax"
begin

text \<open>
  The tokens of C++ text, as far as the generated code uses them: identifiers and keywords, string
  literals, single punctuation characters; white space and both kinds of comments are skipped.
  The lexer is a state machine over the characters, so the tokens of a text are those of its parts
  wherever no token runs over the boundary.  The second half holds the readers from which the
  grammars of the generated code are built.
\<close>

section \<open>The lexer\<close>

datatype token = Word string | Lit string | Punct char

datatype lexer =
    Between
  | InWord string
  | InLit string
  | Slash
  | LineComment
  | BlockComment
  | BlockStar

definition word_char :: "char \<Rightarrow> bool" where
  "word_char c \<longleftrightarrow>
     (let n = of_char c :: nat
      in n = 95 \<or> 48 \<le> n \<and> n \<le> 57 \<or> 65 \<le> n \<and> n \<le> 90 \<or> 97 \<le> n \<and> n \<le> 122)"

text \<open>The same on the bits of a character, for evaluation.\<close>

lemma word_char_bits [code]:
  "word_char (Char b0 b1 b2 b3 b4 b5 b6 b7) \<longleftrightarrow>
     \<not> b7 \<and> (if b6 then (b0 \<or> b1 \<or> b2 \<or> b3 \<or> b4) \<and> (b4 \<and> b3 \<longrightarrow> \<not> b2 \<and> \<not> (b1 \<and> b0)) \<or>
                     \<not> b5 \<and> b4 \<and> b3 \<and> b2 \<and> b1 \<and> b0
              else b5 \<and> b4 \<and> (b3 \<longrightarrow> \<not> b2 \<and> \<not> b1))"
  unfolding word_char_def
  by (cases b7; cases b6; cases b5; cases b4; cases b3; cases b2; cases b1; cases b0; simp)

definition start_char :: "char \<Rightarrow> token list \<times> lexer" where
  "start_char c =
     (if word_char c then ([], InWord [c])
      else if c = CHR ''\"'' then ([], InLit '''')
      else if c = CHR ''/'' then ([], Slash)
      else if c = CHR '' '' \<or> c = nl then ([], Between)
      else ([Punct c], Between))"

fun scan_char :: "lexer \<Rightarrow> char \<Rightarrow> token list \<times> lexer" where
  "scan_char Between c = start_char c"
| "scan_char (InWord w) c =
     (if word_char c then ([], InWord (w @ [c])) else apfst ((#) (Word w)) (start_char c))"
| "scan_char (InLit s) c = (if c = CHR ''\"'' then ([Lit s], Between) else ([], InLit (s @ [c])))"
| "scan_char Slash c =
     (if c = CHR ''/'' then ([], LineComment)
      else if c = CHR ''*'' then ([], BlockComment)
      else apfst ((#) (Punct (CHR ''/''))) (start_char c))"
| "scan_char LineComment c = ([], if c = nl then Between else LineComment)"
| "scan_char BlockComment c = ([], if c = CHR ''*'' then BlockStar else BlockComment)"
| "scan_char BlockStar c =
     ([], if c = CHR ''/'' then Between else if c = CHR ''*'' then BlockStar else BlockComment)"

fun scan :: "lexer \<Rightarrow> string \<Rightarrow> token list \<times> lexer" where
  "scan st [] = ([], st)"
| "scan st (c # s) = (case scan_char st c of (ts, st') \<Rightarrow> apfst ((@) ts) (scan st' s))"

text \<open>The tokens of a whole text; a text that ends inside a literal or a comment has none there.\<close>

definition tokens :: "string \<Rightarrow> token list" where
  "tokens s = fst (scan Between (s @ [nl]))"

lemma scan_append: "scan st (a @ b) = (case scan st a of (ts, st') \<Rightarrow> apfst ((@) ts) (scan st' b))"
  by (induction a arbitrary: st) (simp_all add: case_prod_unfold apfst_def map_prod_def)

lemma apfst_append_simps [simp]:
  "apfst ((@) []) p = p" "apfst ((@) (t # ts)) p = apfst ((#) t) (apfst ((@) ts) p)"
  by (simp_all add: apfst_def map_prod_def case_prod_unfold)

text \<open>Names: what protoc accepts as an identifier.\<close>

definition name_token :: "string \<Rightarrow> bool" where
  "name_token s \<longleftrightarrow> s \<noteq> '''' \<and> list_all word_char s"

lemma scan_word: "list_all word_char s \<Longrightarrow> scan (InWord w) s = ([], InWord (w @ s))"
  by (induction s arbitrary: w) auto

lemma scan_name: "name_token s \<Longrightarrow> scan Between s = ([], InWord s)"
  by (cases s) (auto simp: name_token_def start_char_def scan_word)

lemma scan_literal: "CHR ''\"'' \<notin> set s \<Longrightarrow> scan (InLit l) s = ([], InLit (l @ s))"
  by (induction s arbitrary: l) auto

lemma scan_blanks: "scan Between (concat (replicate n ''  '')) = ([], Between)"
proof -
  have "start_char CHR '' '' = ([], Between)" by code_simp
  then show ?thesis by (induction n) (simp_all add: scan_append)
qed

text \<open>
  A text is closed when no token runs over its end; the tokens of two closed texts are those of
  the first followed by those of the second.
\<close>

definition closed_text :: "string \<Rightarrow> bool" where
  "closed_text s \<longleftrightarrow> snd (scan Between s) = Between"

definition toks :: "string \<Rightarrow> token list" where
  "toks s = fst (scan Between s)"

lemma scan_closed: "closed_text s \<Longrightarrow> scan Between s = (toks s, Between)"
  by (simp add: closed_text_def toks_def prod_eq_iff)

lemma scan_closed_append: "closed_text a \<Longrightarrow> scan Between (a @ b) = apfst ((@) (toks a)) (scan Between b)"
  by (simp add: scan_append scan_closed)

lemma closed_append: "closed_text a \<Longrightarrow> closed_text b \<Longrightarrow> closed_text (a @ b)"
  and toks_append: "closed_text a \<Longrightarrow> toks (a @ b) = toks a @ toks b"
  by (simp_all add: closed_text_def toks_def scan_append case_prod_unfold)

lemma closed_empty [simp]: "closed_text ''''" and toks_empty [simp]: "toks '''' = []"
  by (simp_all add: closed_text_def toks_def)

lemma scan_newline: "scan Between [nl] = ([], Between)"
  by (simp add: start_char_def word_char_def nl_def)

lemma closed_newline [simp]: "closed_text [nl]" and toks_newline [simp]: "toks [nl] = []"
  by (simp_all only: closed_text_def toks_def scan_newline fst_conv snd_conv)

lemma tokens_closed: "closed_text s \<Longrightarrow> tokens s = toks s"
  by (simp only: tokens_def toks_def[symmetric] toks_append toks_newline append_Nil2)

section \<open>Readers\<close>

type_synonym 'a reader = "token list \<Rightarrow> ('a \<times> token list) option"

text \<open>The tokens of a fixed text come next.\<close>

definition expect :: "token list \<Rightarrow> token list \<Rightarrow> token list option" where
  "expect p ts = (if take (length p) ts = p then Some (drop (length p) ts) else None)"

fun read_word :: "string reader" where
  "read_word (Word w # ts) = Some (w, ts)"
| "read_word _ = None"

fun read_lit :: "string reader" where
  "read_lit (Lit s # ts) = Some (s, ts)"
| "read_lit _ = None"

lemma expect_append [simp]: "expect p (p @ ts) = Some ts"
  by (simp add: expect_def)

lemma expect_all [simp]: "expect p p = Some []"
  by (simp add: expect_def)

lemma expect_Cons: "expect (t # p) (t' # ts) = (if t' = t then expect p ts else None)"
  by (simp add: expect_def)

lemma expect_Nil [simp]: "expect [] ts = Some ts"
  by (simp add: expect_def)

lemma expect_length: "expect p ts = Some ts' \<Longrightarrow> length ts = length p + length ts'"
  unfolding expect_def by (metis append_take_drop_id length_append option.distinct(1) option.inject)

lemma read_word_length: "read_word ts = Some (w, ts') \<Longrightarrow> length ts = Suc (length ts')"
  by (cases ts rule: read_word.cases) auto

lemma read_lit_length: "read_lit ts = Some (s, ts') \<Longrightarrow> length ts = Suc (length ts')"
  by (cases ts rule: read_lit.cases) auto

lemmas reader_lengths = expect_length read_word_length read_lit_length

text \<open>
  Items up to a stop.  An item that would consume nothing is refused, so the reader terminates for
  every item reader.
\<close>

function read_until :: "(token list \<Rightarrow> token list option) \<Rightarrow> 'a reader \<Rightarrow> 'a list reader" where
  "read_until stop item ts =
     (case stop ts of
        Some ts1 \<Rightarrow> Some ([], ts1)
      | None \<Rightarrow> do {
          (x, ts1) \<leftarrow> item ts;
          if length ts1 < length ts
          then do {
            (xs, ts2) \<leftarrow> read_until stop item ts1;
            Some (x # xs, ts2)
          }
          else None
        })"
  by pat_completeness auto

termination
  by (relation "measure (\<lambda>(stop, item, ts). length ts)") auto

declare read_until.simps [simp del]

lemma read_until_length:
  assumes "\<And>ts ts'. stop ts = Some ts' \<Longrightarrow> length ts' \<le> length ts"
  shows "read_until stop item ts = Some (xs, ts') \<Longrightarrow> length ts' \<le> length ts"
proof (induction "length ts" arbitrary: ts xs rule: less_induct)
  case less
  show ?case
  proof (cases "stop ts")
    case (Some ts1)
    then show ?thesis using less.prems assms[OF Some] by (simp add: read_until.simps[of _ _ ts])
  next
    case None
    then obtain x ts1 xs' where "length ts1 < length ts" and "read_until stop item ts1 = Some (xs', ts')"
      using less.prems
      by (auto simp: read_until.simps[of _ _ ts] split: Option.bind_splits prod.splits if_splits)
    then show ?thesis using less.hyps[of ts1 xs'] by simp
  qed
qed

text \<open>Items that are written one after the other, where each is read if what follows it allows.\<close>

lemma read_until_followed:
  assumes "\<And>x us. x \<in> set xs \<Longrightarrow> follow us \<Longrightarrow> item (p x @ us) = Some (x, us)"
    and "\<And>x us. x \<in> set xs \<Longrightarrow> stop (p x @ us) = None \<and> p x \<noteq> [] \<and> follow (p x @ us)"
    and "follow ts" and "stop ts = Some ts'"
  shows "read_until stop item (concat (map p xs) @ ts) = Some (xs, ts')"
  using assms(1,2)
proof (induction xs)
  case Nil
  then show ?case using assms(4) by (simp add: read_until.simps)
next
  case (Cons x xs)
  then have rest: "read_until stop item (concat (map p xs) @ ts) = Some (xs, ts')" by simp
  have "follow (concat (map p xs) @ ts)"
    using Cons.prems(2) assms(3) by (cases xs) auto
  then have "stop (p x @ concat (map p xs) @ ts) = None" and "p x \<noteq> []"
    and "item (p x @ concat (map p xs) @ ts) = Some (x, concat (map p xs) @ ts)"
    using Cons.prems by auto
  then show ?case using rest by (subst read_until.simps) simp
qed

lemmas read_until_items = read_until_followed[where follow = "\<lambda>_. True", simplified]

section \<open>Texts with names in them\<close>

text \<open>
  The text \<open>t\<close> is closed and has the tokens \<open>ts\<close>; the line \<open>l\<close> has them with its line break.  The
  rules take a text apart at its names and literals.
\<close>

definition lexes :: "string \<Rightarrow> token list \<Rightarrow> bool" where
  "lexes t ts \<longleftrightarrow> closed_text t \<and> toks t = ts"

definition line :: "string \<Rightarrow> token list \<Rightarrow> bool" where
  "line l ts \<longleftrightarrow> lexes (l @ [nl]) ts"

definition nonword :: "string \<Rightarrow> bool" where
  "nonword s \<longleftrightarrow> s \<noteq> '''' \<and> \<not> word_char (hd s)"

lemma lexes_append: "lexes a ts \<Longrightarrow> lexes b us \<Longrightarrow> lexes (a @ b) (ts @ us)"
  by (simp add: lexes_def closed_append toks_append)

lemma lexes_scan: "lexes t ts \<longleftrightarrow> scan Between t = (ts, Between)"
  by (auto simp: lexes_def closed_text_def toks_def prod_eq_iff)

lemma scan_nonword: "nonword b \<Longrightarrow> scan (InWord w) b = apfst ((#) (Word w)) (scan Between b)"
  by (cases b) (simp_all add: nonword_def apfst_def case_prod_unfold map_prod_def)

lemma line_text: "closed_text b \<Longrightarrow> line b (toks b)"
  by (simp add: line_def lexes_def closed_append toks_append del: append_Nil2)

lemma line_append: "closed_text a \<Longrightarrow> line b ts \<Longrightarrow> line (a @ b) (toks a @ ts)"
  by (simp add: line_def lexes_def closed_append toks_append)

lemma line_word:
  assumes "name_token w" and "nonword b" and "line b ts"
  shows "line (w @ b) (Word w # ts)"
proof -
  have "nonword (b @ [nl])" using assms(2) by (simp add: nonword_def)
  then show ?thesis
    using assms(3)
    by (simp add: line_def lexes_scan scan_append[of _ w] scan_name[OF assms(1)] scan_nonword)
qed

lemma line_last_word: "name_token w \<Longrightarrow> line w [Word w]"
proof -
  assume w: "name_token w"
  have "nonword [nl]" by (simp add: nonword_def word_char_def nl_def)
  then have "scan (InWord w) [nl] = ([Word w], Between)" by (simp only: scan_nonword scan_newline) simp
  then show ?thesis by (simp add: line_def lexes_scan scan_append scan_name[OF w])
qed

lemma scan_quote: "scan Between (CHR ''\"'' # s) = scan (InLit '''') s"
proof -
  have "start_char (CHR ''\"'') = ([], InLit '''')" by code_simp
  then show ?thesis by simp
qed

lemma line_quoted:
  assumes "CHR ''\"'' \<notin> set u" and "line b ts"
  shows "line (CHR ''\"'' # u @ CHR ''\"'' # b) (Lit u # ts)"
proof -
  have "scan Between (CHR ''\"'' # u @ CHR ''\"'' # b @ [nl]) =
      (case scan (InLit '''') u of (ts, st) \<Rightarrow> apfst ((@) ts) (scan st (CHR ''\"'' # b @ [nl])))"
    by (simp only: scan_quote scan_append)
  then show ?thesis
    using assms(2) by (simp add: line_def lexes_scan scan_literal[OF assms(1)] del: scan.simps(2))
      (simp)
qed

lemma scan_comment: "nl \<notin> set s \<Longrightarrow> scan LineComment (s @ [nl]) = ([], Between)"
  by (induction s) auto

lemma line_comment:
  assumes "nl \<notin> set s"
  shows "line (''//'' @ s) []"
proof -
  have "scan Between ''//'' = ([], LineComment)" by code_simp
  then show ?thesis
    unfolding line_def lexes_scan append_assoc by (subst scan_append) (simp add: scan_comment[OF assms])
qed

lemma line_eq: "line l ts \<Longrightarrow> l = l' \<Longrightarrow> ts = ts' \<Longrightarrow> line l' ts'"
  by simp

lemma lexes_eq: "lexes l ts \<Longrightarrow> l = l' \<Longrightarrow> ts = ts' \<Longrightarrow> lexes l' ts'"
  by simp

lemma lexes_emit_Nil: "lexes (emit n []) []"
  by (simp add: lexes_def)

lemma lexes_emit_Cons: "line l ts \<Longrightarrow> lexes (emit n ls) us \<Longrightarrow> lexes (emit n (l # ls)) (ts @ us)"
proof -
  assume l: "line l ts" and ls: "lexes (emit n ls) us"
  have "lexes (concat (replicate (unat n) ''  '')) []" by (simp add: lexes_scan scan_blanks)
  from lexes_append[OF this lexes_append[OF l[unfolded line_def] ls]] l ls
  show ?thesis by (auto simp: emit_Cons line_def lexes_def)
qed

lemma lexes_concat:
  assumes "\<And>x. x \<in> set xs \<Longrightarrow> lexes (f x) (g x)"
  shows "lexes (concat (map f xs)) (concat (map g xs))"
  using assms by (induction xs) (auto intro: lexes_append simp: lexes_def[of "''''"])

end
