(* ===== verification/Router_Grammar.thy ===== *)
theory Router_Grammar
  imports Cxx_Tokens
begin

text \<open>
  The grammar of the source that the first plugin generates: the routers of the services and the
  stubs of their clients.  For each construct a datatype, the tokens it stands for and a reader;
  every reader returns what the tokens of a construct stand for and the tokens behind it.
\<close>

section \<open>Statements\<close>

text \<open>
  \<open>Bind v f as\<close> is \<open>auto v = std::bind(&Service::f, this, \<dots>)\<close> with the placeholders \<open>as\<close>;
  \<open>Make p c R v\<close> is \<open>p = std::make_unique<fabricrpc::c<R>>(v)\<close>.
\<close>

datatype cxx_stmt =
    Bind string string "string list"
  | Make string string string string

definition args_toks :: "string list \<Rightarrow> token list" where
  "args_toks as = concat (map (\<lambda>a. tokens '', std::placeholders::'' @ [Word a]) as)"

fun stmt_toks :: "cxx_stmt \<Rightarrow> token list" where
  "stmt_toks (Bind v f as) =
     tokens ''auto'' @ [Word v] @ tokens ''= std::bind(&Service::'' @ [Word f] @ tokens '', this'' @
     args_toks as @ tokens '');''"
| "stmt_toks (Make p c R v) =
     [Word p] @ tokens ''= std::make_unique<fabricrpc::'' @ [Word c] @ tokens ''<'' @ [Word R] @
     tokens ''>>('' @ [Word v] @ tokens '');''"

definition read_arg :: "string reader" where
  "read_arg ts = expect (tokens '', std::placeholders::'') ts \<bind> read_word"

text \<open>The arguments, with the end of the statement.\<close>

definition read_args :: "string list reader" where
  "read_args = read_until (expect (tokens '');'')) read_arg"

definition read_stmt :: "cxx_stmt reader" where
  "read_stmt ts =
     (case expect (tokens ''auto'') ts of
        Some ts1 \<Rightarrow> do {
          (v, ts2) \<leftarrow> read_word ts1;
          ts3 \<leftarrow> expect (tokens ''= std::bind(&Service::'') ts2;
          (f, ts4) \<leftarrow> read_word ts3;
          ts5 \<leftarrow> expect (tokens '', this'') ts4;
          (as, ts6) \<leftarrow> read_args ts5;
          Some (Bind v f as, ts6)
        }
      | None \<Rightarrow> do {
          (p, ts1) \<leftarrow> read_word ts;
          ts2 \<leftarrow> expect (tokens ''= std::make_unique<fabricrpc::'') ts1;
          (c, ts3) \<leftarrow> read_word ts2;
          ts4 \<leftarrow> expect (tokens ''<'') ts3;
          (R, ts5) \<leftarrow> read_word ts4;
          ts6 \<leftarrow> expect (tokens ''>>('') ts5;
          (v, ts7) \<leftarrow> read_word ts6;
          ts8 \<leftarrow> expect (tokens '');'') ts7;
          Some (Make p c R v, ts8)
        })"

section \<open>The chain of tests\<close>

type_synonym cxx_branch = "string \<times> cxx_stmt list"

definition branch_toks :: "cxx_branch \<Rightarrow> token list" where
  "branch_toks br = tokens ''if (url =='' @ [Lit (fst br)] @ tokens '') {'' @
     concat (map stmt_toks (snd br)) @ tokens ''}''"

definition read_stmts :: "cxx_stmt list reader" where
  "read_stmts = read_until (expect (tokens ''}'')) read_stmt"

lemma read_stmts_length: "read_stmts ts = Some (ss, ts') \<Longrightarrow> length ts' \<le> length ts"
  unfolding read_stmts_def by (rule read_until_length) (auto dest: expect_length)

text \<open>The chain up to the brace of its last \<open>else\<close>, which is there also when there is no test.\<close>

definition read_branch :: "cxx_branch reader" where
  "read_branch ts = do {
     ts1 \<leftarrow> expect (tokens ''if (url =='') ts;
     (u, ts2) \<leftarrow> read_lit ts1;
     ts3 \<leftarrow> expect (tokens '') {'') ts2;
     (ss, ts4) \<leftarrow> read_stmts ts3;
     Some ((u, ss), ts4)
   }"

fun chain_toks :: "cxx_branch list \<Rightarrow> token list" where
  "chain_toks [] = tokens ''else''"
| "chain_toks (br # brs) = branch_toks br @ tokens ''else'' @ (if brs = [] then [] else chain_toks brs)"

lemma read_branch_length: "read_branch ts = Some (br, ts') \<Longrightarrow> length ts' < length ts"
  unfolding read_branch_def
  by (auto split: option.splits Option.bind_splits prod.splits dest!: reader_lengths read_stmts_length)

function read_chain :: "cxx_branch list reader" where
  "read_chain ts = do {
     (br, ts1) \<leftarrow> read_branch ts;
     ts2 \<leftarrow> expect (tokens ''else'') ts1;
     case expect (tokens ''{'') ts2 of
       Some ts3 \<Rightarrow> Some ([br], ts3)
     | None \<Rightarrow> do {
         (brs, ts3) \<leftarrow> read_chain ts2;
         Some (br # brs, ts3)
       }
   }"
  by pat_completeness auto

termination
  by (relation "measure length") (auto dest!: read_branch_length reader_lengths)

declare read_chain.simps [simp del]

section \<open>Routers\<close>

text \<open>The member function \<open>rt_class::Service::Route\<close>, with the answer of its last \<open>else\<close>.\<close>

record cxx_router =
  rt_class :: string
  rt_branches :: "cxx_branch list"
  rt_code :: string
  rt_message :: string

definition route_params :: string where
  "route_params =
     ''::Service::Route(const std::string & url, std::unique_ptr<fabricrpc::IBeginOperation> & beginOp, '' @
     ''std::unique_ptr<fabricrpc::IEndOperation> & endOp) {''"

definition router_toks :: "cxx_router \<Rightarrow> token list" where
  "router_toks r =
     tokens ''fabricrpc::Status'' @ [Word (rt_class r)] @ tokens route_params @ chain_toks (rt_branches r) @
     tokens ''{'' @ tokens ''return fabricrpc::Status(fabricrpc::StatusCode::'' @ [Word (rt_code r)] @
     tokens '','' @ [Lit (rt_message r)] @ tokens ''+ url); } return fabricrpc::Status(); }''"

definition read_router :: "cxx_router reader" where
  "read_router ts = do {
     ts1 \<leftarrow> expect (tokens ''fabricrpc::Status'') ts;
     (c, ts2) \<leftarrow> read_word ts1;
     ts3 \<leftarrow> expect (tokens route_params) ts2;
     (brs, ts4) \<leftarrow> read_chain ts3;
     ts5 \<leftarrow> expect (tokens ''return fabricrpc::Status(fabricrpc::StatusCode::'') ts4;
     (code, ts6) \<leftarrow> read_word ts5;
     ts7 \<leftarrow> expect (tokens '','') ts6;
     (msg, ts8) \<leftarrow> read_lit ts7;
     ts9 \<leftarrow> expect (tokens ''+ url); } return fabricrpc::Status(); }'') ts8;
     Some (\<lparr>rt_class = c, rt_branches = brs, rt_code = code, rt_message = msg\<rparr>, ts9)
   }"

section \<open>Reading what was written\<close>

lemma small_toks:
  "tokens ''}'' = [Punct (CHR ''}'')]" "tokens ''{'' = [Punct (CHR ''{'')]"
  "tokens ''auto'' = [Word ''auto'']" "tokens ''else'' = [Word ''else'']"
  "tokens '');'' = [Punct (CHR '')''), Punct (CHR '';'')]"
  "tokens '', std::placeholders::'' = [Punct (CHR '',''), Word ''std'', Punct (CHR '':''), Punct (CHR '':''),
     Word ''placeholders'', Punct (CHR '':''), Punct (CHR '':'')]"
  "tokens ''if (url =='' = [Word ''if'', Punct (CHR ''(''), Word ''url'', Punct (CHR ''=''), Punct (CHR ''='')]"
  by code_simp+

lemma read_args_toks: "read_args (args_toks as @ tokens '');'' @ ts) = Some (as, ts)"
  unfolding read_args_def args_toks_def
  by (rule read_until_items) (simp_all add: read_arg_def small_toks expect_Cons)

lemma read_stmt_toks:
  assumes "case s of Bind v f as \<Rightarrow> True | Make p c R v \<Rightarrow> p \<noteq> ''auto''"
  shows "read_stmt (stmt_toks s @ ts) = Some (s, ts)"
proof (cases s)
  case (Bind v f as)
  then show ?thesis by (simp add: read_stmt_def read_args_toks)
next
  case (Make p c R v)
  then have "expect (tokens ''auto'') (stmt_toks s @ ts) = None"
    using assms by (simp add: small_toks expect_Cons)
  then show ?thesis using Make by (simp add: read_stmt_def)
qed

definition good_stmts :: "cxx_stmt list \<Rightarrow> bool" where
  "good_stmts ss \<longleftrightarrow> list_all (\<lambda>s. case s of Bind v f as \<Rightarrow> True | Make p c R v \<Rightarrow> p \<noteq> ''auto'') ss"

lemma read_stmts_toks:
  assumes "good_stmts ss"
  shows "read_stmts (concat (map stmt_toks ss) @ tokens ''}'' @ ts) = Some (ss, ts)"
proof -
  have "expect (tokens ''}'') (stmt_toks s @ us) = None \<and> stmt_toks s \<noteq> []" for s us
    by (cases s) (simp_all add: small_toks expect_Cons)
  then show ?thesis
    unfolding read_stmts_def
    by (intro read_until_items read_stmt_toks) (use assms in \<open>auto simp: good_stmts_def list_all_iff\<close>)
qed

lemma read_branch_toks: "good_stmts (snd br) \<Longrightarrow> read_branch (branch_toks br @ ts) = Some (br, ts)"
  by (simp add: read_branch_def branch_toks_def read_stmts_toks)

lemma read_chain_toks:
  assumes "list_all (\<lambda>br. good_stmts (snd br)) brs" and "brs \<noteq> []"
  shows "read_chain (chain_toks brs @ tokens ''{'' @ ts) = Some (brs, ts)"
  using assms
proof (induction brs)
  case Nil
  then show ?case by simp
next
  case (Cons br brs)
  show ?case
  proof (cases brs)
    case Nil
    then show ?thesis using Cons.prems by (subst read_chain.simps) (simp add: read_branch_toks)
  next
    case (Cons br' brs')
    have "expect (tokens ''{'') (branch_toks br' @ us) = None" for us
      by (simp add: branch_toks_def small_toks expect_Cons)
    then have "expect (tokens ''{'') (chain_toks brs @ us) = None" for us
      by (simp add: Cons)
    moreover have "read_chain (chain_toks brs @ tokens ''{'' @ ts) = Some (brs, ts)"
      using Cons.IH Cons.prems Cons by simp
    ultimately show ?thesis using Cons.prems by (subst read_chain.simps) (simp add: read_branch_toks)
  qed
qed

definition good_router :: "cxx_router \<Rightarrow> bool" where
  "good_router r \<longleftrightarrow> list_all (\<lambda>br. good_stmts (snd br)) (rt_branches r) \<and> rt_branches r \<noteq> []"

lemma read_router_toks:
  assumes "good_router r"
  shows "read_router (router_toks r @ ts) = Some (r, ts)"
  using assms
  by (simp add: read_router_def router_toks_def good_router_def read_chain_toks)

text \<open>A router without a test is no C++: the grammar has no \<open>else\<close> without an \<open>if\<close>.\<close>

lemma read_router_empty:
  assumes "rt_branches r = []"
  shows "read_router (router_toks r @ ts) = None"
proof -
  have "read_chain (tokens ''else'' @ us) = None" for us
    by (subst read_chain.simps) (simp add: read_branch_def small_toks expect_Cons)
  then show ?thesis using assms by (simp add: read_router_def router_toks_def)
qed

end
