(* ===== verification/Source_Grammar.thy ===== *)
theory Source_Grammar
  imports Router_Grammar
begin

text \<open>
  The grammar of the two files of the first plugin: member functions and their declarations, the
  service classes and client classes of the header, the stubs of the clients in the source, and
  the two namespaces of either file.
\<close>

section \<open>Member functions\<close>

text \<open>A \<open>Begin\<close> function takes the request of its type, an \<open>End\<close> function a reply of its type.\<close>

datatype member = Begin_Member string string | End_Member string string

fun member_name :: "member \<Rightarrow> string" where
  "member_name (Begin_Member f R) = f"
| "member_name (End_Member f R) = f"

definition begin_params :: string where
  "begin_params =
     ''* request, DWORD timeoutMilliseconds, IFabricAsyncOperationCallback *callback, '' @
     ''IFabricAsyncOperationContext **context)''"

fun sig_toks :: "member \<Rightarrow> token list" where
  "sig_toks (Begin_Member f R) = [Word f] @ tokens ''(const'' @ [Word R] @ tokens begin_params"
| "sig_toks (End_Member f R) =
     [Word f] @ tokens ''(IFabricAsyncOperationContext *context,'' @ [Word R] @ tokens ''* response)''"

definition read_sig :: "member reader" where
  "read_sig ts = do {
     (f, ts1) \<leftarrow> read_word ts;
     case expect (tokens ''(const'') ts1 of
       Some ts2 \<Rightarrow> do {
         (R, ts3) \<leftarrow> read_word ts2;
         ts4 \<leftarrow> expect (tokens begin_params) ts3;
         Some (Begin_Member f R, ts4)
       }
     | None \<Rightarrow> do {
         ts2 \<leftarrow> expect (tokens ''(IFabricAsyncOperationContext *context,'') ts1;
         (R, ts3) \<leftarrow> read_word ts2;
         ts4 \<leftarrow> expect (tokens ''* response)'') ts3;
         Some (End_Member f R, ts4)
       }
   }"

lemma sig_small_toks:
  "tokens ''(const'' = [Punct (CHR ''(''), Word ''const'']"
  "tokens ''(IFabricAsyncOperationContext *context,'' =
     [Punct (CHR ''(''), Word ''IFabricAsyncOperationContext'', Punct (CHR ''*''), Word ''context'', Punct (CHR '','')]"
  by code_simp+

lemma read_sig_toks [simp]: "read_sig (sig_toks d @ ts) = Some (d, ts)"
  by (cases d) (simp_all add: read_sig_def sig_small_toks expect_Cons)

section \<open>The header: service classes\<close>

text \<open>
  \<open>sc_class\<close> with its nested class \<open>Service\<close>: the full name it returns and the pure virtual
  functions it declares before \<open>Route\<close>.
\<close>

record service_class =
  sc_class :: string
  sc_full_name :: string
  sc_members :: "member list"

definition virtual_toks :: "member \<Rightarrow> token list" where
  "virtual_toks d = tokens ''virtual fabricrpc::Status'' @ sig_toks d @ tokens ''= 0;''"

definition read_virtual :: "member reader" where
  "read_virtual ts = do {
     ts1 \<leftarrow> expect (tokens ''virtual fabricrpc::Status'') ts;
     (d, ts2) \<leftarrow> read_sig ts1;
     ts3 \<leftarrow> expect (tokens ''= 0;'') ts2;
     Some (d, ts3)
   }"

definition route_declaration :: string where
  "route_declaration =
     ''virtual fabricrpc::Status Route(const std::string & url, '' @
     ''std::unique_ptr<fabricrpc::IBeginOperation> & beginOp, '' @
     ''std::unique_ptr<fabricrpc::IEndOperation> & endOp) override; }; };''"

definition service_class_toks :: "service_class \<Rightarrow> token list" where
  "service_class_toks c =
     tokens ''class'' @ [Word (sc_class c)] @
     tokens ''final { public: static constexpr char const* service_full_name() { return'' @
     [Lit (sc_full_name c)] @
     tokens ''; } class Service : public fabricrpc::MiddleWare { public: Service() {}; virtual ~Service() {};'' @
     concat (map virtual_toks (sc_members c)) @ tokens route_declaration"

definition read_service_class :: "service_class reader" where
  "read_service_class ts = do {
     ts1 \<leftarrow> expect (tokens ''class'') ts;
     (c, ts2) \<leftarrow> read_word ts1;
     ts3 \<leftarrow> expect (tokens ''final { public: static constexpr char const* service_full_name() { return'') ts2;
     (n, ts4) \<leftarrow> read_lit ts3;
     ts5 \<leftarrow> expect (tokens ''; } class Service : public fabricrpc::MiddleWare { public: Service() {}; virtual ~Service() {};'') ts4;
     (ds, ts6) \<leftarrow> read_until (expect (tokens route_declaration)) read_virtual ts5;
     Some (\<lparr>sc_class = c, sc_full_name = n, sc_members = ds\<rparr>, ts6)
   }"

lemma route_declaration_toks:
  "tokens route_declaration = tokens ''virtual fabricrpc::Status'' @ [Word ''Route''] @
     drop (length (tokens ''virtual fabricrpc::Status'') + 1) (tokens route_declaration)"
  by code_simp

lemma expect_prefix: "expect (p @ q) (p @ ts) = expect q ts"
  by (simp add: expect_def)

lemma read_service_class_toks:
  assumes "list_all (\<lambda>d. member_name d \<noteq> ''Route'') (sc_members c)"
  shows "read_service_class (service_class_toks c @ ts) = Some (c, ts)"
proof -
  have stop: "expect (tokens route_declaration) (virtual_toks d @ us) = None \<and> virtual_toks d \<noteq> []"
    if "d \<in> set (sc_members c)" for d us
  proof -
    have "member_name d \<noteq> ''Route''" using assms that by (simp add: list_all_iff)
    then have "expect ([Word ''Route''] @ r) (sig_toks d @ vs) = None" for r vs
      by (cases d) (simp_all add: expect_Cons)
    then have "expect (tokens route_declaration) (virtual_toks d @ us) = None"
      by (subst route_declaration_toks) (simp only: virtual_toks_def append_assoc expect_prefix)
    moreover have "virtual_toks d \<noteq> []" by (cases d) (simp_all add: virtual_toks_def)
    ultimately show ?thesis ..
  qed
  have "read_until (expect (tokens route_declaration)) read_virtual
      (concat (map virtual_toks (sc_members c)) @ tokens route_declaration @ ts) = Some (sc_members c, ts)"
    by (rule read_until_items) (use stop in \<open>simp_all add: read_virtual_def virtual_toks_def\<close>)
  then show ?thesis by (simp add: read_service_class_def service_class_toks_def)
qed

section \<open>The header: client classes\<close>

record client_class =
  cc_class :: string
  cc_constructor :: string
  cc_members :: "member list"

definition declaration_toks :: "member \<Rightarrow> token list" where
  "declaration_toks d = tokens ''fabricrpc::Status'' @ sig_toks d @ tokens '';''"

definition read_declaration :: "member reader" where
  "read_declaration ts = do {
     ts1 \<leftarrow> expect (tokens ''fabricrpc::Status'') ts;
     (d, ts2) \<leftarrow> read_sig ts1;
     ts3 \<leftarrow> expect (tokens '';'') ts2;
     Some (d, ts3)
   }"

definition client_fields :: string where
  "client_fields =
     ''private: CComPtr<IFabricTransportClient> client_; '' @
     ''std::shared_ptr<fabricrpc::IFabricRPCHeaderProtoConverter> cv_; };''"

definition client_class_toks :: "client_class \<Rightarrow> token list" where
  "client_class_toks c =
     tokens ''class'' @ [Word (cc_class c)] @ tokens ''{ public:'' @ [Word (cc_constructor c)] @
     tokens ''(IFabricTransportClient * client);'' @
     concat (map declaration_toks (cc_members c)) @ tokens client_fields"

definition read_client_class :: "client_class reader" where
  "read_client_class ts = do {
     ts1 \<leftarrow> expect (tokens ''class'') ts;
     (c, ts2) \<leftarrow> read_word ts1;
     ts3 \<leftarrow> expect (tokens ''{ public:'') ts2;
     (k, ts4) \<leftarrow> read_word ts3;
     ts5 \<leftarrow> expect (tokens ''(IFabricTransportClient * client);'') ts4;
     (ds, ts6) \<leftarrow> read_until (expect (tokens client_fields)) read_declaration ts5;
     Some (\<lparr>cc_class = c, cc_constructor = k, cc_members = ds\<rparr>, ts6)
   }"

lemma client_fields_toks:
  "tokens client_fields = Word ''private'' # tl (tokens client_fields)"
  "tokens ''fabricrpc::Status'' = Word ''fabricrpc'' # tl (tokens ''fabricrpc::Status'')"
  by code_simp+

lemma read_client_class_toks [simp]: "read_client_class (client_class_toks c @ ts) = Some (c, ts)"
proof -
  have stop: "expect (tokens client_fields) (declaration_toks d @ us) = None \<and> declaration_toks d \<noteq> []" for d us
    unfolding declaration_toks_def
    by (subst client_fields_toks(1), subst (1 2) client_fields_toks(2)) (simp add: expect_Cons)
  have "read_until (expect (tokens client_fields)) read_declaration
      (concat (map declaration_toks (cc_members c)) @ tokens client_fields @ ts) = Some (cc_members c, ts)"
    by (rule read_until_items) (use stop in \<open>simp_all add: read_declaration_def declaration_toks_def\<close>)
  then show ?thesis by (simp add: read_client_class_def client_class_toks_def)
qed

section \<open>The source: clients\<close>

text \<open>
  A stub is a member function of a client class with its body: a call of \<open>ExecClientBegin\<close> with a
  URL, or a call of \<open>ExecClientEnd\<close>.
\<close>

datatype stub_body = Exec_Begin string | Exec_End

record cxx_stub =
  st_class :: string
  st_member :: member
  st_body :: stub_body

fun body_toks :: "stub_body \<Rightarrow> token list" where
  "body_toks (Exec_Begin u) =
     tokens ''{ return fabricrpc::ExecClientBegin(client_, cv_, timeoutMilliseconds,'' @ [Lit u] @
     tokens '', request, callback, context);}''"
| "body_toks Exec_End = tokens ''{ return fabricrpc::ExecClientEnd(client_, cv_, context, response);}''"

definition stub_toks :: "cxx_stub \<Rightarrow> token list" where
  "stub_toks b = tokens ''fabricrpc::Status'' @ [Word (st_class b)] @ tokens ''::'' @
     sig_toks (st_member b) @ body_toks (st_body b)"

definition read_body :: "stub_body reader" where
  "read_body ts =
     (case expect (tokens ''{ return fabricrpc::ExecClientEnd(client_, cv_, context, response);}'') ts of
        Some ts1 \<Rightarrow> Some (Exec_End, ts1)
      | None \<Rightarrow> do {
          ts1 \<leftarrow> expect (tokens ''{ return fabricrpc::ExecClientBegin(client_, cv_, timeoutMilliseconds,'') ts;
          (u, ts2) \<leftarrow> read_lit ts1;
          ts3 \<leftarrow> expect (tokens '', request, callback, context);}'') ts2;
          Some (Exec_Begin u, ts3)
        })"

definition read_stub :: "cxx_stub reader" where
  "read_stub ts = do {
     ts1 \<leftarrow> expect (tokens ''fabricrpc::Status'') ts;
     (c, ts2) \<leftarrow> read_word ts1;
     ts3 \<leftarrow> expect (tokens ''::'') ts2;
     (d, ts4) \<leftarrow> read_sig ts3;
     (b, ts5) \<leftarrow> read_body ts4;
     Some (\<lparr>st_class = c, st_member = d, st_body = b\<rparr>, ts5)
   }"

lemma exec_end_toks:
  "tokens ''{ return fabricrpc::ExecClientEnd(client_, cv_, context, response);}'' =
     tokens ''{ return fabricrpc::'' @ Word ''ExecClientEnd'' #
       tokens ''(client_, cv_, context, response);}''"
  "tokens ''{ return fabricrpc::ExecClientBegin(client_, cv_, timeoutMilliseconds,'' =
     tokens ''{ return fabricrpc::'' @ Word ''ExecClientBegin'' # tokens ''(client_, cv_, timeoutMilliseconds,''"
  by code_simp+

lemma read_body_toks [simp]: "read_body (body_toks b @ ts) = Some (b, ts)"
proof (cases b)
  case (Exec_Begin u)
  have "expect (tokens ''{ return fabricrpc::ExecClientEnd(client_, cv_, context, response);}'')
      (tokens ''{ return fabricrpc::ExecClientBegin(client_, cv_, timeoutMilliseconds,'' @ us) = None" for us
    unfolding exec_end_toks append_assoc by (simp add: expect_prefix expect_Cons)
  then show ?thesis using Exec_Begin by (simp add: read_body_def)
qed (simp add: read_body_def)

lemma read_stub_toks [simp]: "read_stub (stub_toks b @ ts) = Some (b, ts)"
  by (simp add: read_stub_def stub_toks_def)

text \<open>A client: its constructor and its stubs, up to the next client or the end of the namespace.\<close>

record cxx_client =
  cl_class :: string
  cl_constructor :: string
  cl_stubs :: "cxx_stub list"

definition client_alias :: string where
  "client_alias =
     ''using '' @
     ''privateconverter = fabricrpc::FabricRPCHeaderProtoConverter<fabricrpc::request_header, fabricrpc::reply_header>;''"

definition client_constructor :: string where
  "client_constructor =
     ''(IFabricTransportClient *client) : client_(), cv_(std::make_shared<privateconverter>()) {'' @
     ''  client->AddRef(); client_.Attach(client); }''"

definition client_toks :: "cxx_client \<Rightarrow> token list" where
  "client_toks c =
     tokens client_alias @ [Word (cl_class c)] @ tokens ''::'' @ [Word (cl_constructor c)] @
     tokens client_constructor @ concat (map stub_toks (cl_stubs c))"

text \<open>What may follow a stub that is the last of its client.\<close>

definition stubs_end :: "token list \<Rightarrow> token list option" where
  "stubs_end ts =
     (if expect (tokens ''fabricrpc'') ts = None then Some ts else None)"

definition read_client :: "cxx_client reader" where
  "read_client ts = do {
     ts1 \<leftarrow> expect (tokens client_alias) ts;
     (c, ts2) \<leftarrow> read_word ts1;
     ts3 \<leftarrow> expect (tokens ''::'') ts2;
     (k, ts4) \<leftarrow> read_word ts3;
     ts5 \<leftarrow> expect (tokens client_constructor) ts4;
     (bs, ts6) \<leftarrow> read_until stubs_end read_stub ts5;
     Some (\<lparr>cl_class = c, cl_constructor = k, cl_stubs = bs\<rparr>, ts6)
   }"

lemma read_client_toks:
  assumes "stubs_end ts = Some ts"
  shows "read_client (client_toks c @ ts) = Some (c, ts)"
proof -
  have "tokens ''fabricrpc'' = [Word ''fabricrpc'']" by code_simp
  then have "stubs_end (stub_toks b @ us) = None \<and> stub_toks b \<noteq> []" for b us
    unfolding stub_toks_def by (subst (1 2) client_fields_toks(2)) (simp add: stubs_end_def expect_Cons)
  then have "read_until stubs_end read_stub (concat (map stub_toks (cl_stubs c)) @ ts) = Some (cl_stubs c, ts)"
    by (intro read_until_items) (use assms in simp_all)
  then show ?thesis by (simp add: read_client_def client_toks_def)
qed

section \<open>The two files\<close>

text \<open>Either file is its preprocessor lines and two namespaces, the services and their clients.\<close>

record cxx_header =
  hd_namespace :: string
  hd_services :: "service_class list"
  hd_client_namespace :: string
  hd_clients :: "client_class list"

record cxx_source =
  src_namespace :: string
  src_routers :: "cxx_router list"
  src_client_namespace :: string
  src_clients :: "cxx_client list"

definition create_declaration :: string where
  "create_declaration =
     ''void '' @
     ''CreateFabricRPCRequestHandler(const std::vector<std::shared_ptr<fabricrpc::MiddleWare>> & svcList, '' @
     ''IFabricTransportMessageHandler ** handler); }''"

definition create_definition :: string where
  "create_definition =
     ''void '' @
     ''CreateFabricRPCRequestHandler(const std::vector<std::shared_ptr<fabricrpc::MiddleWare>> & svcList,'' @
     ''IFabricTransportMessageHandler **handler) {'' @
     ''using privateconverter = fabricrpc::FabricRPCHeaderProtoConverter<fabricrpc::request_header, fabricrpc::reply_header>;'' @
     ''std::shared_ptr<fabricrpc::IFabricRPCHeaderProtoConverter> cv = std::make_shared<privateconverter>();'' @
     ''CComPtr<CComObjectNoLock<fabricrpc::FRPCRequestHandler>> msgHandlerPtr('' @
     ''new CComObjectNoLock<fabricrpc::FRPCRequestHandler>());'' @
     ''msgHandlerPtr->Initialize(svcList, cv); *handler = msgHandlerPtr.Detach(); } }''"

definition header_toks :: "cxx_header \<Rightarrow> token list" where
  "header_toks h =
     tokens ''namespace'' @ [Word (hd_namespace h)] @ tokens ''{'' @
     concat (map service_class_toks (hd_services h)) @ tokens create_declaration @
     tokens ''namespace'' @ [Word (hd_client_namespace h)] @ tokens ''{'' @
     concat (map client_class_toks (hd_clients h)) @ tokens ''}''"

definition source_toks :: "cxx_source \<Rightarrow> token list" where
  "source_toks s =
     tokens ''namespace'' @ [Word (src_namespace s)] @ tokens ''{'' @
     concat (map router_toks (src_routers s)) @ tokens create_definition @
     tokens ''namespace'' @ [Word (src_client_namespace s)] @ tokens ''{'' @
     concat (map client_toks (src_clients s)) @ tokens ''}''"

definition skip_preprocessor :: "token list \<Rightarrow> token list" where
  "skip_preprocessor = dropWhile (\<lambda>t. t \<noteq> Word ''namespace'')"

definition read_namespace :: "string reader" where
  "read_namespace ts = do {
     ts1 \<leftarrow> expect (tokens ''namespace'') ts;
     (ns, ts2) \<leftarrow> read_word ts1;
     ts3 \<leftarrow> expect (tokens ''{'') ts2;
     Some (ns, ts3)
   }"

definition read_header :: "string \<Rightarrow> cxx_header option" where
  "read_header text = do {
     (ns, ts1) \<leftarrow> read_namespace (skip_preprocessor (tokens text));
     (cs, ts2) \<leftarrow> read_until (expect (tokens create_declaration)) read_service_class ts1;
     (ns', ts3) \<leftarrow> read_namespace ts2;
     (ds, ts4) \<leftarrow> read_until (expect (tokens ''}'')) read_client_class ts3;
     if ts4 = []
     then Some \<lparr>hd_namespace = ns, hd_services = cs, hd_client_namespace = ns', hd_clients = ds\<rparr>
     else None
   }"

definition read_source :: "string \<Rightarrow> cxx_source option" where
  "read_source text = do {
     (ns, ts1) \<leftarrow> read_namespace (skip_preprocessor (tokens text));
     (rs, ts2) \<leftarrow> read_until (expect (tokens create_definition)) read_router ts1;
     (ns', ts3) \<leftarrow> read_namespace ts2;
     (cs, ts4) \<leftarrow> read_until (expect (tokens ''}'')) read_client ts3;
     if ts4 = []
     then Some \<lparr>src_namespace = ns, src_routers = rs, src_client_namespace = ns', src_clients = cs\<rparr>
     else None
   }"

lemma read_namespace_toks [simp]:
  "read_namespace (tokens ''namespace'' @ Word ns # tokens ''{'' @ ts) = Some (ns, ts)"
  by (simp add: read_namespace_def)

lemma expect_differs:
  assumes "p \<noteq> []" and "us \<noteq> []" and "hd us \<noteq> hd p"
  shows "expect p (us @ ts) = None"
  using assms by (cases p; cases us) (simp_all add: expect_Cons)

lemma expect_Word: "hd us \<noteq> t \<Longrightarrow> us \<noteq> [] \<Longrightarrow> expect (t # p) (us @ ts) = None"
  by (cases us) (simp_all add: expect_Cons)

lemma tokens_append: "closed_text a \<Longrightarrow> tokens (a @ b) = toks a @ tokens b"
  by (simp add: tokens_def toks_def[symmetric] toks_append)

lemma tokens_first_word:
  "tokens (''void '' @ t) = Word ''void'' # tokens t" "tokens (''using '' @ t) = Word ''using'' # tokens t"
proof -
  have "closed_text ''void ''" "toks ''void '' = [Word ''void'']"
    and "closed_text ''using ''" "toks ''using '' = [Word ''using'']"
    by code_simp+
  then show "tokens (''void '' @ t) = Word ''void'' # tokens t"
    and "tokens (''using '' @ t) = Word ''using'' # tokens t"
    using tokens_append[of "''void ''" t] tokens_append[of "''using ''" t] by simp_all
qed

lemma head_toks:
  "hd (tokens create_declaration) = Word ''void''" "tokens create_declaration \<noteq> []"
  "hd (tokens create_definition) = Word ''void''" "tokens create_definition \<noteq> []"
  "hd (tokens client_alias) = Word ''using''" "tokens client_alias \<noteq> []"
  unfolding create_declaration_def create_definition_def client_alias_def tokens_first_word
  by simp_all

lemma more_head_toks:
  "tokens ''class'' = [Word ''class'']" "tokens ''namespace'' = [Word ''namespace'']"
  "hd (tokens ''fabricrpc::Status'') = Word ''fabricrpc''" "tokens ''fabricrpc::Status'' \<noteq> []"
  "tokens ''fabricrpc'' = [Word ''fabricrpc'']"
  by code_simp+

lemma item_heads:
  "service_class_toks c \<noteq> []" "hd (service_class_toks c) = Word ''class''"
  "client_class_toks d \<noteq> []" "hd (client_class_toks d) = Word ''class''"
  "router_toks r \<noteq> []" "hd (router_toks r) = Word ''fabricrpc''"
  "client_toks k \<noteq> []" "hd (client_toks k) = Word ''using''"
  by (simp_all add: service_class_toks_def client_class_toks_def router_toks_def client_toks_def head_toks
      more_head_toks)

text \<open>Headers and sources are read back, whatever stands before the first namespace.\<close>

lemma skip_preprocessor_append:
  assumes "Word ''namespace'' \<notin> set ts"
  shows "skip_preprocessor (ts @ tokens ''namespace'' @ us) = tokens ''namespace'' @ us"
  using assms by (induction ts) (auto simp: skip_preprocessor_def more_head_toks)

lemma read_header_toks:
  assumes "tokens text = pre @ header_toks h" and "Word ''namespace'' \<notin> set pre"
    and "list_all (\<lambda>c. list_all (\<lambda>d. member_name d \<noteq> ''Route'') (sc_members c)) (hd_services h)"
  shows "read_header text = Some h"
proof -
  have services: "read_until (expect (tokens create_declaration)) read_service_class
      (concat (map service_class_toks (hd_services h)) @ tokens create_declaration @ ts) =
      Some (hd_services h, ts)" for ts
    by (rule read_until_items)
      (use assms(3) in \<open>auto simp: list_all_iff item_heads head_toks
        intro!: read_service_class_toks expect_differs\<close>)
  have clients: "read_until (expect (tokens ''}'')) read_client_class
      (concat (map client_class_toks (hd_clients h)) @ tokens ''}'') = Some (hd_clients h, [])"
    by (rule read_until_items) (auto simp: item_heads small_toks intro!: expect_Word)
  have "skip_preprocessor (tokens text) = header_toks h"
    unfolding assms(1) header_toks_def by (rule skip_preprocessor_append[OF assms(2)])
  then show ?thesis by (simp add: read_header_def header_toks_def services clients)
qed

lemma read_source_toks:
  assumes "tokens text = pre @ source_toks s" and "Word ''namespace'' \<notin> set pre"
    and "list_all good_router (src_routers s)"
  shows "read_source text = Some s"
proof -
  have routers: "read_until (expect (tokens create_definition)) read_router
      (concat (map router_toks (src_routers s)) @ tokens create_definition @ ts) =
      Some (src_routers s, ts)" for ts
    by (rule read_until_items)
      (use assms(3) in \<open>auto simp: list_all_iff item_heads head_toks
        intro!: read_router_toks expect_differs\<close>)
  have ends: "stubs_end ts = Some ts" if "ts = client_toks c @ us \<or> ts = tokens ''}''" for ts c us
    using that
    by (auto simp: stubs_end_def more_head_toks small_toks expect_Cons item_heads intro!: expect_Word)
  have clients: "read_until (expect (tokens ''}'')) read_client
      (concat (map client_toks (src_clients s)) @ tokens ''}'') = Some (src_clients s, [])"
    by (rule read_until_followed[where follow = "\<lambda>ts. stubs_end ts = Some ts"])
      (use ends in \<open>auto simp: item_heads small_toks intro!: expect_Word read_client_toks\<close>)
  have "skip_preprocessor (tokens text) = source_toks s"
    unfolding assms(1) source_toks_def by (rule skip_preprocessor_append[OF assms(2)])
  then show ?thesis by (simp add: read_source_def source_toks_def routers clients)
qed

text \<open>A source with a router without tests is refused.\<close>

lemma read_until_stuck:
  assumes "\<And>us. item (p x @ us) = None" and "\<And>us. stop (p x @ us) = None"
    and "\<And>y us. y \<in> set ys \<Longrightarrow> item (p y @ us) = Some (y, us)"
    and "\<And>y us. y \<in> set ys \<Longrightarrow> stop (p y @ us) = None \<and> p y \<noteq> []"
  shows "read_until stop item (concat (map p (ys @ x # zs)) @ ts) = None"
  using assms(3,4)
proof (induction ys)
  case Nil
  then show ?case using assms(1,2) by (subst read_until.simps) simp
next
  case (Cons y ys)
  then show ?case by (subst read_until.simps) (simp del: read_until.simps)
qed

lemma read_source_stuck:
  assumes "tokens text = pre @ source_toks s" and "Word ''namespace'' \<notin> set pre"
    and "list_all (\<lambda>r. list_all (\<lambda>br. good_stmts (snd br)) (rt_branches r)) (src_routers s)"
    and "\<not> list_all good_router (src_routers s)"
  shows "read_source text = None"
proof -
  define empty where "empty r \<longleftrightarrow> rt_branches r = []" for r :: cxx_router
  obtain ys r zs where split: "src_routers s = ys @ r # zs" and r: "empty r"
      and ys: "\<forall>y \<in> set ys. \<not> empty y"
    using assms(3,4) split_list_first_prop[of "src_routers s" empty]
    by (auto simp: list_all_iff good_router_def empty_def)
  have "good_router y" if "y \<in> set ys" for y
    using that ys assms(3) by (auto simp: split good_router_def empty_def list_all_iff)
  then have "read_until (expect (tokens create_definition)) read_router
      (concat (map router_toks (src_routers s)) @ ts) = None" for ts
    unfolding split
    by (intro read_until_stuck)
      (use r in \<open>auto simp: item_heads head_toks empty_def read_router_empty
        intro!: read_router_toks expect_differs\<close>)
  moreover have "skip_preprocessor (tokens text) = source_toks s"
    unfolding assms(1) source_toks_def by (rule skip_preprocessor_append[OF assms(2)])
  ultimately show ?thesis by (simp add: read_source_def source_toks_def)
qed

end
