(* ===== verification/Generated_Program.thy ===== *)
theory Generated_Program
  imports Source_Grammar Generator_Properties
begin

text \<open>
  What the code that the first plugin generates does.  The files of a proto file are read with the
  grammar of theory \<open>Source_Grammar\<close>, the class definitions are checked against the declarations,
  and the body of \<open>Route\<close> is executed on a URL; the result is compared with the router of theory
  \<open>Operation\<close>, on which the model of the runtime library rests.
\<close>

section \<open>Proto files\<close>

text \<open>
  The names of a proto file as protoc accepts them; the package is one identifier or absent,
  because a dotted one is no namespace name.
\<close>

definition proto_method :: "method_descriptor \<Rightarrow> bool" where
  "proto_method m \<longleftrightarrow> name_token (md_name m) \<and> name_token (md_input m) \<and> name_token (md_output m)"

definition proto_service :: "service_descriptor \<Rightarrow> bool" where
  "proto_service s \<longleftrightarrow>
     name_token (sd_name s) \<and> list_all proto_method (sd_methods s) \<and> distinct (map md_name (sd_methods s))"

definition proto_file :: "file_descriptor \<Rightarrow> bool" where
  "proto_file file \<longleftrightarrow>
     good_name (fd_name file) \<and> CHR ''\"'' \<notin> set (fd_name file) \<and>
     (fd_package file = '''' \<or> name_token (fd_package file)) \<and>
     list_all proto_service (fd_services file) \<and> distinct (map sd_name (fd_services file))"

lemma word_char_cases: "word_char c \<Longrightarrow> c \<noteq> nl \<and> c \<noteq> CHR ''$'' \<and> c \<noteq> CHR ''\"''"
  by (auto simp: word_char_def nl_def)

lemma name_token_good: "name_token s \<Longrightarrow> good_name s \<and> CHR ''\"'' \<notin> set s"
  by (auto simp: name_token_def good_name_def no_dollar_def one_line_def list_all_iff dest: word_char_cases)

lemma proto_good:
  "proto_method m \<Longrightarrow> good_method m" "proto_service s \<Longrightarrow> good_service s" "proto_file file \<Longrightarrow> good_file file"
proof -
  have m: "proto_method m \<Longrightarrow> good_method m" for m
    by (simp add: proto_method_def good_method_def name_token_good)
  have s: "proto_service s \<Longrightarrow> good_service s" for s
    using m by (auto simp: proto_service_def good_service_def name_token_good list_all_iff)
  have "good_name ''''" by (simp add: good_name_def no_dollar_def)
  then have "proto_file file \<Longrightarrow> good_file file"
    using s by (auto simp: proto_file_def good_file_def name_token_good list_all_iff)
  with m s show "proto_method m \<Longrightarrow> good_method m" "proto_service s \<Longrightarrow> good_service s"
    "proto_file file \<Longrightarrow> good_file file" by blast+
qed

lemma proto_url:
  assumes "proto_file file" and "proto_service s" and "proto_method m"
  shows "CHR ''\"'' \<notin> set (method_url (fd_package file) (sd_name s) (md_name m))"
  using assms by (auto simp: proto_file_def proto_service_def proto_method_def method_url_def package_prefix_def
      dest: name_token_good)

section \<open>What a proto file is translated to\<close>

definition method_stmts :: "method_descriptor \<Rightarrow> cxx_stmt list" where
  "method_stmts m =
     [Bind ''bo'' (''Begin'' @ md_name m) [''_1'', ''_2'', ''_3'', ''_4''],
      Bind ''eo'' (''End'' @ md_name m) [''_1'', ''_2''],
      Make ''beginOp'' ''BeginOperation'' (md_input m) ''bo'',
      Make ''endOp'' ''EndOperation'' (md_output m) ''eo'']"

definition router_of :: "file_descriptor \<Rightarrow> service_descriptor \<Rightarrow> cxx_router" where
  "router_of file s =
     \<lparr>rt_class = sd_name s,
      rt_branches =
        map (\<lambda>m. (method_url (fd_package file) (sd_name s) (md_name m), method_stmts m)) (sd_methods s),
      rt_code = ''NOT_FOUND'', rt_message = ''method not found: ''\<rparr>"

definition method_members :: "method_descriptor \<Rightarrow> member list" where
  "method_members m =
     [Begin_Member (''Begin'' @ md_name m) (md_input m), End_Member (''End'' @ md_name m) (md_output m)]"

definition members_of :: "service_descriptor \<Rightarrow> member list" where
  "members_of s = concat (map method_members (filter no_streaming (sd_methods s)))"

definition service_class_of :: "file_descriptor \<Rightarrow> service_descriptor \<Rightarrow> service_class" where
  "service_class_of file s =
     \<lparr>sc_class = sd_name s, sc_full_name = package_prefix (fd_package file) @ sd_name s,
      sc_members = members_of s\<rparr>"

definition client_class_of :: "service_descriptor \<Rightarrow> client_class" where
  "client_class_of s =
     \<lparr>cc_class = sd_name s @ ''Client'', cc_constructor = sd_name s @ ''Client'', cc_members = members_of s\<rparr>"

definition method_stubs :: "file_descriptor \<Rightarrow> service_descriptor \<Rightarrow> method_descriptor \<Rightarrow> cxx_stub list" where
  "method_stubs file s m =
     [\<lparr>st_class = sd_name s @ ''Client'', st_member = Begin_Member (''Begin'' @ md_name m) (md_input m),
       st_body = Exec_Begin (method_url (fd_package file) (sd_name s) (md_name m))\<rparr>,
      \<lparr>st_class = sd_name s @ ''Client'', st_member = End_Member (''End'' @ md_name m) (md_output m),
       st_body = Exec_End\<rparr>]"

definition client_of :: "file_descriptor \<Rightarrow> service_descriptor \<Rightarrow> cxx_client" where
  "client_of file s =
     \<lparr>cl_class = sd_name s @ ''Client'', cl_constructor = sd_name s @ ''Client'',
      cl_stubs = concat (map (method_stubs file s) (filter no_streaming (sd_methods s)))\<rparr>"

definition header_of :: "file_descriptor \<Rightarrow> cxx_header" where
  "header_of file =
     \<lparr>hd_namespace = namespace_of ''fabricrpc'' file,
      hd_services = map (service_class_of file) (fd_services file),
      hd_client_namespace = namespace_of ''fabricrpc'' file,
      hd_clients = map client_class_of (fd_services file)\<rparr>"

definition source_of :: "file_descriptor \<Rightarrow> cxx_source" where
  "source_of file =
     \<lparr>src_namespace = namespace_of ''fabricrpc'' file,
      src_routers = map (router_of file) (fd_services file),
      src_client_namespace = namespace_of ''fabricrpc'' file,
      src_clients = map (client_of file) (fd_services file)\<rparr>"

section \<open>The generated text has these tokens\<close>

lemma nonwords:
  "nonword '', this, std::placeholders::_1,''" "nonword ''>>(bo);''" "nonword ''>>(eo);''" "nonword '') {''"
  by code_simp+

lemma name_token_prefix: "name_token m \<Longrightarrow> list_all word_char p \<Longrightarrow> name_token (p @ m)"
  by (simp add: name_token_def)

lemma begin_end_names:
  "name_token m \<Longrightarrow> name_token (''Begin'' @ m)" "name_token m \<Longrightarrow> name_token (''End'' @ m)"
proof -
  have "list_all word_char ''Begin''" and "list_all word_char ''End''" by code_simp+
  then show "name_token m \<Longrightarrow> name_token (''Begin'' @ m)" "name_token m \<Longrightarrow> name_token (''End'' @ m)"
    using name_token_prefix by blast+
qed

lemma line_around:
  assumes "closed_text a" and "name_token w" and "nonword b" and "closed_text b"
  shows "line (a @ w @ b) (toks a @ Word w # toks b)"
  using assms by (intro line_append line_word line_text)

lemma lexes_emit_line: "line l ts \<Longrightarrow> lexes (emit n [l]) ts"
  using lexes_emit_Cons[OF _ lexes_emit_Nil] by fastforce

lemma lexes_bind_begin:
  assumes "name_token m"
  shows "lexes (emit n [''auto bo = std::bind(&Service::Begin'' @ m @ '', this, std::placeholders::_1,'',
      ''              std::placeholders::_2, std::placeholders::_3, std::placeholders::_4);''])
    (stmt_toks (Bind ''bo'' (''Begin'' @ m) [''_1'', ''_2'', ''_3'', ''_4'']))"
proof -
  have c: "closed_text ''auto bo = std::bind(&Service::''" "closed_text '', this, std::placeholders::_1,''"
    "closed_text ''              std::placeholders::_2, std::placeholders::_3, std::placeholders::_4);''"
    by code_simp+
  have e: "toks ''auto bo = std::bind(&Service::'' = tokens ''auto'' @ Word ''bo'' # tokens ''= std::bind(&Service::''"
    "toks '', this, std::placeholders::_1,'' @
      toks ''              std::placeholders::_2, std::placeholders::_3, std::placeholders::_4);'' =
      tokens '', this'' @ args_toks [''_1'', ''_2'', ''_3'', ''_4''] @ tokens '');''"
    by code_simp+
  from lexes_emit_Cons[OF line_around[OF c(1) begin_end_names(1)[OF assms] nonwords(1) c(2)]
      lexes_emit_line[OF line_text[OF c(3)]], of n]
  show ?thesis by (rule lexes_eq) (simp_all add: e del: append_assoc, simp add: e(2))
qed

lemma lexes_bind_end:
  assumes "name_token m"
  shows "lexes (emit n [''auto eo = std::bind(&Service::End'' @ m @ '', this, std::placeholders::_1,'',
      ''              std::placeholders::_2);''])
    (stmt_toks (Bind ''eo'' (''End'' @ m) [''_1'', ''_2'']))"
proof -
  have c: "closed_text ''auto eo = std::bind(&Service::''" "closed_text '', this, std::placeholders::_1,''"
    "closed_text ''              std::placeholders::_2);''"
    by code_simp+
  have e: "toks ''auto eo = std::bind(&Service::'' = tokens ''auto'' @ Word ''eo'' # tokens ''= std::bind(&Service::''"
    "toks '', this, std::placeholders::_1,'' @ toks ''              std::placeholders::_2);'' =
      tokens '', this'' @ args_toks [''_1'', ''_2''] @ tokens '');''"
    by code_simp+
  from lexes_emit_Cons[OF line_around[OF c(1) begin_end_names(2)[OF assms] nonwords(1) c(2)]
      lexes_emit_line[OF line_text[OF c(3)]], of n]
  show ?thesis by (rule lexes_eq) (simp_all add: e)
qed

lemma lexes_make:
  assumes "name_token R"
  shows "line (''beginOp = std::make_unique<fabricrpc::BeginOperation<'' @ R @ ''>>(bo);'')
      (stmt_toks (Make ''beginOp'' ''BeginOperation'' R ''bo''))"
    and "line (''endOp = std::make_unique<fabricrpc::EndOperation<'' @ R @ ''>>(eo);'')
      (stmt_toks (Make ''endOp'' ''EndOperation'' R ''eo''))"
proof -
  have c: "closed_text ''beginOp = std::make_unique<fabricrpc::BeginOperation<''" "closed_text ''>>(bo);''"
    "closed_text ''endOp = std::make_unique<fabricrpc::EndOperation<''" "closed_text ''>>(eo);''"
    by code_simp+
  have e: "toks ''beginOp = std::make_unique<fabricrpc::BeginOperation<'' =
      Word ''beginOp'' # tokens ''= std::make_unique<fabricrpc::'' @ Word ''BeginOperation'' # tokens ''<''"
    "toks ''endOp = std::make_unique<fabricrpc::EndOperation<'' =
      Word ''endOp'' # tokens ''= std::make_unique<fabricrpc::'' @ Word ''EndOperation'' # tokens ''<''"
    "toks ''>>(bo);'' = tokens ''>>('' @ Word ''bo'' # tokens '');''"
    "toks ''>>(eo);'' = tokens ''>>('' @ Word ''eo'' # tokens '');''"
    by code_simp+
  show "line (''beginOp = std::make_unique<fabricrpc::BeginOperation<'' @ R @ ''>>(bo);'')
      (stmt_toks (Make ''beginOp'' ''BeginOperation'' R ''bo''))"
    by (rule line_eq[OF line_around[OF c(1) assms nonwords(2) c(2)]]) (simp_all add: e)
  show "line (''endOp = std::make_unique<fabricrpc::EndOperation<'' @ R @ ''>>(eo);'')
      (stmt_toks (Make ''endOp'' ''EndOperation'' R ''eo''))"
    by (rule line_eq[OF line_around[OF c(3) assms nonwords(3) c(4)]]) (simp_all add: e)
qed

lemma line_url_test:
  assumes "CHR ''\"'' \<notin> set u"
  shows "line (url_test u) (tokens ''if (url =='' @ Lit u # tokens '') {'')"
proof -
  have c: "closed_text ''if (url == ''" "closed_text '') {''"
    and e: "toks ''if (url == '' = tokens ''if (url ==''" "toks '') {'' = tokens '') {''"
    by code_simp+
  show ?thesis
    by (rule line_eq[OF line_append[OF c(1) line_quoted[OF assms line_text[OF c(2)]]]])
      (simp_all add: url_test_def e)
qed

lemma lexes_text: "closed_text t \<Longrightarrow> tokens t = ts \<Longrightarrow> line t ts"
  using line_text[of t] by (simp add: tokens_closed)

lemma line_else: "line ''else '' (tokens ''else'')" and line_brace: "line ''}'' (tokens ''}'')"
  by (rule lexes_text, code_simp, code_simp)+

lemma lexes_two: "lexes (emit n [a, b]) ts \<Longrightarrow> lexes (emit n ls) us \<Longrightarrow> lexes (emit n (a # b # ls)) (ts @ us)"
  using lexes_append[of "emit n [a, b]" ts "emit n ls" us] by (simp add: emit_Cons)

lemma lexes_route_branch:
  assumes "proto_method m" and "CHR ''\"'' \<notin> set (method_url (fd_package file) (sd_name s) (md_name m))"
  shows "lexes (route_branch_text n file s i m)
    ((if i \<noteq> 0 then tokens ''else'' else []) @
     branch_toks (method_url (fd_package file) (sd_name s) (md_name m), method_stmts m))"
proof -
  have names: "name_token (md_name m)" "name_token (md_input m)" "name_token (md_output m)"
    using assms(1) by (simp_all add: proto_method_def)
  have first: "lexes (if i \<noteq> 0 then emit n [''else ''] else '''') (if i \<noteq> 0 then tokens ''else'' else [])"
    using lexes_emit_line[OF line_else] by (simp add: lexes_def)
  note makes = lexes_make(1)[OF names(2)] lexes_make(2)[OF names(3)]
  note body = lexes_two[OF lexes_bind_begin[OF names(1)] lexes_two[OF lexes_bind_end[OF names(1)]
      lexes_emit_Cons[OF makes(1) lexes_emit_line[OF makes(2)]]], of "n + 1"]
  note test = lexes_emit_line[OF line_url_test[OF assms(2)], of n]
  from lexes_append[OF first lexes_append[OF test lexes_append[OF body lexes_emit_line[OF line_brace]]]]
  show ?thesis
    unfolding route_branch_text_def by (rule lexes_eq) (simp_all add: branch_toks_def method_stmts_def)
qed

lemma chain_toks_enumerate:
  "concat (map (\<lambda>(i, br). (if i \<noteq> 0 then tokens ''else'' else []) @ branch_toks br) (enumerate 0 brs)) @
     tokens ''else'' = chain_toks brs"
proof (cases brs)
  case (Cons br brs')
  have "concat (map (\<lambda>(i, br). (if i \<noteq> 0 then tokens ''else'' else []) @ branch_toks br)
      (enumerate (Suc k) xs)) @ tokens ''else'' =
      tokens ''else'' @ (if xs = [] then [] else chain_toks xs)" for k xs
    by (induction xs arbitrary: k) simp_all
  then show ?thesis using Cons by simp
qed simp

lemma closed_route_lines:
  "line ''else {'' (tokens ''else {'')"
  "line ''  return fabricrpc::Status(fabricrpc::StatusCode::NOT_FOUND, \"method not found: \" + url);''
    (tokens ''return fabricrpc::Status(fabricrpc::StatusCode::'' @ Word ''NOT_FOUND'' # tokens '','' @
      Lit ''method not found: '' # tokens ''+ url);'')"
  "line ''return fabricrpc::Status();'' (tokens ''return fabricrpc::Status();'')"
  by (rule lexes_text, code_simp, code_simp)+

lemma route_tail_toks:
  "tokens ''else {'' = tokens ''else'' @ tokens ''{''"
  "tokens ''+ url); } return fabricrpc::Status(); }'' =
     tokens ''+ url);'' @ tokens ''}'' @ tokens ''return fabricrpc::Status();'' @ tokens ''}''"
  by code_simp+

lemma line_route_head:
  assumes "name_token c"
  shows "line (''fabricrpc::Status '' @ c @ ''::Service::Route(const std::string & url, '' @
      ''std::unique_ptr<fabricrpc::IBeginOperation> & beginOp, '' @
      ''std::unique_ptr<fabricrpc::IEndOperation> & endOp) {'')
    (tokens ''fabricrpc::Status'' @ Word c # tokens route_params)"
proof -
  have c: "closed_text ''fabricrpc::Status ''" "closed_text route_params" "nonword route_params"
    and e: "toks ''fabricrpc::Status '' = tokens ''fabricrpc::Status''"
    by code_simp+
  show ?thesis
    by (rule line_eq[OF line_around[OF c(1) assms c(3,2)]])
      (simp_all add: e tokens_closed[OF c(2)], simp add: route_params_def)
qed

lemma enumerate_map: "enumerate n (map h xs) = map (\<lambda>(i, x). (i, h x)) (enumerate n xs)"
  by (induction xs arbitrary: n) simp_all

lemma lexes_route_text:
  assumes "proto_file file" and "proto_service s"
  shows "lexes (route_text file s) (router_toks (router_of file s))"
proof -
  let ?b = "\<lambda>m. (method_url (fd_package file) (sd_name s) (md_name m), method_stmts m)"
  have m: "proto_method m" if "(i, m) \<in> set (enumerate 0 (sd_methods s))" for i m
  proof -
    have "m \<in> set (sd_methods s)" using that by (auto simp: in_set_enumerate_eq)
    then show ?thesis using assms(2) by (simp add: proto_service_def list_all_iff)
  qed
  have branches: "lexes (concat (map (\<lambda>(i, m). route_branch_text 1 file s i m) (enumerate 0 (sd_methods s))))
      (concat (map (\<lambda>(i, m). (if i \<noteq> 0 then tokens ''else'' else []) @ branch_toks (?b m))
        (enumerate 0 (sd_methods s))))"
    by (rule lexes_concat) (use m lexes_route_branch proto_url[OF assms] in \<open>auto simp del: One_nat_def\<close>)
  have name: "name_token (sd_name s)" using assms(2) by (simp add: proto_service_def)
  note tail = lexes_emit_Cons[OF closed_route_lines(1) lexes_emit_Cons[OF closed_route_lines(2)
        lexes_emit_Cons[OF line_brace lexes_emit_line[OF closed_route_lines(3)]]], of 1]
  have chain: "concat (map (\<lambda>(i, m). (if i \<noteq> 0 then tokens ''else'' else []) @ branch_toks (?b m))
      (enumerate 0 (sd_methods s))) @ tokens ''else'' @ ts = chain_toks (rt_branches (router_of file s)) @ ts" for ts
    using chain_toks_enumerate[of "map ?b (sd_methods s)"]
    by (simp add: router_of_def enumerate_map comp_def case_prod_unfold flip: append_assoc)
  from lexes_append[OF lexes_emit_line[OF line_route_head[OF name]] lexes_append[OF branches
        lexes_append[OF tail lexes_emit_line[OF line_brace]]], of 0 0]
  show ?thesis
    unfolding route_text_def
    by (rule lexes_eq) (simp_all add: route_tail_toks chain router_toks_def del: neq0_conv, simp add: router_of_def)
qed

subsection \<open>Clients and declarations\<close>

lemma line_begin_sig:
  assumes "name_token f" and "name_token R" and "closed_text p" and "nonword p"
    and "toks p = tokens begin_params @ ts"
  shows "line (f @ ''(const '' @ R @ p) (sig_toks (Begin_Member f R) @ ts)"
proof -
  have c: "closed_text ''(const ''" "nonword (''(const '' @ R @ p)" "toks ''(const '' = tokens ''(const''"
    by code_simp+
  show ?thesis
    by (rule line_eq[OF line_word[OF assms(1) c(2) line_append[OF c(1) line_word[OF assms(2,4)
            line_text[OF assms(3)]]]]]) (simp_all add: c(3) assms(5))
qed

lemma line_end_sig:
  assumes "name_token f" and "name_token R" and "closed_text p" and "nonword p"
    and "toks p = tokens ''* response)'' @ ts"
  shows "line (f @ ''(IFabricAsyncOperationContext *context, /*out*/'' @ R @ p) (sig_toks (End_Member f R) @ ts)"
proof -
  have c: "closed_text ''(IFabricAsyncOperationContext *context, /*out*/''"
    "nonword (''(IFabricAsyncOperationContext *context, /*out*/'' @ R @ p)"
    "toks ''(IFabricAsyncOperationContext *context, /*out*/'' = tokens ''(IFabricAsyncOperationContext *context,''"
    by code_simp+
  show ?thesis
    by (rule line_eq[OF line_word[OF assms(1) c(2) line_append[OF c(1) line_word[OF assms(2,4)
            line_text[OF assms(3)]]]]]) (simp_all add: c(3) assms(5))
qed

lemma streaming_comments:
  "line streaming_note []"
proof -
  have "line (''//'' @ drop 2 streaming_note) []"
    by (rule line_comment) code_simp
  moreover have "''//'' @ drop 2 streaming_note = streaming_note" by code_simp
  ultimately show ?thesis by simp
qed

lemma client_name: "name_token s \<Longrightarrow> name_token (s @ ''Client'')"
proof -
  have "list_all word_char ''Client''" by code_simp
  then show "name_token s \<Longrightarrow> name_token (s @ ''Client'')" by (simp add: name_token_def)
qed

lemma lexes_client_method:
  assumes "proto_file file" and "proto_service s" and "proto_method m" and "no_streaming m"
  shows "lexes (client_method_text file s m) (concat (map stub_toks (method_stubs file s m)))"
proof -
  have names: "name_token (sd_name s @ ''Client'')" "name_token (''Begin'' @ md_name m)"
    "name_token (''End'' @ md_name m)" "name_token (md_input m)" "name_token (md_output m)"
    using assms(2,3) begin_end_names[of "md_name m"]
    by (simp_all add: proto_service_def proto_method_def client_name)
  have c: "closed_text ''fabricrpc::Status ''" "closed_text ''::''" "nonword (''::'' @ x)"
    "closed_text ''  return fabricrpc::ExecClientBegin(client_, cv_, timeoutMilliseconds, ''"
    "closed_text '', request,''" for x
    by code_simp+
  have e: "toks ''fabricrpc::Status '' = tokens ''fabricrpc::Status''" "toks ''::'' = tokens ''::''"
    by code_simp+
  let ?p = "''* request, DWORD timeoutMilliseconds, IFabricAsyncOperationCallback *callback, /*out*/ IFabricAsyncOperationContext **context){''"
  have p: "closed_text ?p" "nonword ?p" "toks ?p = tokens begin_params @ tokens ''{''"
    "closed_text ''* response){''" "nonword ''* response){''"
    "toks ''* response){'' = tokens ''* response)'' @ tokens ''{''"
    by code_simp+
  note head = line_append[OF c(1) line_word[OF names(1) c(3) line_append[OF c(2)]]]
  have l: "line ''             callback, context);}'' (tokens ''callback, context);}'')"
    "line ''  return fabricrpc::ExecClientEnd(client_, cv_, context, response);}''
       (tokens ''return fabricrpc::ExecClientEnd(client_, cv_, context, response);}'')"
    by (rule lexes_text, code_simp, code_simp)+
  have f: "tokens ''{ return fabricrpc::ExecClientBegin(client_, cv_, timeoutMilliseconds,'' =
      tokens ''{'' @ toks ''  return fabricrpc::ExecClientBegin(client_, cv_, timeoutMilliseconds, ''"
    "tokens '', request, callback, context);}'' = toks '', request,'' @ tokens ''callback, context);}''"
    "tokens ''{ return fabricrpc::ExecClientEnd(client_, cv_, context, response);}'' =
      tokens ''{'' @ tokens ''return fabricrpc::ExecClientEnd(client_, cv_, context, response);}''"
    by code_simp+
  note call = line_append[OF c(4) line_quoted[OF proto_url[OF assms(1-3)] line_text[OF c(5)]]]
  from lexes_emit_Cons[OF head[OF line_begin_sig[OF names(2,4) p(1-3)]]
      lexes_emit_Cons[OF call lexes_emit_Cons[OF l(1)
        lexes_emit_Cons[OF head[OF line_end_sig[OF names(3,5) p(4-6)]] lexes_emit_line[OF l(2)]]]], of 0]
  show ?thesis
    by (rule lexes_eq)
      (simp_all add: client_method_text_def assms(4) method_stubs_def stub_toks_def e f)
qed

lemma lexes_method:
  assumes "no_streaming m \<Longrightarrow> lexes t ts" and "\<not> no_streaming m \<Longrightarrow> t = emit n [streaming_note]"
  shows "lexes t (if no_streaming m then ts else [])"
  using assms lexes_emit_line[OF streaming_comments] by simp

lemma concat_filter: "concat (map f (filter P xs)) = concat (map (\<lambda>x. if P x then f x else []) xs)"
  by (induction xs) simp_all

lemma concat_map_concat: "concat (map f (concat (map g xs))) = concat (map (\<lambda>x. concat (map f (g x))) xs)"
  by (induction xs) simp_all

lemma lexes_client:
  assumes "proto_file file" and "proto_service s"
  shows "lexes (client_text file s) (client_toks (client_of file s))"
proof -
  have name: "name_token (sd_name s @ ''Client'')"
    using assms(2) by (simp add: proto_service_def client_name)
  have m: "proto_method m" if "m \<in> set (sd_methods s)" for m
    using assms(2) that by (simp add: proto_service_def list_all_iff)
  have stubs: "lexes (concat (map (client_method_text file s) (sd_methods s)))
      (concat (map stub_toks (cl_stubs (client_of file s))))"
  proof (rule lexes_eq)
    show "lexes (concat (map (client_method_text file s) (sd_methods s)))
        (concat (map (\<lambda>m. if no_streaming m then concat (map stub_toks (method_stubs file s m)) else [])
          (sd_methods s)))"
      by (intro lexes_concat lexes_method lexes_client_method[OF assms] m)
        (auto simp: client_method_text_def)
    show "concat (map (\<lambda>m. if no_streaming m then concat (map stub_toks (method_stubs file s m)) else [])
          (sd_methods s)) = concat (map stub_toks (cl_stubs (client_of file s)))"
      by (simp add: client_of_def concat_filter[symmetric] concat_map_concat)
  qed simp
  have c: "closed_text ''::''" "nonword (''::'' @ x)" "closed_text ''(IFabricTransportClient *client)''"
    "nonword ''(IFabricTransportClient *client)''" for x
    by code_simp+
  have e: "toks ''::'' = tokens ''::''"
    "tokens client_constructor = toks ''(IFabricTransportClient *client)'' @
      tokens ''  : client_(), cv_(std::make_shared<privateconverter>()) {'' @
      tokens ''  client->AddRef();'' @ tokens ''  client_.Attach(client);'' @ tokens ''}''"
    by code_simp+
  have l: "line ''using privateconverter = fabricrpc::FabricRPCHeaderProtoConverter<fabricrpc::request_header, fabricrpc::reply_header>;''
      (tokens client_alias)"
    "line ''  : client_(), cv_(std::make_shared<privateconverter>()) {'' (tokens ''  : client_(), cv_(std::make_shared<privateconverter>()) {'')"
    "line ''  client->AddRef();'' (tokens ''  client->AddRef();'')"
    "line ''  client_.Attach(client);'' (tokens ''  client_.Attach(client);'')"
    by (rule lexes_text, code_simp, code_simp)+
  note head = line_word[OF name c(2) line_append[OF c(1) line_word[OF name c(4) line_text[OF c(3)]]]]
  from lexes_append[OF lexes_emit_Cons[OF l(1) lexes_emit_Cons[OF head
        lexes_emit_Cons[OF l(2) lexes_emit_Cons[OF l(3) lexes_emit_Cons[OF l(4) lexes_emit_line[OF line_brace]]]]]]
        stubs, of 0]
  show ?thesis
    by (rule lexes_eq) (simp_all add: client_text_def client_toks_def e, simp_all add: client_of_def)
qed

lemma lexes_server_method:
  assumes "proto_method m" and "no_streaming m"
  shows "lexes (server_method_text m) (concat (map virtual_toks (method_members m)))"
proof -
  have names: "name_token (''Begin'' @ md_name m)" "name_token (''End'' @ md_name m)"
    "name_token (md_input m)" "name_token (md_output m)"
    using assms(1) begin_end_names[of "md_name m"] by (simp_all add: proto_method_def)
  let ?p = "''* request, DWORD timeoutMilliseconds,IFabricAsyncOperationCallback *callback, /*out*/ IFabricAsyncOperationContext **context) = 0;''"
  have p: "closed_text ?p" "nonword ?p" "toks ?p = tokens begin_params @ tokens ''= 0;''"
    "closed_text ''* response) = 0;''" "nonword ''* response) = 0;''"
    "toks ''* response) = 0;'' = tokens ''* response)'' @ tokens ''= 0;''"
    by code_simp+
  have c: "closed_text ''virtual fabricrpc::Status ''"
    and e: "toks ''virtual fabricrpc::Status '' = tokens ''virtual fabricrpc::Status''"
    by code_simp+
  from lexes_emit_Cons[OF line_append[OF c line_begin_sig[OF names(1,3) p(1-3)]]
      lexes_emit_line[OF line_append[OF c line_end_sig[OF names(2,4) p(4-6)]]], of 2]
  show ?thesis
    by (rule lexes_eq) (simp_all add: server_method_text_def assms(2) method_members_def virtual_toks_def e)
qed

lemma lexes_client_declaration:
  assumes "proto_method m" and "no_streaming m"
  shows "lexes (client_declaration_text m) (concat (map declaration_toks (method_members m)))"
proof -
  have names: "name_token (''Begin'' @ md_name m)" "name_token (''End'' @ md_name m)"
    "name_token (md_input m)" "name_token (md_output m)"
    using assms(1) begin_end_names[of "md_name m"] by (simp_all add: proto_method_def)
  let ?p = "''* request, DWORD timeoutMilliseconds, IFabricAsyncOperationCallback *callback, /*out*/ IFabricAsyncOperationContext **context);''"
  have p: "closed_text ?p" "nonword ?p" "toks ?p = tokens begin_params @ tokens '';''"
    "closed_text ''* response);''" "nonword ''* response);''"
    "toks ''* response);'' = tokens ''* response)'' @ tokens '';''"
    by code_simp+
  have c: "closed_text ''fabricrpc::Status ''"
    and e: "toks ''fabricrpc::Status '' = tokens ''fabricrpc::Status''"
    by code_simp+
  from lexes_emit_Cons[OF line_append[OF c line_begin_sig[OF names(1,3) p(1-3)]]
      lexes_emit_line[OF line_append[OF c line_end_sig[OF names(2,4) p(4-6)]]], of 1]
  show ?thesis
    by (rule lexes_eq)
      (simp_all add: client_declaration_text_def assms(2) method_members_def declaration_toks_def e)
qed

text \<open>The declarations of a class, one pair for each method without streaming.\<close>

lemma lexes_members:
  assumes "proto_service s"
    and "\<And>m. proto_method m \<Longrightarrow> no_streaming m \<Longrightarrow> lexes (t m) (concat (map f (method_members m)))"
    and "\<And>m. \<not> no_streaming m \<Longrightarrow> t m = emit n [streaming_note]"
  shows "lexes (concat (map t (sd_methods s))) (concat (map f (members_of s)))"
proof (rule lexes_eq)
  have "proto_method m" if "m \<in> set (sd_methods s)" for m
    using assms(1) that by (simp add: proto_service_def list_all_iff)
  then show "lexes (concat (map t (sd_methods s)))
      (concat (map (\<lambda>m. if no_streaming m then concat (map f (method_members m)) else []) (sd_methods s)))"
    by (intro lexes_concat lexes_method[where n = n] assms(2,3))
  show "concat (map (\<lambda>m. if no_streaming m then concat (map f (method_members m)) else []) (sd_methods s)) =
      concat (map f (members_of s))"
    by (simp add: members_of_def concat_filter[symmetric] concat_map_concat)
qed simp

lemma lexes_service_class:
  assumes "proto_file file" and "proto_service s"
  shows "lexes (service_text file s) (service_class_toks (service_class_of file s))"
proof -
  have name: "name_token (sd_name s)" using assms(2) by (simp add: proto_service_def)
  have full: "CHR ''\"'' \<notin> set (package_prefix (fd_package file) @ sd_name s)"
    using assms name by (auto simp: proto_file_def package_prefix_def dest: name_token_good)
  have c: "closed_text ''class ''" "closed_text '' final {''" "nonword '' final {''"
    "closed_text ''  return ''" "closed_text '';''"
    by code_simp+
  have l: "line ''  public:'' (tokens ''public:'')"
    "line ''static constexpr char const* service_full_name() {'' (tokens ''static constexpr char const* service_full_name() {'')"
    "line ''class Service : public fabricrpc::MiddleWare {'' (tokens ''class Service : public fabricrpc::MiddleWare {'')"
    "line ''Service() {};'' (tokens ''Service() {};'')"
    "line ''virtual ~Service() {};'' (tokens ''virtual ~Service() {};'')"
    "line ''};'' (tokens ''};'')"
    by (rule lexes_text, code_simp, code_simp)+
  have r: "line (''virtual fabricrpc::Status Route(const std::string & url, '' @
      ''std::unique_ptr<fabricrpc::IBeginOperation> & beginOp, '' @
      ''std::unique_ptr<fabricrpc::IEndOperation> & endOp) override;'')
      (tokens (''virtual fabricrpc::Status Route(const std::string & url, '' @
      ''std::unique_ptr<fabricrpc::IBeginOperation> & beginOp, '' @
      ''std::unique_ptr<fabricrpc::IEndOperation> & endOp) override;''))"
    by (rule lexes_text, code_simp, rule refl)
  have e: "toks ''class '' = tokens ''class''"
    "tokens ''final { public: static constexpr char const* service_full_name() { return'' =
       toks '' final {'' @ tokens ''public:'' @ tokens ''static constexpr char const* service_full_name() {'' @
       toks ''  return ''"
    "tokens ''; } class Service : public fabricrpc::MiddleWare { public: Service() {}; virtual ~Service() {};'' =
       toks '';'' @ tokens ''}'' @ tokens ''class Service : public fabricrpc::MiddleWare {'' @ tokens ''public:'' @
       tokens ''Service() {};'' @ tokens ''virtual ~Service() {};''"
    "tokens route_declaration =
       tokens (''virtual fabricrpc::Status Route(const std::string & url, '' @
         ''std::unique_ptr<fabricrpc::IBeginOperation> & beginOp, '' @
         ''std::unique_ptr<fabricrpc::IEndOperation> & endOp) override;'') @ tokens ''};'' @ tokens ''};''"
    by code_simp+
  have members: "lexes (concat (map server_method_text (sd_methods s))) (concat (map virtual_toks (members_of s)))"
    by (rule lexes_members[OF assms(2) lexes_server_method, where n = 2]) (simp_all add: server_method_text_def)
  note first = lexes_emit_Cons[OF line_append[OF c(1) line_word[OF name c(3) line_text[OF c(2)]]]
      lexes_emit_line[OF l(1)], of 0]
  note second = lexes_emit_Cons[OF l(2) lexes_emit_Cons[OF
        line_append[OF c(4) line_quoted[OF full line_text[OF c(5)]]]
        lexes_emit_Cons[OF line_brace lexes_emit_Cons[OF l(3) lexes_emit_line[OF l(1)]]]], of 1]
  note third = lexes_emit_Cons[OF l(4) lexes_emit_line[OF l(5)], of 2]
  from lexes_append[OF first lexes_append[OF second lexes_append[OF third lexes_append[OF members
        lexes_append[OF lexes_emit_line[OF r] lexes_append[OF lexes_emit_line[OF l(6)]
          lexes_emit_line[OF l(6)]]]]]], of 2 1 0]
  show ?thesis
    by (rule lexes_eq) (simp_all only: service_text_def append_assoc append_Cons append_Nil,
      simp_all add: service_class_toks_def e, simp add: service_class_of_def)
qed

lemma lexes_client_class:
  assumes "proto_service s"
  shows "lexes (client_class_text s) (client_class_toks (client_class_of s))"
proof -
  have name: "name_token (sd_name s @ ''Client'')" using assms by (simp add: proto_service_def client_name)
  have c: "closed_text ''class ''" "closed_text ''{''" "nonword ''{''"
    "closed_text ''(IFabricTransportClient * client);''" "nonword ''(IFabricTransportClient * client);''"
    by code_simp+
  have l: "line ''public:'' (tokens ''public:'')" "line ''private:'' (tokens ''private:'')"
    "line ''  CComPtr<IFabricTransportClient> client_;'' (tokens ''CComPtr<IFabricTransportClient> client_;'')"
    "line ''  std::shared_ptr<fabricrpc::IFabricRPCHeaderProtoConverter> cv_;''
       (tokens ''std::shared_ptr<fabricrpc::IFabricRPCHeaderProtoConverter> cv_;'')"
    "line ''};'' (tokens ''};'')"
    by (rule lexes_text, code_simp, code_simp)+
  have e: "toks ''class '' = tokens ''class''" "tokens ''{ public:'' = toks ''{'' @ tokens ''public:''"
    "toks ''(IFabricTransportClient * client);'' = tokens ''(IFabricTransportClient * client);''"
    "tokens client_fields = tokens ''private:'' @ tokens ''CComPtr<IFabricTransportClient> client_;'' @
       tokens ''std::shared_ptr<fabricrpc::IFabricRPCHeaderProtoConverter> cv_;'' @ tokens ''};''"
    by code_simp+
  have members: "lexes (concat (map client_declaration_text (sd_methods s)))
      (concat (map declaration_toks (members_of s)))"
    by (rule lexes_members[OF assms lexes_client_declaration, where n = 1])
      (simp_all add: client_declaration_text_def)
  note first = lexes_emit_Cons[OF line_append[OF c(1) line_word[OF name c(3) line_text[OF c(2)]]]
      lexes_emit_line[OF l(1)], of 0]
  note second = lexes_emit_line[OF line_word[OF name c(5) line_text[OF c(4)]], of 1]
  note last = lexes_emit_Cons[OF l(2) lexes_emit_Cons[OF l(3) lexes_emit_Cons[OF l(4) lexes_emit_line[OF l(5)]]], of 0]
  from lexes_append[OF first lexes_append[OF second lexes_append[OF members last]]]
  show ?thesis
    by (rule lexes_eq) (simp_all only: client_class_text_def append_assoc append_Cons append_Nil,
      simp_all add: client_class_toks_def e, simp add: client_class_of_def)
qed

section \<open>The two files are read back\<close>

lemma proto_services: "proto_file file \<Longrightarrow> s \<in> set (fd_services file) \<Longrightarrow> proto_service s"
  by (simp add: proto_file_def list_all_iff)

lemma namespace_token: "proto_file file \<Longrightarrow> name_token d \<Longrightarrow> name_token (namespace_of d file)"
  by (auto simp: namespace_of_def proto_file_def)

lemma lines_in_namespace:
  assumes "proto_file file" and "name_token d"
  shows "line (''// Service pkg '' @ package_prefix (fd_package file)) []"
    and "line ''// Client code'' []" and "line ''// Server code'' []"
    and "line (''namespace '' @ namespace_of d file @ '' {'')
      (tokens ''namespace'' @ Word (namespace_of d file) # tokens ''{'')"
    and "line (''} // namespace '' @ namespace_of d file) (tokens ''}'')"
proof -
  have good: "good_name (namespace_of d file)" "good_name (package_prefix (fd_package file))"
    using proto_good(3)[OF assms(1)] name_token_good[OF namespace_token[OF assms]]
    by (auto simp: good_file_def package_prefix_def good_name_def no_dollar_def one_line_def nl_def)
  then have nls: "nl \<notin> set (namespace_of d file)" "nl \<notin> set (package_prefix (fd_package file))"
    by (simp_all add: good_name_def one_line_def)
  have "line (''//'' @ '' Service pkg '' @ package_prefix (fd_package file)) []"
    by (rule line_comment) (simp add: nls nl_def[symmetric], simp add: nl_def)
  then show "line (''// Service pkg '' @ package_prefix (fd_package file)) []" by simp
  have t: "nl \<notin> set '' Client code''" "nl \<notin> set '' Server code''" by code_simp+
  from line_comment[OF t(1)] line_comment[OF t(2)]
  show "line ''// Client code'' []" "line ''// Server code'' []" by simp_all
  have c: "closed_text ''namespace ''" "closed_text '' {''" "nonword '' {''"
    "toks ''namespace '' = tokens ''namespace''" "toks '' {'' = tokens ''{''"
    "closed_text ''} ''" "toks ''} '' = tokens ''}''"
    by code_simp+
  show "line (''namespace '' @ namespace_of d file @ '' {'')
      (tokens ''namespace'' @ Word (namespace_of d file) # tokens ''{'')"
    by (rule line_eq[OF line_around[OF c(1) namespace_token[OF assms] c(3,2)]]) (simp_all add: c)
  have "line (''} '' @ ''//'' @ '' namespace '' @ namespace_of d file) (toks ''} '' @ [])"
    by (rule line_append[OF c(6) line_comment]) (simp add: nls nl_def[symmetric], simp add: nl_def)
  then show "line (''} // namespace '' @ namespace_of d file) (tokens ''}'')"
    by (simp add: c(7))
qed

lemma default_namespaces: "name_token ''fabricrpc''" "name_token ''fabricrpc2''"
  by code_simp+

lemmas lines_of_namespace = lines_in_namespace(1,2,4,5)[OF _ default_namespaces(1)]

lemma lexes_services:
  assumes "proto_file file" and "\<And>s. proto_service s \<Longrightarrow> lexes (f s) (g s)"
  shows "lexes (concat (map f (fd_services file))) (concat (map g (fd_services file)))"
  using assms(2) proto_services[OF assms(1)] by (auto intro!: lexes_concat)

lemma lexes_header_clients:
  assumes "proto_file file"
  shows "lexes (header_clients_text file)
    (tokens ''namespace'' @ Word (namespace_of ''fabricrpc'' file) # tokens ''{'' @
     concat (map client_class_toks (hd_clients (header_of file))) @ tokens ''}'')"
proof -
  note ns = lines_of_namespace[OF assms]
  from lexes_append[OF lexes_emit_Cons[OF ns(2) lexes_emit_line[OF ns(3)], of 0]
      lexes_append[OF lexes_services[OF assms lexes_client_class] lexes_emit_line[OF ns(4), of 0]]]
  show ?thesis
    by (rule lexes_eq) (simp_all add: header_clients_text_def header_of_def comp_def)
qed

lemma lexes_header_services:
  assumes "proto_file file"
  shows "lexes (header_services_text file)
    (tokens ''namespace'' @ Word (namespace_of ''fabricrpc'' file) # tokens ''{'' @
     concat (map service_class_toks (hd_services (header_of file))) @ tokens create_declaration)"
proof -
  note ns = lines_of_namespace[OF assms]
  let ?create = "''void CreateFabricRPCRequestHandler(const std::vector<std::shared_ptr<fabricrpc::MiddleWare>> & svcList, '' @
        ''IFabricTransportMessageHandler ** handler);''"
  have create: "line ?create (tokens ?create)" by (rule lexes_text, code_simp, rule refl)
  have e: "tokens create_declaration = tokens ?create @ tokens ''}''" by code_simp
  from lexes_append[OF lexes_emit_Cons[OF ns(1) lexes_emit_line[OF ns(3)], of 0]
      lexes_append[OF lexes_services[OF assms lexes_service_class[OF assms]]
        lexes_emit_Cons[OF create lexes_emit_line[OF ns(4)], of 0]]]
  show ?thesis
    by (rule lexes_eq) (simp_all only: header_services_text_def append_assoc append_Cons append_Nil,
      simp_all add: header_of_def comp_def e)
qed

lemma lexes_source_clients:
  assumes "proto_file file"
  shows "lexes (clients_text file)
    (tokens ''namespace'' @ Word (namespace_of ''fabricrpc'' file) # tokens ''{'' @
     concat (map client_toks (src_clients (source_of file))) @ tokens ''}'')"
proof -
  note ns = lines_of_namespace[OF assms]
  from lexes_append[OF lexes_emit_Cons[OF ns(2) lexes_emit_line[OF ns(3)], of 0]
      lexes_append[OF lexes_services[OF assms lexes_client[OF assms]] lexes_emit_line[OF ns(4), of 0]]]
  show ?thesis
    by (rule lexes_eq) (simp_all add: clients_text_def source_of_def comp_def)
qed

lemma lexes_create_handler:
  "lexes (emit 0
       [''void CreateFabricRPCRequestHandler(const std::vector<std::shared_ptr<fabricrpc::MiddleWare>> & svcList,'',
        ''                                    IFabricTransportMessageHandler **handler) {''] @
     emit 1
       [''using privateconverter = fabricrpc::FabricRPCHeaderProtoConverter<fabricrpc::request_header, fabricrpc::reply_header>;'',
        ''std::shared_ptr<fabricrpc::IFabricRPCHeaderProtoConverter> cv = std::make_shared<privateconverter>();'',
        ''CComPtr<CComObjectNoLock<fabricrpc::FRPCRequestHandler>> msgHandlerPtr('',
        ''  new CComObjectNoLock<fabricrpc::FRPCRequestHandler>());'',
        ''msgHandlerPtr->Initialize(svcList, cv);'',
        ''*handler = msgHandlerPtr.Detach();''] @
     emit 0 [''}''])
    (toks ''void '' @ tokens ''CreateFabricRPCRequestHandler(const std::vector<std::shared_ptr<fabricrpc::MiddleWare>> & svcList,'' @
     tokens ''IFabricTransportMessageHandler **handler) {'' @
     tokens ''using privateconverter = fabricrpc::FabricRPCHeaderProtoConverter<fabricrpc::request_header, fabricrpc::reply_header>;'' @
     tokens ''std::shared_ptr<fabricrpc::IFabricRPCHeaderProtoConverter> cv = std::make_shared<privateconverter>();'' @
     tokens ''CComPtr<CComObjectNoLock<fabricrpc::FRPCRequestHandler>> msgHandlerPtr('' @
     tokens ''new CComObjectNoLock<fabricrpc::FRPCRequestHandler>());'' @
     tokens ''msgHandlerPtr->Initialize(svcList, cv);'' @ tokens ''*handler = msgHandlerPtr.Detach();'' @ tokens ''}'')"
proof -
  have l: "line ''void CreateFabricRPCRequestHandler(const std::vector<std::shared_ptr<fabricrpc::MiddleWare>> & svcList,''
      (toks ''void '' @ tokens ''CreateFabricRPCRequestHandler(const std::vector<std::shared_ptr<fabricrpc::MiddleWare>> & svcList,'')"
    "line ''                                    IFabricTransportMessageHandler **handler) {''
      (tokens ''IFabricTransportMessageHandler **handler) {'')"
    "line ''using privateconverter = fabricrpc::FabricRPCHeaderProtoConverter<fabricrpc::request_header, fabricrpc::reply_header>;''
      (tokens ''using privateconverter = fabricrpc::FabricRPCHeaderProtoConverter<fabricrpc::request_header, fabricrpc::reply_header>;'')"
    "line ''std::shared_ptr<fabricrpc::IFabricRPCHeaderProtoConverter> cv = std::make_shared<privateconverter>();''
      (tokens ''std::shared_ptr<fabricrpc::IFabricRPCHeaderProtoConverter> cv = std::make_shared<privateconverter>();'')"
    "line ''CComPtr<CComObjectNoLock<fabricrpc::FRPCRequestHandler>> msgHandlerPtr(''
      (tokens ''CComPtr<CComObjectNoLock<fabricrpc::FRPCRequestHandler>> msgHandlerPtr('')"
    "line ''  new CComObjectNoLock<fabricrpc::FRPCRequestHandler>());''
      (tokens ''new CComObjectNoLock<fabricrpc::FRPCRequestHandler>());'')"
    "line ''msgHandlerPtr->Initialize(svcList, cv);'' (tokens ''msgHandlerPtr->Initialize(svcList, cv);'')"
    "line ''*handler = msgHandlerPtr.Detach();'' (tokens ''*handler = msgHandlerPtr.Detach();'')"
    by (rule lexes_text, code_simp, code_simp)+
  from lexes_append[OF lexes_emit_Cons[OF l(1) lexes_emit_line[OF l(2)], of 0]
      lexes_append[OF lexes_emit_Cons[OF l(3) lexes_emit_Cons[OF l(4) lexes_emit_Cons[OF l(5)
        lexes_emit_Cons[OF l(6) lexes_emit_Cons[OF l(7) lexes_emit_line[OF l(8)]]]]], of 1]
        lexes_emit_line[OF line_brace, of 0]]]
  show ?thesis by (simp only: append_assoc)
qed

lemma create_definition_toks:
  "tokens create_definition =
    toks ''void '' @ tokens ''CreateFabricRPCRequestHandler(const std::vector<std::shared_ptr<fabricrpc::MiddleWare>> & svcList,'' @
     tokens ''IFabricTransportMessageHandler **handler) {'' @
     tokens ''using privateconverter = fabricrpc::FabricRPCHeaderProtoConverter<fabricrpc::request_header, fabricrpc::reply_header>;'' @
     tokens ''std::shared_ptr<fabricrpc::IFabricRPCHeaderProtoConverter> cv = std::make_shared<privateconverter>();'' @
     tokens ''CComPtr<CComObjectNoLock<fabricrpc::FRPCRequestHandler>> msgHandlerPtr('' @
     tokens ''new CComObjectNoLock<fabricrpc::FRPCRequestHandler>());'' @
     tokens ''msgHandlerPtr->Initialize(svcList, cv);'' @ tokens ''*handler = msgHandlerPtr.Detach();'' @
     tokens ''}'' @ tokens ''}''"
proof -
  have c: "closed_text ''void ''"
    "closed_text ''CreateFabricRPCRequestHandler(const std::vector<std::shared_ptr<fabricrpc::MiddleWare>> & svcList,''"
    "closed_text ''IFabricTransportMessageHandler **handler) {''"
    "closed_text ''using privateconverter = fabricrpc::FabricRPCHeaderProtoConverter<fabricrpc::request_header, fabricrpc::reply_header>;''"
    "closed_text ''std::shared_ptr<fabricrpc::IFabricRPCHeaderProtoConverter> cv = std::make_shared<privateconverter>();''"
    "closed_text ''CComPtr<CComObjectNoLock<fabricrpc::FRPCRequestHandler>> msgHandlerPtr(''"
    "closed_text ''new CComObjectNoLock<fabricrpc::FRPCRequestHandler>());''"
    by code_simp+
  have e: "tokens ''msgHandlerPtr->Initialize(svcList, cv); *handler = msgHandlerPtr.Detach(); } }'' =
      tokens ''msgHandlerPtr->Initialize(svcList, cv);'' @ tokens ''*handler = msgHandlerPtr.Detach();'' @
      tokens ''}'' @ tokens ''}''"
    by code_simp
  show ?thesis
    unfolding create_definition_def
    by (simp only: tokens_append c tokens_closed[OF c(2)] tokens_closed[OF c(3)] tokens_closed[OF c(4)]
        tokens_closed[OF c(5)] tokens_closed[OF c(6)] tokens_closed[OF c(7)] e)
qed

lemma lexes_source_services:
  assumes "proto_file file"
  shows "lexes (services_text file)
    (tokens ''namespace'' @ Word (namespace_of ''fabricrpc'' file) # tokens ''{'' @
     concat (map router_toks (src_routers (source_of file))) @ tokens create_definition)"
proof -
  note ns = lines_of_namespace[OF assms]
  from lexes_append[OF lexes_emit_Cons[OF ns(1) lexes_emit_line[OF ns(3)], of 0]
      lexes_append[OF lexes_services[OF assms lexes_route_text[OF assms]]
        lexes_append[OF lexes_create_handler lexes_emit_line[OF ns(4), of 0]]]]
  show ?thesis
    by (rule lexes_eq)
      (simp_all only: services_text_def append_assoc append_Cons append_Nil emit_append[symmetric],
       simp_all only: create_definition_toks source_of_def cxx_source.simps map_map comp_def append_assoc append_Nil)
qed

text \<open>What stands before the first namespace: comments and preprocessor lines.\<close>

lemma quote_free_base: "CHR ''\"'' \<notin> set f \<Longrightarrow> CHR ''\"'' \<notin> set (getProtoNameNoExt f)"
  by (auto simp: getProtoNameNoExt_def split: option.splits dest: in_set_takeD)

lemma file_name_lines:
  assumes "proto_file file"
  shows "line (''// source: '' @ fd_name file) []"
    and "CHR ''\"'' \<notin> set (getProtoNameNoExt (fd_name file) @ ''.pb.h'')"
    and "CHR ''\"'' \<notin> set (getProtoNameNoExt (fd_name file) @ ''.fabricrpc.h'')"
proof -
  have n: "nl \<notin> set (fd_name file)" and q: "CHR ''\"'' \<notin> set (fd_name file)"
    using assms by (simp_all add: proto_file_def good_name_def one_line_def)
  have "nl \<notin> set '' source: ''" by code_simp
  with n have "line (''//'' @ '' source: '' @ fd_name file) []"
    by (intro line_comment) (simp only: set_append Un_iff, blast)
  then show "line (''// source: '' @ fd_name file) []" by simp
  show "CHR ''\"'' \<notin> set (getProtoNameNoExt (fd_name file) @ ''.pb.h'')"
    and "CHR ''\"'' \<notin> set (getProtoNameNoExt (fd_name file) @ ''.fabricrpc.h'')"
    using quote_free_base[OF q] by simp_all
qed

definition fixed_line :: "string \<Rightarrow> bool" where
  "fixed_line l \<longleftrightarrow> closed_text (l @ [nl]) \<and> Word ''namespace'' \<notin> set (toks (l @ [nl]))"

text \<open>Lines without the keyword.\<close>

definition silent :: "string \<Rightarrow> bool" where
  "silent t \<longleftrightarrow> (\<exists>ts. lexes t ts \<and> Word ''namespace'' \<notin> set ts)"

lemma silent_fixed:
  assumes "list_all fixed_line ls"
  shows "silent (emit n ls)"
  using assms
proof (induction ls)
  case Nil
  then show ?case using lexes_emit_Nil[of n] unfolding silent_def by fastforce
next
  case (Cons l ls)
  then obtain ts where "lexes (emit n ls) ts" "Word ''namespace'' \<notin> set ts" by (auto simp: silent_def)
  moreover have "line l (toks (l @ [nl]))" "Word ''namespace'' \<notin> set (toks (l @ [nl]))"
    using Cons.prems by (simp_all add: fixed_line_def line_def lexes_def)
  ultimately show ?case using lexes_emit_Cons unfolding silent_def by fastforce
qed

lemma silent_append: "silent a \<Longrightarrow> silent b \<Longrightarrow> silent (a @ b)"
  unfolding silent_def using lexes_append by fastforce

lemma silent_line: "line l ts \<Longrightarrow> Word ''namespace'' \<notin> set ts \<Longrightarrow> silent (emit n [l])"
  unfolding silent_def using lexes_emit_line by blast

lemma include_line:
  assumes "CHR ''\"'' \<notin> set f"
  shows "line (''#include \"'' @ f @ ''\"'') (toks ''#include '' @ [Lit f])"
proof -
  have c: "closed_text ''#include ''" by code_simp
  have "line '''' []" by (simp add: line_def lexes_def)
  from line_append[OF c line_quoted[OF assms this]] show ?thesis by simp
qed

lemma include_toks: "Word ''namespace'' \<notin> set (toks ''#include '')"
  by code_simp

lemma header_head_silent:
  assumes "proto_file file"
  shows "silent (header_head file)"
proof -
  have a: "silent (emit 0 [''// Generated by fabric_rpc_cpp_plugin. Do not Edit.''])"
    by (rule silent_fixed) code_simp
  have b: "silent (emit 0 [''#pragma once''])" by (rule silent_fixed) code_simp
  have c: "silent (emit 0 [''#include \"fabrictransport_.h\"'', ''#include <atlbase.h>'', ''#include <atlcom.h>'',
      ''#include \"fabricrpc/Operation.hpp\"'', ''#include \"fabricrpc/FRPCHeader.hpp\"''])"
    by (rule silent_fixed) code_simp
  note name = file_name_lines[OF assms]
  have d: "silent (emit 0 [''// source: '' @ fd_name file])" by (rule silent_line[OF name(1)]) simp
  have e: "silent (emit 0 [''#include \"'' @ getProtoNameNoExt (fd_name file) @ ''.pb.h\"''])"
    using silent_line[OF include_line[OF name(2)], of 0] include_toks by simp
  have "header_head file = emit 0 [''// Generated by fabric_rpc_cpp_plugin. Do not Edit.''] @
      emit 0 [''// source: '' @ fd_name file] @ emit 0 [''#pragma once''] @
      emit 0 [''#include \"'' @ getProtoNameNoExt (fd_name file) @ ''.pb.h\"''] @
      emit 0 [''#include \"fabrictransport_.h\"'', ''#include <atlbase.h>'', ''#include <atlcom.h>'',
        ''#include \"fabricrpc/Operation.hpp\"'', ''#include \"fabricrpc/FRPCHeader.hpp\"'']"
    by (simp only: header_head_def emit_append[symmetric] append_Cons append_Nil)
  then show ?thesis using a b c d e by (simp only: silent_append)
qed

lemma source_head_silent:
  assumes "proto_file file"
  shows "silent (source_head file)"
proof -
  have a: "silent (emit 0 [''// Generated by fabric_rpc_cpp_plugin. Do not Edit.''])"
    by (rule silent_fixed) code_simp
  have c: "silent (emit 0 [''#include <fabricrpc.pb.h>'', ''#include <functional>'',
      ''#include \"fabricrpc/ClientHelpers.hpp\"'', ''#include \"fabricrpc/FRPCRequestHandler.hpp\"'',
      ''#include \"fabricrpc/FRPCHeader.hpp\"''])"
    by (rule silent_fixed) code_simp
  note name = file_name_lines[OF assms]
  have d: "silent (emit 0 [''// source: '' @ fd_name file])" by (rule silent_line[OF name(1)]) simp
  have e: "silent (emit 0 [''#include \"'' @ getProtoNameNoExt (fd_name file) @ ''.fabricrpc.h\"''])"
    using silent_line[OF include_line[OF name(3)], of 0] include_toks by simp
  have "source_head file = emit 0 [''// Generated by fabric_rpc_cpp_plugin. Do not Edit.''] @
      emit 0 [''// source: '' @ fd_name file] @
      emit 0 [''#include \"'' @ getProtoNameNoExt (fd_name file) @ ''.fabricrpc.h\"''] @
      emit 0 [''#include <fabricrpc.pb.h>'', ''#include <functional>'',
        ''#include \"fabricrpc/ClientHelpers.hpp\"'', ''#include \"fabricrpc/FRPCRequestHandler.hpp\"'',
        ''#include \"fabricrpc/FRPCHeader.hpp\"'']"
    by (simp only: source_head_def emit_append[symmetric] append_Cons append_Nil)
  then show ?thesis using a c d e by (simp only: silent_append)
qed

text \<open>Reading the generated header and the generated source.\<close>

lemma method_stmts_good: "good_stmts (method_stmts m)"
  by (simp add: method_stmts_def good_stmts_def)

lemma read_generated_header:
  assumes "proto_file file"
  shows "read_header (header_head file @ header_services_text file @ header_clients_text file) =
    Some (header_of file)"
proof -
  obtain pre where pre: "lexes (header_head file) pre" "Word ''namespace'' \<notin> set pre"
    using header_head_silent[OF assms] by (auto simp: silent_def)
  note all = lexes_append[OF pre(1) lexes_append[OF lexes_header_services[OF assms] lexes_header_clients[OF assms]]]
  then have "tokens (header_head file @ header_services_text file @ header_clients_text file) =
      pre @ header_toks (header_of file)"
    by (simp add: lexes_def tokens_closed header_toks_def)
      (simp add: header_of_def)
  moreover have "member_name d \<noteq> ''Route''" if "d \<in> set (members_of s)" for d s
    using that by (auto simp: members_of_def method_members_def)
  ultimately show ?thesis
    by (intro read_header_toks[OF _ pre(2)]) (auto simp: list_all_iff header_of_def service_class_of_def)
qed

lemma source_tokens:
  assumes "proto_file file"
  obtains pre where "tokens (source_head file @ services_text file @ clients_text file) =
      pre @ source_toks (source_of file)" and "Word ''namespace'' \<notin> set pre"
proof -
  obtain pre where pre: "lexes (source_head file) pre" "Word ''namespace'' \<notin> set pre"
    using source_head_silent[OF assms] by (auto simp: silent_def)
  have "tokens (source_head file @ services_text file @ clients_text file) = pre @ source_toks (source_of file)"
    using lexes_append[OF pre(1) lexes_append[OF lexes_source_services[OF assms] lexes_source_clients[OF assms]]]
    by (simp add: lexes_def tokens_closed source_toks_def)
      (simp add: source_of_def)
  then show ?thesis by (rule that[OF _ pre(2)])
qed

definition has_methods :: "file_descriptor \<Rightarrow> bool" where
  "has_methods file \<longleftrightarrow> list_all (\<lambda>s. sd_methods s \<noteq> []) (fd_services file)"

lemma read_generated_source:
  assumes "proto_file file"
  shows "read_source (source_head file @ services_text file @ clients_text file) =
    (if has_methods file then Some (source_of file) else None)"
proof -
  obtain pre where toks: "tokens (source_head file @ services_text file @ clients_text file) =
      pre @ source_toks (source_of file)" and pre: "Word ''namespace'' \<notin> set pre"
    using source_tokens[OF assms] .
  have stmts: "list_all (\<lambda>r. list_all (\<lambda>br. good_stmts (snd br)) (rt_branches r)) (src_routers (source_of file))"
    by (auto simp: source_of_def router_of_def method_stmts_good list_all_iff)
  moreover have "list_all good_router (src_routers (source_of file)) \<longleftrightarrow> has_methods file"
    by (auto simp: source_of_def router_of_def method_stmts_good list_all_iff good_router_def has_methods_def)
  ultimately show ?thesis
    using read_source_toks[OF toks pre] read_source_stuck[OF toks pre] by auto
qed

end
