(* ===== verification/Generated_Semantics.thy ===== *)
theory Generated_Semantics
  imports Generated_Program Example_Services
begin

text \<open>
  What the code of the first plugin does when it is compiled and run.  The class definitions are
  checked against the declarations of the header, the statements of a branch are executed on the
  local variables and the out-parameters of \<open>Route\<close>, and the stubs of a client are looked up by
  name.  The generated router is the one of theory \<open>Operation\<close>.
\<close>

section \<open>Checking\<close>

text \<open>A local variable holds a member function bound to \<open>this\<close> with the given placeholders.\<close>

type_synonym cxx_locals = "string \<rightharpoonup> string \<times> string list"

definition begin_args :: "string list" where
  "begin_args = [''_1'', ''_2'', ''_3'', ''_4'']"

definition end_args :: "string list" where
  "end_args = [''_1'', ''_2'']"

text \<open>
  A function can be bound if the class declares it; an operation takes a bound function of its
  arity that the class declares with its message type.
\<close>

definition makes_begin :: "member list \<Rightarrow> string \<Rightarrow> string \<Rightarrow> string \<Rightarrow> string \<times> string list \<Rightarrow> bool" where
  "makes_begin ds p c R fn \<longleftrightarrow> p = ''beginOp'' \<and> c = ''BeginOperation'' \<and> snd fn = begin_args \<and>
     Begin_Member (fst fn) R \<in> set ds"

definition makes_end :: "member list \<Rightarrow> string \<Rightarrow> string \<Rightarrow> string \<Rightarrow> string \<times> string list \<Rightarrow> bool" where
  "makes_end ds p c R fn \<longleftrightarrow> p = ''endOp'' \<and> c = ''EndOperation'' \<and> snd fn = end_args \<and>
     End_Member (fst fn) R \<in> set ds"

fun check_stmts :: "member list \<Rightarrow> cxx_locals \<Rightarrow> cxx_stmt list \<Rightarrow> bool" where
  "check_stmts ds loc [] \<longleftrightarrow> True"
| "check_stmts ds loc (Bind v f as # ss) \<longleftrightarrow>
     f \<in> member_name ` set ds \<and> check_stmts ds (loc(v \<mapsto> (f, as))) ss"
| "check_stmts ds loc (Make p c R v # ss) \<longleftrightarrow>
     (case loc v of
        None \<Rightarrow> False
      | Some fn \<Rightarrow> (makes_begin ds p c R fn \<or> makes_end ds p c R fn) \<and> check_stmts ds loc ss)"

definition status_code_named :: "string \<Rightarrow> StatusCode option" where
  "status_code_named = map_of
     [(''OK'', OK), (''UNKNOWN'', UNKNOWN), (''INVALID_ARGUMENT'', INVALID_ARGUMENT),
      (''DEADLINE_EXCEEDED'', DEADLINE_EXCEEDED), (''NOT_FOUND'', NOT_FOUND), (''INTERNAL'', INTERNAL),
      (''FABRIC_TRANSPORT_ERROR'', FABRIC_TRANSPORT_ERROR)]"

definition check_router :: "cxx_header \<Rightarrow> cxx_router \<Rightarrow> bool" where
  "check_router h r \<longleftrightarrow>
     (case find (\<lambda>c. sc_class c = rt_class r) (hd_services h) of
        None \<Rightarrow> False
      | Some c \<Rightarrow> list_all (\<lambda>br. check_stmts (sc_members c) Map.empty (snd br)) (rt_branches r)) \<and>
     status_code_named (rt_code r) \<noteq> None"

text \<open>The body of a stub uses the parameters of a \<open>Begin\<close> or of an \<open>End\<close> function.\<close>

fun check_body :: "member \<Rightarrow> stub_body \<Rightarrow> bool" where
  "check_body (Begin_Member f R) (Exec_Begin u) \<longleftrightarrow> True"
| "check_body (End_Member f R) Exec_End \<longleftrightarrow> True"
| "check_body _ _ \<longleftrightarrow> False"

definition check_client :: "cxx_header \<Rightarrow> cxx_client \<Rightarrow> bool" where
  "check_client h k \<longleftrightarrow>
     cl_constructor k = cl_class k \<and>
     (case find (\<lambda>c. cc_class c = cl_class k) (hd_clients h) of
        None \<Rightarrow> False
      | Some c \<Rightarrow> cc_constructor c = cc_class c \<and>
          list_all (\<lambda>b. st_class b = cl_class k \<and> st_member b \<in> set (cc_members c) \<and>
            check_body (st_member b) (st_body b)) (cl_stubs k))"

definition check_program :: "cxx_header \<Rightarrow> cxx_source \<Rightarrow> bool" where
  "check_program h s \<longleftrightarrow>
     hd_namespace h = src_namespace s \<and> hd_client_namespace h = src_client_namespace s \<and>
     list_all (check_router h) (src_routers s) \<and> list_all (check_client h) (src_clients s)"

text \<open>The program of two files, if both can be read and the definitions pass the check.\<close>

definition program :: "string \<Rightarrow> string \<Rightarrow> (cxx_header \<times> cxx_source) option" where
  "program header source = do {
     h \<leftarrow> read_header header;
     s \<leftarrow> read_source source;
     if check_program h s then Some (h, s) else None
   }"

section \<open>Running\<close>

text \<open>
  An object of a class derived from a service: for each member function, the operation that
  \<open>BeginOperation\<close> or \<open>EndOperation\<close> makes of it with the message type it is declared with.
\<close>

record ('c, 'u) service_object =
  begin_member :: "string \<Rightarrow> ('c, 'u) IBeginOperation"
  end_member :: "string \<Rightarrow> ('c, 'u) IEndOperation"

fun exec_stmts ::
    "member list \<Rightarrow> ('c, 'u) service_object \<Rightarrow> cxx_stmt list \<Rightarrow> cxx_locals \<Rightarrow> ('c, 'u) operations \<Rightarrow>
     ('c, 'u) operations option" where
  "exec_stmts ds obj [] loc ops = Some ops"
| "exec_stmts ds obj (Bind v f as # ss) loc ops = exec_stmts ds obj ss (loc(v \<mapsto> (f, as))) ops"
| "exec_stmts ds obj (Make p c R v # ss) loc ops = do {
     fn \<leftarrow> loc v;
     if makes_begin ds p c R fn then exec_stmts ds obj ss loc (Some (begin_member obj (fst fn)), snd ops)
     else if makes_end ds p c R fn then exec_stmts ds obj ss loc (fst ops, Some (end_member obj (fst fn)))
     else None
   }"

definition run_router ::
    "member list \<Rightarrow> ('c, 'u) service_object \<Rightarrow> cxx_router \<Rightarrow> string \<Rightarrow> ('c, 'u) operations \<Rightarrow>
     (Status \<times> ('c, 'u) operations) option" where
  "run_router ds obj r u ops =
     (case find (\<lambda>br. u = fst br) (rt_branches r) of
        Some br \<Rightarrow> do {
          ops' \<leftarrow> exec_stmts ds obj (snd br) Map.empty ops;
          Some (Status0, ops')
        }
      | None \<Rightarrow> do {
          code \<leftarrow> status_code_named (rt_code r);
          Some (Status2 (code_value code) (rt_message r @ u), ops)
        })"

text \<open>\<open>Route\<close> of an object of the class \<open>S::Service\<close> in the program of two files.\<close>

definition run_route ::
    "string \<Rightarrow> string \<Rightarrow> string \<Rightarrow> ('c, 'u) service_object \<Rightarrow> string \<Rightarrow> ('c, 'u) operations \<Rightarrow>
     (Status \<times> ('c, 'u) operations) option" where
  "run_route header source S obj u ops = do {
     (h, s) \<leftarrow> program header source;
     c \<leftarrow> find (\<lambda>c. sc_class c = S) (hd_services h);
     r \<leftarrow> find (\<lambda>r. rt_class r = S) (src_routers s);
     run_router (sc_members c) obj r u ops
   }"

text \<open>The URL that the function \<open>f\<close> of the client class \<open>C\<close> passes to \<open>ExecClientBegin\<close>.\<close>

definition stub_url :: "string \<Rightarrow> string \<Rightarrow> string \<Rightarrow> string \<Rightarrow> string option" where
  "stub_url header source C f = do {
     (h, s) \<leftarrow> program header source;
     k \<leftarrow> find (\<lambda>k. cl_class k = C) (src_clients s);
     b \<leftarrow> find (\<lambda>b. member_name (st_member b) = f) (cl_stubs k);
     (case st_body b of Exec_Begin u \<Rightarrow> Some u | Exec_End \<Rightarrow> None)
   }"

text \<open>A program that passes the check runs: no operation is made of something that does not fit.\<close>

lemma check_stmts_exec: "check_stmts ds loc ss \<Longrightarrow> exec_stmts ds obj ss loc ops \<noteq> None"
  by (induction ds loc ss arbitrary: ops rule: check_stmts.induct) (auto split: option.splits)

lemma find_SomeD: "find P xs = Some x \<Longrightarrow> P x \<and> x \<in> set xs"
  by (auto simp: find_Some_iff in_set_conv_nth)

lemma find_distinct: "x \<in> set xs \<Longrightarrow> distinct (map k xs) \<Longrightarrow> find (\<lambda>y. k y = k x) xs = Some x"
  by (induction xs) (auto simp: image_iff)

lemma find_map: "find P (map f xs) = map_option f (find (P \<circ> f) xs)"
  by (induction xs) simp_all

lemma checked_program_runs:
  assumes "program header source = Some (h, s)" and "r \<in> set (src_routers s)"
    and "distinct (map rt_class (src_routers s))"
  shows "run_route header source (rt_class r) obj u ops \<noteq> None"
proof -
  have check: "check_router h r"
    using assms(1,2) by (auto simp: program_def check_program_def list_all_iff
        split: Option.bind_splits if_splits)
  obtain c where c: "find (\<lambda>c. sc_class c = rt_class r) (hd_services h) = Some c"
    and brs: "list_all (\<lambda>br. check_stmts (sc_members c) Map.empty (snd br)) (rt_branches r)"
    and code: "status_code_named (rt_code r) \<noteq> None"
    using check by (auto simp: check_router_def split: option.splits)
  have "find (\<lambda>r'. rt_class r' = rt_class r) (src_routers s) = Some r"
    by (rule find_distinct[OF assms(2,3)])
  moreover have "run_router (sc_members c) obj r u ops \<noteq> None"
  proof (cases "find (\<lambda>br. u = fst br) (rt_branches r)")
    case None
    then show ?thesis using code by (auto simp: run_router_def)
  next
    case (Some br)
    then have "check_stmts (sc_members c) Map.empty (snd br)"
      using brs find_SomeD[OF Some] by (simp add: list_all_iff)
    from check_stmts_exec[OF this, of obj ops] show ?thesis using Some by (auto simp: run_router_def)
  qed
  ultimately show ?thesis by (simp add: run_route_def assms(1) c)
qed

section \<open>The generated program\<close>

text \<open>The files the plugin can serve: every service has methods and none of them streams.\<close>

definition supported :: "file_descriptor \<Rightarrow> bool" where
  "supported file \<longleftrightarrow>
     list_all (\<lambda>s. sd_methods s \<noteq> [] \<and> list_all no_streaming (sd_methods s)) (fd_services file)"

lemma members_of_iff:
  "Begin_Member f R \<in> set (members_of s) \<longleftrightarrow>
     (\<exists>m \<in> set (sd_methods s). no_streaming m \<and> f = ''Begin'' @ md_name m \<and> R = md_input m)"
  "End_Member f R \<in> set (members_of s) \<longleftrightarrow>
     (\<exists>m \<in> set (sd_methods s). no_streaming m \<and> f = ''End'' @ md_name m \<and> R = md_output m)"
  by (auto simp: members_of_def method_members_def)

lemma member_names_iff:
  "f \<in> member_name ` set (members_of s) \<longleftrightarrow>
     (\<exists>m \<in> set (sd_methods s). no_streaming m \<and> (f = ''Begin'' @ md_name m \<or> f = ''End'' @ md_name m))"
  by (force simp: members_of_def method_members_def)

lemma find_service_class:
  assumes "proto_file file" and "s \<in> set (fd_services file)"
  shows "find (\<lambda>c. sc_class c = sd_name s) (hd_services (header_of file)) = Some (service_class_of file s)"
    and "find (\<lambda>c. cc_class c = sd_name s @ ''Client'') (hd_clients (header_of file)) = Some (client_class_of s)"
    and "find (\<lambda>r. rt_class r = sd_name s) (src_routers (source_of file)) = Some (router_of file s)"
    and "find (\<lambda>k. cl_class k = sd_name s @ ''Client'') (src_clients (source_of file)) = Some (client_of file s)"
  using find_distinct[OF assms(2), of sd_name] assms(1)
  by (simp_all add: proto_file_def header_of_def source_of_def find_map comp_def service_class_of_def
      client_class_of_def router_of_def client_of_def)

lemma check_method_stmts:
  assumes "distinct (map md_name (sd_methods s))" and "m \<in> set (sd_methods s)"
  shows "check_stmts (members_of s) Map.empty (method_stmts m) \<longleftrightarrow> no_streaming m"
proof -
  have "m' = m" if "m' \<in> set (sd_methods s)" "md_name m' = md_name m" for m'
    using assms that by (metis distinct_map inj_onD)
  then show ?thesis
    using assms(2) unfolding method_stmts_def
    by (auto simp: member_names_iff members_of_iff makes_begin_def makes_end_def begin_args_def end_args_def)
qed

lemma check_generated_router:
  assumes "proto_file file" and "s \<in> set (fd_services file)"
  shows "check_router (header_of file) (router_of file s) \<longleftrightarrow> list_all no_streaming (sd_methods s)"
proof -
  have "distinct (map md_name (sd_methods s))"
    using proto_services[OF assms] by (simp add: proto_service_def)
  from check_method_stmts[OF this] show ?thesis
    using find_service_class(1)[OF assms]
    by (auto simp: check_router_def router_of_def service_class_of_def status_code_named_def list_all_iff)
qed

lemma check_generated_client:
  assumes "proto_file file" and "s \<in> set (fd_services file)"
  shows "check_client (header_of file) (client_of file s)"
  using find_service_class(2)[OF assms]
  by (auto simp: check_client_def client_of_def client_class_of_def list_all_iff method_stubs_def members_of_iff)

lemma generated_program:
  assumes "proto_file file"
  shows "program (header_head file @ header_services_text file @ header_clients_text file)
      (source_head file @ services_text file @ clients_text file) =
    (if supported file then Some (header_of file, source_of file) else None)"
proof -
  have "check_program (header_of file) (source_of file) \<longleftrightarrow>
      (\<forall>s \<in> set (fd_services file). list_all no_streaming (sd_methods s))"
    using check_generated_router[OF assms] check_generated_client[OF assms]
    by (auto simp: check_program_def list_all_iff)
      (auto simp: header_of_def source_of_def)
  then show ?thesis
    using read_generated_header[OF assms] read_generated_source[OF assms]
    by (auto simp: program_def supported_def has_methods_def list_all_iff)
qed

text \<open>The router of the model for an object of the generated class.\<close>

definition object_service ::
    "file_descriptor \<Rightarrow> service_descriptor \<Rightarrow> ('c, 'u) service_object \<Rightarrow> ('c, 'u) generated_service" where
  "object_service file s obj =
     \<lparr>gs_package = fd_package file, gs_service = sd_name s,
      gs_methods = map (\<lambda>m.
        \<lparr>gm_name = md_name m, gm_begin = begin_member obj (''Begin'' @ md_name m),
         gm_end = end_member obj (''End'' @ md_name m)\<rparr>) (sd_methods s)\<rparr>"

lemma exec_method_stmts:
  assumes "Begin_Member (''Begin'' @ md_name m) (md_input m) \<in> set ds"
    and "End_Member (''End'' @ md_name m) (md_output m) \<in> set ds"
  shows "exec_stmts ds obj (method_stmts m) Map.empty ops =
    Some (Some (begin_member obj (''Begin'' @ md_name m)), Some (end_member obj (''End'' @ md_name m)))"
  using assms by (simp add: method_stmts_def makes_begin_def makes_end_def begin_args_def end_args_def)

lemma run_generated_router:
  assumes "list_all no_streaming (sd_methods s)"
  shows "run_router (members_of s) obj (router_of file s) u ops =
    Some (Service_Route (object_service file s obj) u ops)"
proof -
  let ?url = "\<lambda>m. method_url (fd_package file) (sd_name s) (md_name m)"
  have route: "Route_methods (fd_package file) (sd_name s)
      (map (\<lambda>m. \<lparr>gm_name = md_name m, gm_begin = begin_member obj (''Begin'' @ md_name m),
         gm_end = end_member obj (''End'' @ md_name m)\<rparr>) ms) u ops =
      (case find (\<lambda>m. u = ?url m) ms of
         None \<Rightarrow> (not_found u, ops)
       | Some m \<Rightarrow> (Status0, Some (begin_member obj (''Begin'' @ md_name m)),
           Some (end_member obj (''End'' @ md_name m))))" for ms
    by (induction ms) auto
  have model: "Service_Route (object_service file s obj) u ops =
      (case find (\<lambda>m. u = ?url m) (sd_methods s) of
         None \<Rightarrow> (not_found u, ops)
       | Some m \<Rightarrow> (Status0, Some (begin_member obj (''Begin'' @ md_name m)),
           Some (end_member obj (''End'' @ md_name m))))"
    unfolding Service_Route_def object_service_def generated_service.simps by (rule route)
  show ?thesis
  proof (cases "find (\<lambda>m. u = ?url m) (sd_methods s)")
    case None
    then show ?thesis
      unfolding model
      by (simp add: run_router_def router_of_def find_map comp_def status_code_named_def not_found_def)
  next
    case (Some m)
    then have "exec_stmts (members_of s) obj (method_stmts m) Map.empty ops =
        Some (Some (begin_member obj (''Begin'' @ md_name m)), Some (end_member obj (''End'' @ md_name m)))"
      using find_SomeD[OF Some] assms
      by (intro exec_method_stmts) (auto simp: members_of_iff list_all_iff)
    then show ?thesis
      unfolding model using Some by (simp add: run_router_def router_of_def find_map comp_def)
  qed
qed

lemma supportedD:
  "supported file \<Longrightarrow> s \<in> set (fd_services file) \<Longrightarrow> sd_methods s \<noteq> [] \<and> list_all no_streaming (sd_methods s)"
  by (simp add: supported_def list_all_iff)

section \<open>The properties of the generated program\<close>

lemma first_plugin_writes:
  assumes "boost_laws B" and "proto_file file"
  shows "Generate b B file = Inr
    [(getProtoNameNoExt (fd_name file) @ ''.fabricrpc.h'',
      header_head file @ header_services_text file @ header_clients_text file),
     (getProtoNameNoExt (fd_name file) @ ''.fabricrpc.cc'',
      source_head file @ services_text file @ clients_text file)]"
  using GenerateHeaderContent_text[OF assms(1) proto_good(3)[OF assms(2)]]
    GenerateCCContent_text[OF assms(1) proto_good(3)[OF assms(2)]]
  by (simp add: Generate_def Let_def)

lemma run_generated_route:
  assumes "proto_file file" and "supported file" and "s \<in> set (fd_services file)"
  shows "run_route (header_head file @ header_services_text file @ header_clients_text file)
      (source_head file @ services_text file @ clients_text file) (sd_name s) obj u ops =
    Some (Service_Route (object_service file s obj) u ops)"
  using generated_program[OF assms(1)] assms(2) find_service_class(1,3)[OF assms(1,3)]
    run_generated_router[of s obj "file" u ops]
    supportedD[OF assms(2,3)]
  by (simp add: run_route_def service_class_of_def)

lemma find_stub:
  assumes "m \<in> set ms" and "distinct (map md_name ms)"
  shows "find (\<lambda>b. member_name (st_member b) = ''Begin'' @ md_name m) (concat (map (method_stubs file s) ms)) =
    Some (method_stubs file s m ! 0)"
  using assms by (induction ms) (auto simp: method_stubs_def)

lemma generated_stub_url:
  assumes "proto_file file" and "supported file" and "s \<in> set (fd_services file)"
    and "m \<in> set (sd_methods s)"
  shows "stub_url (header_head file @ header_services_text file @ header_clients_text file)
      (source_head file @ services_text file @ clients_text file) (sd_name s @ ''Client'') (''Begin'' @ md_name m) =
    Some (method_url (fd_package file) (sd_name s) (md_name m))"
proof -
  have "distinct (map md_name (sd_methods s))"
    using proto_services[OF assms(1,3)] by (simp add: proto_service_def)
  note stub = find_stub[OF assms(4) this, of "file" s]
  have "filter no_streaming (sd_methods s) = sd_methods s"
    using supportedD[OF assms(2,3)] by (simp add: list_all_iff)
  then have k: "cl_stubs (client_of file s) = concat (map (method_stubs file s) (sd_methods s))"
    by (simp add: client_of_def)
  have "st_body (method_stubs file s m ! 0) = Exec_Begin (method_url (fd_package file) (sd_name s) (md_name m))"
    by (simp add: method_stubs_def)
  then show ?thesis
    unfolding stub_url_def generated_program[OF assms(1)]
    using assms(2) find_service_class(4)[OF assms(1,3)] stub by (simp add: k)
qed

text \<open>The files of the two examples, and objects of the classes that implement their services.\<close>

definition plain_method :: "string \<Rightarrow> string \<Rightarrow> string \<Rightarrow> method_descriptor" where
  "plain_method name input output =
     \<lparr>md_name = name, md_input = input, md_output = output,
      md_client_streaming = False, md_server_streaming = False\<rparr>"

definition helloworld_proto :: file_descriptor where
  "helloworld_proto =
     \<lparr>fd_name = ''helloworld.proto'', fd_package = ''helloworld'',
      fd_services = [\<lparr>sd_name = ''FabricHello'',
        sd_methods = [plain_method ''SayHello'' ''FabricRequest'' ''FabricResponse'']\<rparr>]\<rparr>"

definition todolist_proto :: file_descriptor where
  "todolist_proto =
     \<lparr>fd_name = ''todolist.proto'', fd_package = ''todolist'',
      fd_services = [\<lparr>sd_name = ''Todo'',
        sd_methods =
          [plain_method ''Find'' ''FindRequest'' ''FindResponse'',
           plain_method ''AddOne'' ''AddOneRequest'' ''AddOneResponse'',
           plain_method ''DeleteOne'' ''DeleteOneRequest'' ''DeleteOneResponse'']\<rparr>]\<rparr>"

lemma example_protos:
  "proto_file helloworld_proto" "supported helloworld_proto"
  "proto_file todolist_proto" "supported todolist_proto"
  by code_simp+

definition hello_object :: "string codec \<Rightarrow> string codec \<Rightarrow> (string, 'u) service_object" where
  "hello_object Req Resp =
     \<lparr>begin_member = (\<lambda>f. BeginOperation_Invoke Req BeginSayHello),
      end_member = (\<lambda>f. EndOperation_Invoke Resp EndSayHello)\<rparr>"

definition todo_object ::
    "unit codec \<Rightarrow> Item list codec \<Rightarrow> Item codec \<Rightarrow> int codec \<Rightarrow> (todo_ctx, todo_items) service_object" where
  "todo_object FindReq FindResp ItemMsg IdMsg =
     \<lparr>begin_member = (\<lambda>f.
        if f = ''BeginFind'' then BeginOperation_Invoke FindReq BeginFind
        else if f = ''BeginAddOne'' then BeginOperation_Invoke ItemMsg BeginAddOne
        else BeginOperation_Invoke IdMsg BeginDeleteOne),
      end_member = (\<lambda>f.
        if f = ''EndFind'' then EndOperation_Invoke FindResp EndFind
        else if f = ''EndAddOne'' then EndOperation_Invoke ItemMsg EndAddOne
        else EndOperation_Invoke ItemMsg EndDeleteOne)\<rparr>"

text \<open>The file of the header and the file of the source, run together.\<close>

definition run_files ::
    "(string \<times> string) list \<Rightarrow> string \<Rightarrow> ('c, 'u) service_object \<Rightarrow> string \<Rightarrow> ('c, 'u) operations \<Rightarrow>
     (Status \<times> ('c, 'u) operations) option" where
  "run_files files S obj u ops =
     (case files of
        [(h, header), (c, source)] \<Rightarrow> run_route header source S obj u ops
      | _ \<Rightarrow> None)"

definition url_in_files :: "(string \<times> string) list \<Rightarrow> string \<Rightarrow> string \<Rightarrow> string option" where
  "url_in_files files C f =
     (case files of
        [(h, header), (c, source)] \<Rightarrow> stub_url header source C f
      | _ \<Rightarrow> None)"

definition files_compile :: "(string \<times> string) list \<Rightarrow> bool" where
  "files_compile files \<longleftrightarrow>
     (case files of
        [(h, header), (c, source)] \<Rightarrow> program header source \<noteq> None
      | _ \<Rightarrow> False)"

text \<open>
  C9: the generated router.  The text that the plugin writes for a file with methods without
  streaming, read as C++, is a program in which \<open>Route\<close> of every service does what the model of
  the runtime library assumes of it: it answers the URL of a method with the operations on the
  member functions \<open>BeginM\<close> and \<open>EndM\<close> of this method, with the message types of the file, and
  every other URL with \<open>NOT_FOUND\<close>, for every object and every state of the out-parameters.
\<close>

theorem generated_router_correct:
  assumes "boost_laws B" and "proto_file file" and "supported file" and "s \<in> set (fd_services file)"
  shows "\<exists>files. Generate b B file = Inr files \<and>
    run_files files (sd_name s) obj u ops = Some (Service_Route (object_service file s obj) u ops)"
  using first_plugin_writes[OF assms(1,2)] run_generated_route[OF assms(2-4)]
  by (simp add: run_files_def)

theorem generated_router_correct_witness:
  "\<exists>files. Generate Debug boost_ref helloworld_proto = Inr files \<and>
    run_files files ''FabricHello'' (hello_object text_codec text_codec) ''/helloworld.FabricHello/Other'' (None, None) =
      Some (not_found ''/helloworld.FabricHello/Other'', (None, None) :: (string, nat) operations)"
proof -
  let ?s = "hd (fd_services helloworld_proto)"
  have s: "?s \<in> set (fd_services helloworld_proto)" and n: "sd_name ?s = ''FabricHello''"
    by (simp_all add: helloworld_proto_def)
  have "Service_Route (object_service helloworld_proto ?s (hello_object text_codec text_codec))
      ''/helloworld.FabricHello/Other'' (None, None) =
      (not_found ''/helloworld.FabricHello/Other'', (None, None) :: (string, nat) operations)"
    by (simp add: Service_Route_def object_service_def helloworld_proto_def plain_method_def method_url_def
        package_prefix_def)
  with generated_router_correct[OF boost_ref_laws example_protos(1,2) s, where b = Debug
      and obj = "hello_object text_codec text_codec" and u = "''/helloworld.FabricHello/Other''"
      and ops = "(None, None) :: (string, nat) operations"]
  show ?thesis by (simp add: n)
qed

text \<open>
  C19: what the plugin cannot translate.  The generated program is refused by the grammar or by
  the check of its declarations exactly when a service has no methods, because its router is an
  \<open>else\<close> without an \<open>if\<close>, or when a method streams, because its functions are bound and not declared.
\<close>

theorem generated_code_compiles_iff:
  assumes "boost_laws B" and "proto_file file"
  shows "\<exists>files. Generate b B file = Inr files \<and>
    (files_compile files \<longleftrightarrow>
      (\<forall>s \<in> set (fd_services file). sd_methods s \<noteq> [] \<and> (\<forall>m \<in> set (sd_methods s). no_streaming m)))"
  using first_plugin_writes[OF assms] generated_program[OF assms(2)]
  by (simp add: files_compile_def supported_def list_all_iff)

theorem generated_code_compiles_iff_witness:
  "(\<exists>files. Generate Release boost_ref todolist_proto = Inr files \<and> files_compile files) \<and>
   (\<exists>files. Generate Release boost_ref demo_file = Inr files \<and> \<not> files_compile files)"
proof -
  have demo: "proto_file demo_file" "\<not> no_streaming (demo_method ''Listen'' True)"
    by code_simp+
  have "\<exists>files. Generate Release boost_ref todolist_proto = Inr files \<and> files_compile files"
    using generated_code_compiles_iff[OF boost_ref_laws example_protos(3), of Release] example_protos(4)
    by (simp add: supported_def list_all_iff)
  moreover have "\<exists>files. Generate Release boost_ref demo_file = Inr files \<and> \<not> files_compile files"
    using generated_code_compiles_iff[OF boost_ref_laws demo(1), of Release] demo(2)
    by (auto simp: demo_file_def demo_service_def)
  ultimately show ?thesis ..
qed

lemma service_urls_differ:
  assumes "name_token a" and "name_token b" and "a \<noteq> b"
  shows "method_url p a m \<noteq> method_url p b n"
proof
  assume "method_url p a m = method_url p b n"
  then have eq: "a @ CHR ''/'' # m = b @ CHR ''/'' # n" by (simp add: method_url_def)
  have "CHR ''/'' \<notin> set w" if "name_token w" for w
  proof -
    have "\<not> word_char (CHR ''/'')" by code_simp
    then show ?thesis using that by (auto simp: name_token_def list_all_iff)
  qed
  then have "takeWhile (\<lambda>c. c \<noteq> CHR ''/'') (w @ CHR ''/'' # v) = w" if "name_token w" for w v
    using that by (subst takeWhile_append2) auto
  then show False using assms eq by metis
qed

text \<open>
  C10: a generated call arrives.  The function \<open>BeginM\<close> of the generated client passes a URL to
  \<open>ExecClientBegin\<close> on which the generated router of the service, in the same files, chooses the
  operations on \<open>BeginM\<close> and \<open>EndM\<close> of the object, whatever the out-parameters were; no other method
  of the service and no method of another service of the file gets the call.
\<close>

theorem generated_call_arrives:
  fixes obj obj' :: "('c, 'u) service_object"
  assumes "boost_laws B" and "proto_file file" and "supported file" and "s \<in> set (fd_services file)"
    and "m \<in> set (sd_methods s)"
  shows "\<exists>files u. Generate b B file = Inr files \<and>
    url_in_files files (sd_name s @ ''Client'') (''Begin'' @ md_name m) = Some u \<and>
    run_files files (sd_name s) obj u ops =
      Some (Status0, Some (begin_member obj (''Begin'' @ md_name m)), Some (end_member obj (''End'' @ md_name m))) \<and>
    (\<forall>s' \<in> set (fd_services file). s' \<noteq> s \<longrightarrow> run_files files (sd_name s') obj' u ops = Some (not_found u, ops))"
proof -
  let ?u = "method_url (fd_package file) (sd_name s) (md_name m)"
  have names: "distinct (map md_name (sd_methods s))"
    using proto_services[OF assms(2,4)] by (simp add: proto_service_def)
  have "Route_methods (fd_package file) (sd_name s)
      (map (\<lambda>m. \<lparr>gm_name = md_name m, gm_begin = begin_member obj (''Begin'' @ md_name m),
         gm_end = end_member obj (''End'' @ md_name m)\<rparr>) ms) ?u ops =
      (Status0, Some (begin_member obj (''Begin'' @ md_name m)), Some (end_member obj (''End'' @ md_name m)))"
    if "m \<in> set ms" and "distinct (map md_name ms)" for ms
    using that by (induction ms) (auto simp: image_iff)
  from this[OF assms(5) names] have own: "Service_Route (object_service file s obj) ?u ops =
      (Status0, Some (begin_member obj (''Begin'' @ md_name m)), Some (end_member obj (''End'' @ md_name m)))"
    by (simp add: Service_Route_def object_service_def)
  have other: "Service_Route (object_service file s' obj') ?u ops = (not_found ?u, ops)"
    if "s' \<in> set (fd_services file)" "s' \<noteq> s" for s'
  proof -
    have "sd_name s' \<noteq> sd_name s"
      using assms(2,4) that by (auto simp: proto_file_def distinct_map dest: inj_onD)
    moreover have "name_token (sd_name s')" "name_token (sd_name s)"
      using proto_services[OF assms(2)] assms(4) that(1) by (simp_all add: proto_service_def)
    ultimately have "?u \<noteq> method_url (fd_package file) (sd_name s') x" for x
      using service_urls_differ[of "sd_name s" "sd_name s'" "fd_package file" "md_name m" x] by simp
    then have "Route_methods (fd_package file) (sd_name s') ms ?u ops = (not_found ?u, ops)"
      for ms :: "('c, 'u) generated_method list"
      by (induction ms) auto
    then show ?thesis by (simp add: Service_Route_def object_service_def)
  qed
  show ?thesis
    using first_plugin_writes[OF assms(1,2)] run_generated_route[OF assms(2-4), of obj ?u ops] own other
      run_generated_route[OF assms(2,3), where obj = obj' and u = ?u and ops = ops]
      generated_stub_url[OF assms(2-5)]
    by (simp add: run_files_def url_in_files_def)
qed

theorem generated_call_arrives_witness:
  "\<exists>files u. Generate Debug boost_ref helloworld_proto = Inr files \<and>
    url_in_files files ''FabricHelloClient'' ''BeginSayHello'' = Some u \<and>
    run_files files ''FabricHello'' (hello_object text_codec text_codec) u ((None, None) :: (string, nat) operations) =
      Some (Status0, Some (BeginOperation_Invoke text_codec BeginSayHello),
        Some (EndOperation_Invoke text_codec EndSayHello))"
proof -
  let ?s = "hd (fd_services helloworld_proto)"
  have s: "?s \<in> set (fd_services helloworld_proto)" and n: "sd_name ?s = ''FabricHello''"
    and m: "plain_method ''SayHello'' ''FabricRequest'' ''FabricResponse'' \<in> set (sd_methods ?s)"
    by (simp_all add: helloworld_proto_def)
  from generated_call_arrives[OF boost_ref_laws example_protos(1,2) s m, where b = Debug
      and obj = "hello_object text_codec text_codec" and obj' = "hello_object text_codec text_codec"
      and ops = "(None, None) :: (string, nat) operations"]
  show ?thesis by (auto simp: n plain_method_def hello_object_def)
qed

text \<open>
  C18: the example services are generated.  For helloworld.proto and todolist.proto the generated
  \<open>Route\<close>, run on an object of the class that implements the service, is the router with which the
  model describes the hello server and the to-do server.
\<close>

theorem example_routers_generated:
  assumes "boost_laws B"
  shows "\<exists>hello todo. Generate b B helloworld_proto = Inr hello \<and> Generate b B todolist_proto = Inr todo \<and>
    run_files hello ''FabricHello'' (hello_object Req Resp) u ops =
      Some (Service_Route (hello_service Req Resp) u ops) \<and>
    run_files todo ''Todo'' (todo_object FindReq FindResp ItemMsg IdMsg) u' ops' =
      Some (Service_Route (todo_service FindReq FindResp ItemMsg IdMsg) u' ops')"
proof -
  let ?h = "hd (fd_services helloworld_proto)" and ?t = "hd (fd_services todolist_proto)"
  have in_files: "?h \<in> set (fd_services helloworld_proto)" "?t \<in> set (fd_services todolist_proto)"
    and names: "sd_name ?h = ''FabricHello''" "sd_name ?t = ''Todo''"
    by (simp_all add: helloworld_proto_def todolist_proto_def)
  have hello: "object_service helloworld_proto ?h (hello_object Req Resp) = hello_service Req Resp"
    by (simp add: object_service_def helloworld_proto_def plain_method_def hello_object_def hello_service_def)
  have todo: "object_service todolist_proto ?t (todo_object FindReq FindResp ItemMsg IdMsg) =
      todo_service FindReq FindResp ItemMsg IdMsg"
    by (simp add: object_service_def todolist_proto_def plain_method_def todo_object_def todo_service_def)
  show ?thesis
    using first_plugin_writes[OF assms example_protos(1)] first_plugin_writes[OF assms example_protos(3)]
      run_generated_route[OF example_protos(1,2) in_files(1), of "hello_object Req Resp" u ops]
      run_generated_route[OF example_protos(3,4) in_files(2), of "todo_object FindReq FindResp ItemMsg IdMsg" u' ops']
    by (simp add: run_files_def names hello todo)
qed

theorem example_routers_generated_witness:
  "\<exists>hello. Generate Release boost_ref helloworld_proto = Inr hello \<and>
    run_files hello ''FabricHello'' (hello_object text_codec text_codec) ''/helloworld.FabricHello/SayHello''
        ((None, None) :: (string, nat) operations) =
      Some (Service_Route (hello_service text_codec text_codec) ''/helloworld.FabricHello/SayHello'' (None, None))"
  using example_routers_generated[OF boost_ref_laws, of Release text_codec text_codec] by blast

end
