(* ===== verification/Second_Grammar.thy ===== *)
theory Second_Grammar
  imports Generated_Program
begin

text \<open>
  The grammar of the header that the second plugin generates: a client class and a service class
  for every service.  As in theory \<open>Source_Grammar\<close>, each construct has a datatype, its tokens and
  a reader.
\<close>

section \<open>Clients\<close>

text \<open>A member template that sends its request to a URL.\<close>

record send_method =
  sm_name :: string
  sm_request :: string
  sm_reply :: string
  sm_url :: string

definition send_toks :: "send_method \<Rightarrow> token list" where
  "send_toks m =
     tokens ''template <typename Token> auto'' @ [Word (sm_name m)] @ tokens ''('' @ [Word (sm_request m)] @
     tokens ''*request,'' @ [Word (sm_reply m)] @
     tokens ''*reply, Token &&token) { static const std::string url ='' @ [Lit (sm_url m)] @
     tokens ''; return conn_.async_send(url, request, reply, std::move(token)); }''"

definition read_send :: "send_method reader" where
  "read_send ts = do {
     ts1 \<leftarrow> expect (tokens ''template <typename Token> auto'') ts;
     (f, ts2) \<leftarrow> read_word ts1;
     ts3 \<leftarrow> expect (tokens ''('') ts2;
     (q, ts4) \<leftarrow> read_word ts3;
     ts5 \<leftarrow> expect (tokens ''*request,'') ts4;
     (r, ts6) \<leftarrow> read_word ts5;
     ts7 \<leftarrow> expect (tokens ''*reply, Token &&token) { static const std::string url ='') ts6;
     (u, ts8) \<leftarrow> read_lit ts7;
     ts9 \<leftarrow> expect (tokens ''; return conn_.async_send(url, request, reply, std::move(token)); }'') ts8;
     Some (\<lparr>sm_name = f, sm_request = q, sm_reply = r, sm_url = u\<rparr>, ts9)
   }"

record client2_class =
  k2_class :: string
  k2_constructor :: string
  k2_methods :: "send_method list"

definition client2_fields :: string where
  "client2_fields = ''private: fabricrpc::rpc_client<executor_type> &conn_; };''"

definition client2_toks :: "client2_class \<Rightarrow> token list" where
  "client2_toks k =
     tokens ''template <typename Executor = net::any_io_executor> class'' @ [Word (k2_class k)] @
     tokens ''{ public: typedef Executor executor_type;'' @ [Word (k2_constructor k)] @
     tokens ''(fabricrpc::rpc_client<executor_type> &conn) : conn_(conn) {}'' @
     concat (map send_toks (k2_methods k)) @ tokens client2_fields"

definition read_client2 :: "client2_class reader" where
  "read_client2 ts = do {
     ts1 \<leftarrow> expect (tokens ''template <typename Executor = net::any_io_executor> class'') ts;
     (c, ts2) \<leftarrow> read_word ts1;
     ts3 \<leftarrow> expect (tokens ''{ public: typedef Executor executor_type;'') ts2;
     (k, ts4) \<leftarrow> read_word ts3;
     ts5 \<leftarrow> expect (tokens ''(fabricrpc::rpc_client<executor_type> &conn) : conn_(conn) {}'') ts4;
     (ms, ts6) \<leftarrow> read_until (expect (tokens client2_fields)) read_send ts5;
     Some (\<lparr>k2_class = c, k2_constructor = k, k2_methods = ms\<rparr>, ts6)
   }"

section \<open>Services\<close>

text \<open>
  A test of \<open>execute\<close> with the call behind it: \<open>codegen_handler_helper\<close> at two message types, on a
  member function that is named twice.
\<close>

record helper_call =
  hc_url :: string
  hc_request :: string
  hc_reply :: string
  hc_type :: "string \<times> string"
  hc_member :: "string \<times> string"

definition helper_toks :: "helper_call \<Rightarrow> token list" where
  "helper_toks c =
     tokens ''if (url =='' @ [Lit (hc_url c)] @ tokens '') { st = co_await fabricrpc::codegen_handler_helper<'' @
     [Word (hc_request c)] @ tokens '','' @ [Word (hc_reply c)] @ tokens '', decltype(&'' @
     [Word (fst (hc_type c))] @ tokens ''::'' @ [Word (snd (hc_type c))] @
     tokens ''), decltype(this)>(req, resp, &'' @ [Word (fst (hc_member c))] @ tokens ''::'' @
     [Word (snd (hc_member c))] @ tokens '', this); }''"

definition read_helper :: "helper_call reader" where
  "read_helper ts = do {
     ts1 \<leftarrow> expect (tokens ''if (url =='') ts;
     (u, ts2) \<leftarrow> read_lit ts1;
     ts3 \<leftarrow> expect (tokens '') { st = co_await fabricrpc::codegen_handler_helper<'') ts2;
     (q, ts4) \<leftarrow> read_word ts3;
     ts5 \<leftarrow> expect (tokens '','') ts4;
     (r, ts6) \<leftarrow> read_word ts5;
     ts7 \<leftarrow> expect (tokens '', decltype(&'') ts6;
     (c, ts8) \<leftarrow> read_word ts7;
     ts9 \<leftarrow> expect (tokens ''::'') ts8;
     (f, ts10) \<leftarrow> read_word ts9;
     ts11 \<leftarrow> expect (tokens ''), decltype(this)>(req, resp, &'') ts10;
     (c', ts12) \<leftarrow> read_word ts11;
     ts13 \<leftarrow> expect (tokens ''::'') ts12;
     (f', ts14) \<leftarrow> read_word ts13;
     ts15 \<leftarrow> expect (tokens '', this); }'') ts14;
     Some (\<lparr>hc_url = u, hc_request = q, hc_reply = r, hc_type = (c, f), hc_member = (c', f')\<rparr>, ts15)
   }"

text \<open>The tests, each but the first behind an \<open>else\<close>, up to the brace of the last \<open>else\<close>.\<close>

fun helpers_toks :: "helper_call list \<Rightarrow> token list" where
  "helpers_toks [] = tokens ''else''"
| "helpers_toks (c # cs) = helper_toks c @ tokens ''else'' @ (if cs = [] then [] else helpers_toks cs)"

lemma read_helper_length: "read_helper ts = Some (c, ts') \<Longrightarrow> length ts' < length ts"
  unfolding read_helper_def
  by (auto split: option.splits Option.bind_splits prod.splits dest!: reader_lengths)

function read_helpers :: "helper_call list reader" where
  "read_helpers ts = do {
     (c, ts1) \<leftarrow> read_helper ts;
     ts2 \<leftarrow> expect (tokens ''else'') ts1;
     case expect (tokens ''{'') ts2 of
       Some ts3 \<Rightarrow> Some ([c], ts3)
     | None \<Rightarrow> do {
         (cs, ts3) \<leftarrow> read_helpers ts2;
         Some (c # cs, ts3)
       }
   }"
  by pat_completeness auto

termination
  by (relation "measure length") (auto dest!: read_helper_length reader_lengths)

declare read_helpers.simps [simp del]

text \<open>A pure virtual function: its name and the namespace and name of its message types.\<close>

record virtual2 =
  v2_name :: string
  v2_request :: "string \<times> string"
  v2_reply :: "string \<times> string"

definition virtual2_toks :: "virtual2 \<Rightarrow> token list" where
  "virtual2_toks v =
     tokens ''virtual net::awaitable<absl::Status>'' @ [Word (v2_name v)] @ tokens ''('' @
     [Word (fst (v2_request v))] @ tokens ''::'' @ [Word (snd (v2_request v))] @ tokens ''*request,'' @
     [Word (fst (v2_reply v))] @ tokens ''::'' @ [Word (snd (v2_reply v))] @ tokens ''*resp) = 0;''"

definition read_virtual2 :: "virtual2 reader" where
  "read_virtual2 ts = do {
     ts1 \<leftarrow> expect (tokens ''virtual net::awaitable<absl::Status>'') ts;
     (f, ts2) \<leftarrow> read_word ts1;
     ts3 \<leftarrow> expect (tokens ''('') ts2;
     (n, ts4) \<leftarrow> read_word ts3;
     ts5 \<leftarrow> expect (tokens ''::'') ts4;
     (q, ts6) \<leftarrow> read_word ts5;
     ts7 \<leftarrow> expect (tokens ''*request,'') ts6;
     (n', ts8) \<leftarrow> read_word ts7;
     ts9 \<leftarrow> expect (tokens ''::'') ts8;
     (r, ts10) \<leftarrow> read_word ts9;
     ts11 \<leftarrow> expect (tokens ''*resp) = 0;'') ts10;
     Some (\<lparr>v2_name = f, v2_request = (n, q), v2_reply = (n', r)\<rparr>, ts11)
   }"

record service2_class =
  s2_class :: string
  s2_name :: string
  s2_calls :: "helper_call list"
  s2_error :: "string \<times> string"
  s2_members :: "virtual2 list"

definition service2_head :: string where
  "service2_head =
     '': public fabricrpc::service { public: const std::string_view name() override { return''"

definition execute_head :: string where
  "execute_head =
     ''; } net::awaitable<absl::Status> execute(const std::string &url, const std::string_view req, '' @
     ''std::string *resp) override { absl::Status st;''"

definition service2_toks :: "service2_class \<Rightarrow> token list" where
  "service2_toks c =
     tokens ''class'' @ [Word (s2_class c)] @ tokens service2_head @ [Lit (s2_name c)] @
     tokens execute_head @ helpers_toks (s2_calls c) @ tokens ''{'' @
     tokens ''st = absl::UnimplementedError(absl::StrCat('' @ [Lit (fst (s2_error c))] @ tokens '', url,'' @
     [Lit (snd (s2_error c))] @ tokens '')); } co_return st; }'' @
     concat (map virtual2_toks (s2_members c)) @ tokens ''};''"

definition read_service2 :: "service2_class reader" where
  "read_service2 ts = do {
     ts1 \<leftarrow> expect (tokens ''class'') ts;
     (c, ts2) \<leftarrow> read_word ts1;
     ts3 \<leftarrow> expect (tokens service2_head) ts2;
     (n, ts4) \<leftarrow> read_lit ts3;
     ts5 \<leftarrow> expect (tokens execute_head) ts4;
     (cs, ts6) \<leftarrow> read_helpers ts5;
     ts7 \<leftarrow> expect (tokens ''st = absl::UnimplementedError(absl::StrCat('') ts6;
     (e, ts8) \<leftarrow> read_lit ts7;
     ts9 \<leftarrow> expect (tokens '', url,'') ts8;
     (e', ts10) \<leftarrow> read_lit ts9;
     ts11 \<leftarrow> expect (tokens '')); } co_return st; }'') ts10;
     (vs, ts12) \<leftarrow> read_until (expect (tokens ''};'')) read_virtual2 ts11;
     Some (\<lparr>s2_class = c, s2_name = n, s2_calls = cs, s2_error = (e, e'), s2_members = vs\<rparr>, ts12)
   }"

section \<open>The file\<close>

text \<open>The preprocessor lines and two namespaces, the clients before the services.\<close>

record header2 =
  h2_client_namespace :: string
  h2_clients :: "client2_class list"
  h2_namespace :: string
  h2_services :: "service2_class list"

definition header2_toks :: "header2 \<Rightarrow> token list" where
  "header2_toks h =
     tokens ''namespace'' @ [Word (h2_client_namespace h)] @ tokens ''{'' @ tokens ''namespace net = boost::asio;'' @
     concat (map client2_toks (h2_clients h)) @ tokens ''}'' @
     tokens ''namespace'' @ [Word (h2_namespace h)] @ tokens ''{'' @ tokens ''namespace net = boost::asio;'' @
     concat (map service2_toks (h2_services h)) @ tokens ''}''"

definition read_header2 :: "string \<Rightarrow> header2 option" where
  "read_header2 text = do {
     (ns, ts1) \<leftarrow> read_namespace (skip_preprocessor (tokens text));
     ts2 \<leftarrow> expect (tokens ''namespace net = boost::asio;'') ts1;
     (ks, ts3) \<leftarrow> read_until (expect (tokens ''}'')) read_client2 ts2;
     (ns', ts4) \<leftarrow> read_namespace ts3;
     ts5 \<leftarrow> expect (tokens ''namespace net = boost::asio;'') ts4;
     (cs, ts6) \<leftarrow> read_until (expect (tokens ''}'')) read_service2 ts5;
     if ts6 = []
     then Some \<lparr>h2_client_namespace = ns, h2_clients = ks, h2_namespace = ns', h2_services = cs\<rparr>
     else None
   }"

section \<open>Reading what was written\<close>

lemma second_heads:
  "hd (tokens ''template <typename Token> auto'') = Word ''template''"
  "tokens ''template <typename Token> auto'' \<noteq> []"
  "hd (tokens ''template <typename Executor = net::any_io_executor> class'') = Word ''template''"
  "tokens ''template <typename Executor = net::any_io_executor> class'' \<noteq> []"
  "hd (tokens client2_fields) = Word ''private''" "tokens client2_fields \<noteq> []"
  "hd (tokens ''virtual net::awaitable<absl::Status>'') = Word ''virtual''"
  "tokens ''virtual net::awaitable<absl::Status>'' \<noteq> []"
  "tokens ''};'' = [Punct (CHR ''}''), Punct (CHR '';'')]"
  by code_simp+

lemma read_send_toks [simp]: "read_send (send_toks m @ ts) = Some (m, ts)"
  by (simp add: read_send_def send_toks_def)

lemma item2_heads:
  "hd (send_toks m) = Word ''template''" "send_toks m \<noteq> []"
  "hd (client2_toks k) = Word ''template''" "client2_toks k \<noteq> []"
  "hd (virtual2_toks v) = Word ''virtual''" "virtual2_toks v \<noteq> []"
  "hd (service2_toks c) = Word ''class''" "service2_toks c \<noteq> []"
  by (simp_all add: send_toks_def client2_toks_def virtual2_toks_def service2_toks_def second_heads more_head_toks)

lemma read_client2_toks [simp]: "read_client2 (client2_toks k @ ts) = Some (k, ts)"
proof -
  have "read_until (expect (tokens client2_fields)) read_send
      (concat (map send_toks (k2_methods k)) @ tokens client2_fields @ ts) = Some (k2_methods k, ts)"
    by (rule read_until_items) (auto simp: item2_heads second_heads intro!: expect_differs)
  then show ?thesis by (simp add: read_client2_def client2_toks_def)
qed

lemma read_helper_toks [simp]: "read_helper (helper_toks c @ ts) = Some (c, ts)"
  by (simp add: read_helper_def helper_toks_def)

lemma read_helpers_toks:
  assumes "cs \<noteq> []"
  shows "read_helpers (helpers_toks cs @ tokens ''{'' @ ts) = Some (cs, ts)"
  using assms
proof (induction cs)
  case Nil
  then show ?case by simp
next
  case (Cons c cs)
  show ?case
  proof (cases cs)
    case Nil
    then show ?thesis by (subst read_helpers.simps) simp
  next
    case (Cons c' cs')
    have "expect (tokens ''{'') (helpers_toks cs @ us) = None" for us
      by (simp add: Cons helper_toks_def small_toks expect_Cons)
    moreover have "read_helpers (helpers_toks cs @ tokens ''{'' @ ts) = Some (cs, ts)"
      using Cons.IH Cons by simp
    ultimately show ?thesis using Cons by (subst read_helpers.simps) simp
  qed
qed

lemma read_virtual2_toks [simp]: "read_virtual2 (virtual2_toks v @ ts) = Some (v, ts)"
  by (simp add: read_virtual2_def virtual2_toks_def)

lemma read_service2_toks:
  assumes "s2_calls c \<noteq> []"
  shows "read_service2 (service2_toks c @ ts) = Some (c, ts)"
proof -
  have "read_until (expect (tokens ''};'')) read_virtual2
      (concat (map virtual2_toks (s2_members c)) @ tokens ''};'' @ ts) = Some (s2_members c, ts)"
    by (rule read_until_items) (auto simp: item2_heads second_heads(9) expect_Cons intro!: expect_Word)
  then show ?thesis by (simp add: read_service2_def service2_toks_def read_helpers_toks[OF assms])
qed

lemma read_service2_empty:
  assumes "s2_calls c = []"
  shows "read_service2 (service2_toks c @ ts) = None"
proof -
  have "read_helpers (tokens ''else'' @ us) = None" for us
    by (subst read_helpers.simps) (simp add: read_helper_def small_toks expect_Cons)
  then show ?thesis using assms by (simp add: read_service2_def service2_toks_def)
qed

lemma read_header2_toks:
  assumes "tokens text = pre @ header2_toks h" and "Word ''namespace'' \<notin> set pre"
  shows "read_header2 text = (if list_all (\<lambda>c. s2_calls c \<noteq> []) (h2_services h) then Some h else None)"
proof -
  have clients: "read_until (expect (tokens ''}'')) read_client2
      (concat (map client2_toks (h2_clients h)) @ tokens ''}'' @ ts) = Some (h2_clients h, ts)" for ts
    by (rule read_until_items) (auto simp: item2_heads small_toks expect_Cons intro!: expect_Word)
  have services: "read_until (expect (tokens ''}'')) read_service2
      (concat (map service2_toks (h2_services h)) @ tokens ''}'') =
      (if list_all (\<lambda>c. s2_calls c \<noteq> []) (h2_services h) then Some (h2_services h, []) else None)"
  proof (cases "list_all (\<lambda>c. s2_calls c \<noteq> []) (h2_services h)")
    case True
    have "read_until (expect (tokens ''}'')) read_service2
        (concat (map service2_toks (h2_services h)) @ tokens ''}'') = Some (h2_services h, [])"
      by (rule read_until_items)
        (use True in \<open>auto simp: item2_heads small_toks list_all_iff read_service2_toks intro!: expect_Word\<close>)
    then show ?thesis using True by simp
  next
    case False
    then obtain ys c zs where split: "h2_services h = ys @ c # zs" and c: "s2_calls c = []"
        and ys: "\<forall>y \<in> set ys. s2_calls y \<noteq> []"
      using split_list_first_prop[of "h2_services h" "\<lambda>c. s2_calls c = []"] by (auto simp: list_all_iff)
    have "read_until (expect (tokens ''}'')) read_service2
        (concat (map service2_toks (ys @ c # zs)) @ tokens ''}'') = None"
      by (rule read_until_stuck)
        (use c ys in \<open>auto simp: item2_heads small_toks read_service2_toks read_service2_empty intro!: expect_Word\<close>)
    then show ?thesis using False split by (simp only: if_False)
  qed
  have "skip_preprocessor (tokens text) = header2_toks h"
    unfolding assms(1) header2_toks_def by (rule skip_preprocessor_append[OF assms(2)])
  then show ?thesis by (simp add: read_header2_def header2_toks_def clients services)
qed

end
