(* ===== verification/Second_Program.thy ===== *)
theory Second_Program
  imports Second_Grammar
begin

text \<open>
  What the second plugin writes, read with the grammar of theory \<open>Second_Grammar\<close>: the client class
  and the service class of every service of a proto file.
\<close>

section \<open>What a proto file is translated to\<close>

definition send_of :: "file_descriptor \<Rightarrow> service_descriptor \<Rightarrow> method_descriptor \<Rightarrow> send_method" where
  "send_of file s m =
     \<lparr>sm_name = ''SayHello'', sm_request = md_input m, sm_reply = md_output m,
      sm_url = method_url (fd_package file) (sd_name s) (md_name m)\<rparr>"

definition client2_of :: "file_descriptor \<Rightarrow> service_descriptor \<Rightarrow> client2_class" where
  "client2_of file s =
     \<lparr>k2_class = sd_name s @ ''Client'', k2_constructor = sd_name s @ ''Client'',
      k2_methods = map (send_of file s) (filter no_streaming (sd_methods s))\<rparr>"

definition call_of :: "file_descriptor \<Rightarrow> service_descriptor \<Rightarrow> method_descriptor \<Rightarrow> helper_call" where
  "call_of file s m =
     \<lparr>hc_url = method_url (fd_package file) (sd_name s) (md_name m),
      hc_request = md_input m, hc_reply = md_output m,
      hc_type = (sd_name s, md_name m), hc_member = (sd_name s, md_name m)\<rparr>"

definition say_hello_virtual :: virtual2 where
  "say_hello_virtual =
     \<lparr>v2_name = ''SayHello'', v2_request = (''helloworld'', ''FabricRequest''),
      v2_reply = (''helloworld'', ''FabricResponse'')\<rparr>"

definition service2_of :: "file_descriptor \<Rightarrow> service_descriptor \<Rightarrow> service2_class" where
  "service2_of file s =
     \<lparr>s2_class = sd_name s, s2_name = ''helloworld.FabricHello'',
      s2_calls = map (call_of file s) (sd_methods s), s2_error = (''url: '', '' not found''),
      s2_members = map (\<lambda>m. say_hello_virtual) (filter no_streaming (sd_methods s))\<rparr>"

definition header2_of :: "file_descriptor \<Rightarrow> header2" where
  "header2_of file =
     \<lparr>h2_client_namespace = namespace_of ''fabricrpc2'' file,
      h2_clients = map (client2_of file) (fd_services file),
      h2_namespace = namespace_of ''fabricrpc2'' file,
      h2_services = map (service2_of file) (fd_services file)\<rparr>"

section \<open>The generated text has these tokens\<close>

lemma lexes_client2_method:
  assumes "proto_file file" and "proto_service s" and "proto_method m" and "no_streaming m"
  shows "lexes (client2_method_text file s m) (send_toks (send_of file s m))"
proof -
  have names: "name_token (md_input m)" "name_token (md_output m)"
    using assms(3) by (simp_all add: proto_method_def)
  have c: "closed_text ''auto SayHello(''" "closed_text '' *request,''" "nonword '' *request,''"
    "closed_text ''/*out*/''" "closed_text '' *reply, Token &&token) {''" "nonword '' *reply, Token &&token) {''"
    "closed_text ''static const std::string url = ''" "closed_text '';''"
    by code_simp+
  have e: "toks ''/*out*/'' = []" "toks '' *request,'' = tokens ''*request,''" "toks '';'' = tokens '';''"
    "toks ''auto SayHello('' = tokens ''auto'' @ Word ''SayHello'' # tokens ''(''"
    by code_simp+
  have e': "tokens ''template <typename Token> auto'' = tokens ''template <typename Token>'' @ tokens ''auto''"
    "tokens ''*reply, Token &&token) { static const std::string url ='' =
       toks '' *reply, Token &&token) {'' @ toks ''static const std::string url = ''"
    "tokens ''; return conn_.async_send(url, request, reply, std::move(token)); }'' =
       tokens '';'' @ tokens ''return conn_.async_send(url, request, reply, std::move(token));'' @ tokens ''}''"
    by code_simp+
  have "nl \<notin> set '' handler void(ec, absl::Status)''" by code_simp
  from line_comment[OF this] have l: "line ''// handler void(ec, absl::Status)'' []" by simp
  have l': "line ''template <typename Token>'' (tokens ''template <typename Token>'')"
    "line ''return conn_.async_send(url, request, reply, std::move(token));''
      (tokens ''return conn_.async_send(url, request, reply, std::move(token));'')"
    by (rule lexes_text, code_simp, code_simp)+
  from lexes_emit_Cons[OF l lexes_emit_Cons[OF l'(1)
      lexes_emit_Cons[OF line_around[OF c(1) names(1) c(3,2)]
      lexes_emit_Cons[OF line_around[OF c(4) names(2) c(6,5)]
      lexes_emit_Cons[OF line_append[OF c(7) line_quoted[OF proto_url[OF assms(1-3)] line_text[OF c(8)]]]
      lexes_emit_Cons[OF l'(2) lexes_emit_line[OF line_brace]]]]]], of 1]
  show ?thesis
    by (rule lexes_eq) (simp_all add: client2_method_text_def assms(4) send_toks_def send_of_def e e')
qed

lemma lexes_client2:
  assumes "proto_file file" and "proto_service s"
  shows "lexes (client2_text file s) (client2_toks (client2_of file s))"
proof -
  have name: "name_token (sd_name s @ ''Client'')"
    using assms(2) by (simp add: proto_service_def client_name)
  have m: "proto_method m" if "m \<in> set (sd_methods s)" for m
    using assms(2) that by (simp add: proto_service_def list_all_iff)
  have methods: "lexes (concat (map (client2_method_text file s) (sd_methods s)))
      (concat (map send_toks (k2_methods (client2_of file s))))"
  proof (rule lexes_eq)
    show "lexes (concat (map (client2_method_text file s) (sd_methods s)))
        (concat (map (\<lambda>m. if no_streaming m then send_toks (send_of file s m) else []) (sd_methods s)))"
      by (intro lexes_concat lexes_method[where n = 1] lexes_client2_method[OF assms] m)
        (auto simp: client2_method_text_def)
    show "concat (map (\<lambda>m. if no_streaming m then send_toks (send_of file s m) else []) (sd_methods s)) =
        concat (map send_toks (k2_methods (client2_of file s)))"
      by (simp add: client2_of_def concat_filter[symmetric] comp_def)
  qed simp
  have c: "closed_text ''template <typename Executor = net::any_io_executor> class ''"
    "closed_text ''{''" "nonword ''{''"
    "closed_text ''(fabricrpc::rpc_client<executor_type> &conn) : conn_(conn) {}''"
    "nonword ''(fabricrpc::rpc_client<executor_type> &conn) : conn_(conn) {}''"
    by code_simp+
  have e: "toks ''template <typename Executor = net::any_io_executor> class '' =
      tokens ''template <typename Executor = net::any_io_executor> class''"
    "tokens ''{ public: typedef Executor executor_type;'' =
       toks ''{'' @ tokens ''public:'' @ tokens ''typedef Executor executor_type;''"
    "toks ''(fabricrpc::rpc_client<executor_type> &conn) : conn_(conn) {}'' =
       tokens ''(fabricrpc::rpc_client<executor_type> &conn) : conn_(conn) {}''"
    "tokens client2_fields = tokens ''private:'' @ tokens ''fabricrpc::rpc_client<executor_type> &conn_;'' @
       tokens ''};''"
    by code_simp+
  have l: "line ''public:'' (tokens ''public:'')" "line ''typedef Executor executor_type;'' (tokens ''typedef Executor executor_type;'')"
    "line ''private:'' (tokens ''private:'')"
    "line ''fabricrpc::rpc_client<executor_type> &conn_;'' (tokens ''fabricrpc::rpc_client<executor_type> &conn_;'')"
    "line ''};'' (tokens ''};'')"
    by (rule lexes_text, code_simp, code_simp)+
  note first = lexes_emit_Cons[OF line_append[OF c(1) line_word[OF name c(3) line_text[OF c(2)]]]
      lexes_emit_line[OF l(1)], of 0]
  note second = lexes_emit_Cons[OF l(2) lexes_emit_line[OF line_word[OF name c(5) line_text[OF c(4)]]], of 1]
  from lexes_append[OF first lexes_append[OF second lexes_append[OF methods
        lexes_append[OF lexes_emit_line[OF l(3), of 0] lexes_append[OF lexes_emit_line[OF l(4), of 1]
          lexes_emit_line[OF l(5), of 0]]]]]]
  show ?thesis
    by (rule lexes_eq) (simp_all only: client2_text_def append_assoc append_Cons append_Nil,
      simp_all add: client2_toks_def e, simp add: client2_of_def)
qed

lemma lexes_helper_body:
  assumes "name_token c" and "name_token f" and "name_token q" and "name_token r"
  shows "lexes (emit n
       [''st = co_await fabricrpc::codegen_handler_helper<'',
        q @ '', '' @ r @ '','',
        ''decltype(&'' @ c @ ''::'' @ f @ ''), decltype(this)>('',
        ''req, resp, &'' @ c @ ''::'' @ f @ '', this);''])
    (tokens ''st = co_await fabricrpc::codegen_handler_helper<'' @ Word q # tokens '','' @ Word r # tokens '','' @
     tokens ''decltype(&'' @ Word c # tokens ''::'' @ Word f # tokens ''), decltype(this)>('' @
     tokens ''req, resp, &'' @ Word c # tokens ''::'' @ Word f # tokens '', this);'')"
proof -
  have k: "closed_text '', ''" "nonword ('', '' @ x)" "closed_text '',''" "nonword '',''"
    "closed_text ''::''" "nonword (''::'' @ x)"
    "closed_text ''decltype(&''" "closed_text ''), decltype(this)>(''" "nonword ''), decltype(this)>(''"
    "closed_text ''req, resp, &''" "closed_text '', this);''" "nonword '', this);''" for x
    by code_simp+
  have e: "toks '', '' = tokens '',''" "toks '','' = tokens '',''" "toks ''::'' = tokens ''::''"
    "toks ''decltype(&'' = tokens ''decltype(&''" "toks ''), decltype(this)>('' = tokens ''), decltype(this)>(''"
    "toks ''req, resp, &'' = tokens ''req, resp, &''" "toks '', this);'' = tokens '', this);''"
    by code_simp+
  have l: "line ''st = co_await fabricrpc::codegen_handler_helper<''
      (tokens ''st = co_await fabricrpc::codegen_handler_helper<'')"
    by (rule lexes_text, code_simp, code_simp)
  note types = line_word[OF assms(3) k(2) line_append[OF k(1) line_word[OF assms(4) k(4) line_text[OF k(3)]]]]
  note fn = line_append[OF k(7) line_word[OF assms(1) k(6) line_append[OF k(5)
      line_word[OF assms(2) k(9) line_text[OF k(8)]]]]]
  note arg = line_append[OF k(10) line_word[OF assms(1) k(6) line_append[OF k(5)
      line_word[OF assms(2) k(12) line_text[OF k(11)]]]]]
  from lexes_emit_Cons[OF l lexes_emit_Cons[OF types lexes_emit_Cons[OF fn lexes_emit_line[OF arg]]], of n]
  show ?thesis by (rule lexes_eq) (simp_all add: e)
qed

lemma lexes_execute_branch:
  assumes "proto_file file" and "proto_service s" and "proto_method m"
  shows "lexes (execute_branch_text file s i m)
    ((if i \<noteq> 0 then tokens ''else'' else []) @ helper_toks (call_of file s m))"
proof -
  have names: "name_token (sd_name s)" "name_token (md_name m)" "name_token (md_input m)" "name_token (md_output m)"
    using assms(2,3) by (simp_all add: proto_service_def proto_method_def)
  have first: "lexes (if i \<noteq> 0 then emit 2 [''else ''] else '''') (if i \<noteq> 0 then tokens ''else'' else [])"
    using lexes_emit_line[OF line_else] by (simp add: lexes_def)
  have e: "tokens '') { st = co_await fabricrpc::codegen_handler_helper<'' =
      tokens '') {'' @ tokens ''st = co_await fabricrpc::codegen_handler_helper<''"
    "tokens '', decltype(&'' = tokens '','' @ tokens ''decltype(&''"
    "tokens ''), decltype(this)>(req, resp, &'' = tokens ''), decltype(this)>('' @ tokens ''req, resp, &''"
    "tokens '', this); }'' = tokens '', this);'' @ tokens ''}''"
    by code_simp+
  from lexes_append[OF first lexes_append[OF lexes_emit_line[OF line_url_test[OF proto_url[OF assms]], of 2]
        lexes_append[OF lexes_helper_body[OF names, of 3] lexes_emit_line[OF line_brace, of 2]]]]
  show ?thesis
    unfolding execute_branch_text_def by (rule lexes_eq) (simp_all add: helper_toks_def call_of_def e)
qed

lemma helpers_toks_enumerate:
  "concat (map (\<lambda>(i, c). (if i \<noteq> 0 then tokens ''else'' else []) @ helper_toks c) (enumerate 0 cs)) @
     tokens ''else'' = helpers_toks cs"
proof (cases cs)
  case (Cons c cs')
  have "concat (map (\<lambda>(i, c). (if i \<noteq> 0 then tokens ''else'' else []) @ helper_toks c)
      (enumerate (Suc k) xs)) @ tokens ''else'' =
      tokens ''else'' @ (if xs = [] then [] else helpers_toks xs)" for k xs
    by (induction xs arbitrary: k) simp_all
  then show ?thesis using Cons by simp
qed simp

lemma lexes_server2_method:
  "lexes (server2_method_text m) (if no_streaming m then virtual2_toks say_hello_virtual else [])"
proof -
  have "line server_method_declaration (virtual2_toks say_hello_virtual)"
    by (rule lexes_text) code_simp+
  moreover have "nl \<notin> set (drop 2 ''// Streaming for method $Method$ request $Request$ response $Response$ not supported '')"
    by code_simp
  from line_comment[OF this]
  have "line ''// Streaming for method $Method$ request $Request$ response $Response$ not supported '' []"
    by simp
  ultimately show ?thesis
    unfolding server2_method_text_def by (simp only: lexes_emit_line split: if_split) blast
qed

lemma closed_execute_lines:
  "line ''else {'' (tokens ''else {'')"
  "line ''  st = absl::UnimplementedError(absl::StrCat(\"url: \", url, \" not found\"));''
    (tokens ''st = absl::UnimplementedError(absl::StrCat('' @ Lit ''url: '' # tokens '', url,'' @
      Lit '' not found'' # tokens ''));'')"
  "line ''co_return st;'' (tokens ''co_return st;'')"
  "line ''  public:'' (tokens ''public:'')"
  "line ''const std::string_view name() override { return \"helloworld.FabricHello\"; }''
    (tokens ''const std::string_view name() override { return'' @ Lit ''helloworld.FabricHello'' # tokens ''; }'')"
  "line ''net::awaitable<absl::Status> execute(const std::string &url,''
    (tokens ''net::awaitable<absl::Status> execute(const std::string &url,'')"
  "line ''const std::string_view req,'' (tokens ''const std::string_view req,'')"
  "line ''std::string *resp) override {'' (tokens ''std::string *resp) override {'')"
  "line ''absl::Status st;'' (tokens ''absl::Status st;'')"
  "line ''};'' (tokens ''};'')"
  by (rule lexes_text, code_simp, code_simp)+

lemma lexes_service2:
  assumes "proto_file file" and "proto_service s"
  shows "lexes (service2_text file s) (service2_toks (service2_of file s))"
proof -
  have name: "name_token (sd_name s)" using assms(2) by (simp add: proto_service_def)
  have m: "proto_method m" if "(i, m) \<in> set (enumerate 0 (sd_methods s))" for i m
  proof -
    have "m \<in> set (sd_methods s)" using that by (auto simp: in_set_enumerate_eq)
    then show ?thesis using assms(2) by (simp add: proto_service_def list_all_iff)
  qed
  have branches: "lexes (concat (map (\<lambda>(i, m). execute_branch_text file s i m) (enumerate 0 (sd_methods s))))
      (concat (map (\<lambda>(i, m). (if i \<noteq> 0 then tokens ''else'' else []) @ helper_toks (call_of file s m))
        (enumerate 0 (sd_methods s))))"
    by (rule lexes_concat) (use m lexes_execute_branch[OF assms] in auto)
  have chain: "concat (map (\<lambda>(i, m). (if i \<noteq> 0 then tokens ''else'' else []) @ helper_toks (call_of file s m))
      (enumerate 0 (sd_methods s))) @ tokens ''else'' @ ts = helpers_toks (s2_calls (service2_of file s)) @ ts" for ts
    using helpers_toks_enumerate[of "map (call_of file s) (sd_methods s)"]
    by (simp add: service2_of_def enumerate_map comp_def case_prod_unfold flip: append_assoc)
  have members: "lexes (concat (map server2_method_text (sd_methods s)))
      (concat (map virtual2_toks (s2_members (service2_of file s))))"
    by (rule lexes_eq[OF lexes_concat[OF lexes_server2_method]])
      (simp_all add: service2_of_def concat_filter[symmetric] comp_def)
  have c: "closed_text ''class ''" "closed_text '' : public fabricrpc::service {''"
    "nonword '' : public fabricrpc::service {''"
    and e: "toks ''class '' = tokens ''class''" "tokens ''else {'' = tokens ''else'' @ tokens ''{''"
    "tokens service2_head = toks '' : public fabricrpc::service {'' @ tokens ''public:'' @
       tokens ''const std::string_view name() override { return''"
    "tokens execute_head = tokens ''; }'' @ tokens ''net::awaitable<absl::Status> execute(const std::string &url,'' @
       tokens ''const std::string_view req,'' @ tokens ''std::string *resp) override {'' @ tokens ''absl::Status st;''"
    "tokens '')); } co_return st; }'' = tokens ''));'' @ tokens ''}'' @ tokens ''co_return st;'' @ tokens ''}''"
    by code_simp+
  note l = closed_execute_lines
  note first = lexes_emit_Cons[OF line_append[OF c(1) line_word[OF name c(3) line_text[OF c(2)]]]
      lexes_emit_line[OF l(4)], of 0]
  note second = lexes_emit_Cons[OF l(5) lexes_emit_Cons[OF l(6) lexes_emit_Cons[OF l(7) lexes_emit_line[OF l(8)]]], of 1]
  note tail = lexes_emit_Cons[OF l(1) lexes_emit_Cons[OF l(2) lexes_emit_Cons[OF line_brace lexes_emit_line[OF l(3)]]], of 2]
  from lexes_append[OF first lexes_append[OF second lexes_append[OF lexes_emit_line[OF l(9), of 2]
      lexes_append[OF branches lexes_append[OF tail lexes_append[OF lexes_emit_line[OF line_brace, of 1]
        lexes_append[OF members lexes_emit_line[OF l(10), of 0]]]]]]]]
  show ?thesis
    by (rule lexes_eq)
      (simp_all only: service2_text_def generated_name_def append_assoc append_Cons append_Nil,
       simp_all add: service2_toks_def e chain del: neq0_conv, simp_all add: service2_of_def)
qed

section \<open>The header is read back\<close>

lemma header2_head_silent:
  assumes "proto_file file"
  shows "silent (header2_head file)"
proof -
  have a: "silent (emit 0 [''// Generated by fabric_rpc2_cpp_plugin. Do not Edit.''])"
    by (rule silent_fixed) code_simp
  have b: "silent (emit 0 [''#pragma once''])" by (rule silent_fixed) code_simp
  have c: "silent (emit 0 [''#include \"fabrictransport_.h\"'', ''#include \"fabricrpc/fabricrpc2.hpp\"''])"
    by (rule silent_fixed) code_simp
  note name = file_name_lines[OF assms]
  have d: "silent (emit 0 [''// source: '' @ fd_name file])" by (rule silent_line[OF name(1)]) simp
  have e: "silent (emit 0 [''#include \"'' @ getProtoNameNoExt (fd_name file) @ ''.pb.h\"''])"
    using silent_line[OF include_line[OF name(2)], of 0] include_toks by simp
  have "header2_head file = emit 0 [''// Generated by fabric_rpc2_cpp_plugin. Do not Edit.''] @
      emit 0 [''// source: '' @ fd_name file] @ emit 0 [''#pragma once''] @
      emit 0 [''#include \"'' @ getProtoNameNoExt (fd_name file) @ ''.pb.h\"''] @
      emit 0 [''#include \"fabrictransport_.h\"'', ''#include \"fabricrpc/fabricrpc2.hpp\"'']"
    by (simp only: header2_head_def emit_append[symmetric] append_Cons append_Nil)
  then show ?thesis using a b c d e by (simp only: silent_append)
qed

lemma lexes_namespace2:
  assumes "proto_file file" and "line title []" and "lexes body ts"
  shows "lexes (namespace2_text title file body)
    (tokens ''namespace'' @ Word (namespace_of ''fabricrpc2'' file) # tokens ''{'' @
     tokens ''namespace net = boost::asio;'' @ ts @ tokens ''}'')"
proof -
  note ns = lines_in_namespace(4,5)[OF assms(1) default_namespaces(2)]
  have l: "line ''namespace net = boost::asio;'' (tokens ''namespace net = boost::asio;'')"
    by (rule lexes_text, code_simp, code_simp)
  from lexes_append[OF lexes_emit_Cons[OF assms(2) lexes_emit_Cons[OF ns(1) lexes_emit_line[OF l]], of 0]
      lexes_append[OF assms(3) lexes_emit_line[OF ns(2), of 0]]]
  show ?thesis by (rule lexes_eq) (simp_all add: namespace2_text_def)
qed

lemma read_generated_header2:
  assumes "proto_file file"
  shows "read_header2 (header2_head file @
      namespace2_text ''// Client code'' file (concat (map (client2_text file) (fd_services file))) @
      namespace2_text ''// Server code'' file (concat (map (service2_text file) (fd_services file)))) =
    (if has_methods file then Some (header2_of file) else None)"
proof -
  obtain pre where pre: "lexes (header2_head file) pre" "Word ''namespace'' \<notin> set pre"
    using header2_head_silent[OF assms] by (auto simp: silent_def)
  note lines = lines_in_namespace(2,3)[OF assms default_namespaces(2)]
  note clients = lexes_namespace2[OF assms lines(1) lexes_services[OF assms lexes_client2[OF assms]]]
  note servers = lexes_namespace2[OF assms lines(2) lexes_services[OF assms lexes_service2[OF assms]]]
  have toks: "tokens (header2_head file @
      namespace2_text ''// Client code'' file (concat (map (client2_text file) (fd_services file))) @
      namespace2_text ''// Server code'' file (concat (map (service2_text file) (fd_services file)))) =
      pre @ header2_toks (header2_of file)"
    using lexes_append[OF pre(1) lexes_append[OF clients servers]]
    by (simp add: lexes_def tokens_closed header2_toks_def) (simp add: header2_of_def comp_def)
  have "list_all (\<lambda>c. s2_calls c \<noteq> []) (h2_services (header2_of file)) \<longleftrightarrow> has_methods file"
    by (auto simp: header2_of_def service2_of_def has_methods_def list_all_iff)
  then show ?thesis unfolding read_header2_toks[OF toks pre(2)] by (simp only:)
qed

end
