(* ===== verification/Second_Semantics.thy ===== *)
theory Second_Semantics
  imports Second_Program Generated_Semantics
begin

text \<open>
  What the code of the second plugin does when it is compiled and run: the check of its classes,
  the function \<open>execute\<close> of a service and the URLs of a client, compared with the services of
  theory \<open>Middleware\<close>.
\<close>

section \<open>Checking\<close>

text \<open>
  The function that a call names is declared in the class once, so that its address is of one
  type, and takes the messages of the call, which are looked up in the namespace of the file.
\<close>

definition check_call :: "string \<Rightarrow> service2_class \<Rightarrow> helper_call \<Rightarrow> bool" where
  "check_call ns c k \<longleftrightarrow>
     hc_type k = hc_member k \<and> fst (hc_member k) = s2_class c \<and>
     (case filter (\<lambda>v. v2_name v = snd (hc_member k)) (s2_members c) of
        [v] \<Rightarrow> v2_request v = (ns, hc_request k) \<and> v2_reply v = (ns, hc_reply k)
      | _ \<Rightarrow> False)"

text \<open>No function may be declared twice with the same parameters.\<close>

definition check_service2 :: "string \<Rightarrow> service2_class \<Rightarrow> bool" where
  "check_service2 ns c \<longleftrightarrow> distinct (s2_members c) \<and> list_all (check_call ns c) (s2_calls c)"

definition check_client2 :: "client2_class \<Rightarrow> bool" where
  "check_client2 k \<longleftrightarrow>
     k2_constructor k = k2_class k \<and>
     distinct (map (\<lambda>m. (sm_name m, sm_request m, sm_reply m)) (k2_methods k))"

definition check_header2 :: "header2 \<Rightarrow> bool" where
  "check_header2 h \<longleftrightarrow>
     list_all check_client2 (h2_clients h) \<and> list_all (check_service2 (h2_namespace h)) (h2_services h)"

definition program2 :: "string \<Rightarrow> header2 option" where
  "program2 header = do {
     h \<leftarrow> read_header2 header;
     if check_header2 h then Some h else None
   }"

section \<open>Running\<close>

text \<open>
  An object of a class derived from a service: for a member function, what
  \<open>codegen_handler_helper\<close> does with it at the message types it is declared with.
\<close>

type_synonym ('s, 'u) service2_object =
  "string \<Rightarrow> string \<Rightarrow> string option \<Rightarrow> 'u \<Rightarrow> ('s \<times> string option) \<times> 'u"

definition run_execute ::
    "'s absl_api \<Rightarrow> service2_class \<Rightarrow> ('s, 'u) service2_object \<Rightarrow> string \<Rightarrow> string \<Rightarrow> string \<Rightarrow> 'u \<Rightarrow>
     ('s \<times> string) \<times> 'u" where
  "run_execute A c obj u req resp st =
     (case find (\<lambda>k. u = hc_url k) (s2_calls c) of
        Some k \<Rightarrow> (let ((s, r), st') = obj (snd (hc_member k)) req (Some resp) st in ((s, pointee resp r), st'))
      | None \<Rightarrow> ((UnimplementedError A (fst (s2_error c) @ u @ snd (s2_error c)), resp), st))"

text \<open>The service that an object of the class \<open>S\<close> is in the program of a header.\<close>

definition service_in_header ::
    "'s absl_api \<Rightarrow> string \<Rightarrow> string \<Rightarrow> ('s, 'u) service2_object \<Rightarrow> ('s, 'u) service option" where
  "service_in_header A header S obj = do {
     h \<leftarrow> program2 header;
     c \<leftarrow> find (\<lambda>c. s2_class c = S) (h2_services h);
     Some \<lparr>svc_name = s2_name c, svc_execute = run_execute A c obj\<rparr>
   }"

text \<open>The URL to which the member \<open>f\<close> of the client class \<open>C\<close> sends a request of the given types.\<close>

definition url_in_header :: "string \<Rightarrow> string \<Rightarrow> string \<Rightarrow> string \<Rightarrow> string \<Rightarrow> string option" where
  "url_in_header header C f q r = do {
     h \<leftarrow> program2 header;
     k \<leftarrow> find (\<lambda>k. k2_class k = C) (h2_clients h);
     m \<leftarrow> find (\<lambda>m. sm_name m = f \<and> sm_request m = q \<and> sm_reply m = r) (k2_methods k);
     Some (sm_url m)
   }"

section \<open>The generated program\<close>

text \<open>The services that the second plugin can translate.\<close>

definition hello_like :: "file_descriptor \<Rightarrow> service_descriptor \<Rightarrow> bool" where
  "hello_like file s \<longleftrightarrow>
     fd_package file = ''helloworld'' \<and>
     sd_methods s = [plain_method ''SayHello'' ''FabricRequest'' ''FabricResponse'']"

lemma no_streaming_plain: "no_streaming m \<longleftrightarrow> m = plain_method (md_name m) (md_input m) (md_output m)"
  by (cases m) (auto simp: no_streaming_def plain_method_def)

lemma check_callD:
  "check_call ns c k \<Longrightarrow>
     \<exists>v. filter (\<lambda>v. v2_name v = snd (hc_member k)) (s2_members c) = [v] \<and>
       v2_request v = (ns, hc_request k) \<and> v2_reply v = (ns, hc_reply k)"
  by (cases "filter (\<lambda>v. v2_name v = snd (hc_member k)) (s2_members c)")
    (auto simp: check_call_def split: list.splits)

lemma service2_calls: "s2_calls (service2_of file s) = map (call_of file s) (sd_methods s)"
  by (simp add: service2_of_def)

lemma check_say_hello:
  assumes "check_call ns (service2_of file s) (call_of file s m)"
  shows "md_name m = ''SayHello'' \<and> length (filter no_streaming (sd_methods s)) = 1 \<and>
    ns = ''helloworld'' \<and> md_input m = ''FabricRequest'' \<and> md_output m = ''FabricResponse''"
proof -
  obtain v where v: "filter (\<lambda>v. v2_name v = md_name m) (s2_members (service2_of file s)) = [v]"
    "v2_request v = (ns, md_input m)" "v2_reply v = (ns, md_output m)"
    using check_callD[OF assms] by (auto simp: call_of_def)
  have "v \<in> set (filter (\<lambda>v. v2_name v = md_name m) (s2_members (service2_of file s)))" by (simp add: v(1))
  then have n: "v2_name v = md_name m" and "v = say_hello_virtual" by (auto simp: service2_of_def)
  with v(2,3) have eqs: "md_name m = ''SayHello''" "ns = ''helloworld''"
    "md_input m = ''FabricRequest''" "md_output m = ''FabricResponse''"
    by (simp_all add: say_hello_virtual_def)
  have "filter (\<lambda>v. v2_name v = md_name m) (map (\<lambda>m. say_hello_virtual) xs) = map (\<lambda>m. say_hello_virtual) xs"
    for xs :: "method_descriptor list"
    using eqs(1) by (induction xs) (simp_all add: say_hello_virtual_def)
  then have "length (filter no_streaming (sd_methods s)) = length [v]"
    unfolding v(1)[symmetric] by (simp add: service2_of_def)
  then show ?thesis using eqs by simp
qed

lemma check_generated_service2:
  assumes "proto_file file" and "proto_service s" and "sd_methods s \<noteq> []"
  shows "check_service2 (namespace_of ''fabricrpc2'' file) (service2_of file s) \<longleftrightarrow> hello_like file s"
proof
  assume check: "check_service2 (namespace_of ''fabricrpc2'' file) (service2_of file s)"
  have say: "md_name m = ''SayHello'' \<and> length (filter no_streaming (sd_methods s)) = 1 \<and>
      namespace_of ''fabricrpc2'' file = ''helloworld'' \<and> md_input m = ''FabricRequest'' \<and> md_output m = ''FabricResponse''"
    if "m \<in> set (sd_methods s)" for m
    using check that
    by (intro check_say_hello[of _ "file" s]) (simp add: check_service2_def service2_calls list_all_iff)
  have distinct: "distinct (map md_name (sd_methods s))" using assms(2) by (simp add: proto_service_def)
  obtain m ms where ms: "sd_methods s = m # ms" using assms(3) by (cases "sd_methods s") auto
  have "ms = []"
  proof (cases ms)
    case (Cons m' ms')
    then have "md_name m = md_name m'" using say[of m] say[of m'] ms by simp
    then show ?thesis using distinct ms Cons by simp
  qed simp
  then have one: "sd_methods s = [m]" using ms by simp
  then have "no_streaming m" using say[of m] by (auto split: if_splits)
  moreover have "fd_package file = ''helloworld''"
    using say[of m] one by (auto simp: namespace_of_def split: if_splits)
  ultimately show "hello_like file s"
    using say[of m] one no_streaming_plain[of m] by (simp add: hello_like_def)
next
  assume "hello_like file s"
  then show "check_service2 (namespace_of ''fabricrpc2'' file) (service2_of file s)"
    by (simp add: hello_like_def check_service2_def service2_of_def plain_method_def no_streaming_def
        check_call_def call_of_def say_hello_virtual_def namespace_of_def)
qed

lemma check_generated_header2:
  assumes "proto_file file" and "has_methods file"
  shows "check_header2 (header2_of file) \<longleftrightarrow> (\<forall>s \<in> set (fd_services file). hello_like file s)"
proof -
  have service: "check_service2 (namespace_of ''fabricrpc2'' file) (service2_of file s) \<longleftrightarrow> hello_like file s"
    if "s \<in> set (fd_services file)" for s
    using assms that proto_services[OF assms(1) that]
    by (intro check_generated_service2) (auto simp: has_methods_def list_all_iff)
  have client: "check_client2 (client2_of file s)" if "hello_like file s" for s
    using that by (simp add: check_client2_def client2_of_def hello_like_def plain_method_def no_streaming_def)
  show ?thesis
    using service client by (auto simp: check_header2_def header2_of_def list_all_iff)
qed

definition second_header :: "file_descriptor \<Rightarrow> string" where
  "second_header file =
     header2_head file @
     namespace2_text ''// Client code'' file (concat (map (client2_text file) (fd_services file))) @
     namespace2_text ''// Server code'' file (concat (map (service2_text file) (fd_services file)))"

lemma second_plugin_writes:
  assumes "boost_laws B" and "proto_file file"
  shows "Generate2 b B file = Inr
    [(getProtoNameNoExt (fd_name file) @ ''.fabricrpc2.h'', second_header file),
     (getProtoNameNoExt (fd_name file) @ ''.fabricrpc2.cc'', '''')]"
  using MetaHeader_text[OF assms(1) proto_good(3)[OF assms(2)]] ClientHeader_text[OF assms(1) proto_good(3)[OF assms(2)]]
    ServerHeader_text[OF assms(1) proto_good(3)[OF assms(2)]]
  by (simp add: Generate2_def ClientCC_GenerateContent_def ServerCC_GenerateContent_def Let_def second_header_def)

lemma generated_program2:
  assumes "proto_file file"
  shows "program2 (second_header file) =
    (if \<forall>s \<in> set (fd_services file). hello_like file s then Some (header2_of file) else None)"
proof (cases "has_methods file")
  case True
  then show ?thesis
    using read_generated_header2[OF assms] check_generated_header2[OF assms True]
    by (simp add: program2_def second_header_def)
next
  case False
  then have "\<not> (\<forall>s \<in> set (fd_services file). hello_like file s)"
    unfolding has_methods_def list_all_iff hello_like_def by force
  then show ?thesis
    using False read_generated_header2[OF assms] by (simp add: program2_def second_header_def)
qed

definition first_file :: "(string \<times> string) list \<Rightarrow> string" where
  "first_file files = (case files of [] \<Rightarrow> '''' | (name, text) # _ \<Rightarrow> text)"

text \<open>
  C20: what the second plugin can translate.  For a proto file with an arbitrary service the plugin
  writes files; its header is a program, with every called function declared once and with the
  messages of the call, exactly when every service of the file has the one method \<open>SayHello\<close>,
  without streaming, on the messages of the example, in the package \<open>helloworld\<close>.
\<close>

theorem second_code_compiles_iff:
  assumes "boost_laws B" and "proto_file file"
  shows "\<exists>files. Generate2 b B file = Inr files \<and>
    (program2 (first_file files) \<noteq> None \<longleftrightarrow>
      (\<forall>s \<in> set (fd_services file).
         fd_package file = ''helloworld'' \<and>
         sd_methods s = [plain_method ''SayHello'' ''FabricRequest'' ''FabricResponse'']))"
  using second_plugin_writes[OF assms] generated_program2[OF assms(2)]
  by (simp add: first_file_def hello_like_def)

theorem second_code_compiles_iff_witness:
  "(\<exists>files. Generate2 Debug boost_ref helloworld_proto = Inr files \<and> program2 (first_file files) \<noteq> None) \<and>
   (\<exists>files. Generate2 Debug boost_ref todolist_proto = Inr files \<and> program2 (first_file files) = None)"
proof
  show "\<exists>files. Generate2 Debug boost_ref helloworld_proto = Inr files \<and> program2 (first_file files) \<noteq> None"
    using second_code_compiles_iff[OF boost_ref_laws example_protos(1), of Debug]
    by (simp add: helloworld_proto_def)
  have "fd_package todolist_proto \<noteq> ''helloworld''" and "fd_services todolist_proto \<noteq> []"
    by (simp_all add: todolist_proto_def)
  then show "\<exists>files. Generate2 Debug boost_ref todolist_proto = Inr files \<and> program2 (first_file files) = None"
    using second_code_compiles_iff[OF boost_ref_laws example_protos(3), of Debug]
    by (cases "fd_services todolist_proto") auto
qed

lemma run_generated_execute:
  assumes "hello_like file s"
  shows "run_execute A (service2_of file s) obj =
    generated_execute A (fd_package file) (sd_name s) [\<lparr>gh_name = ''SayHello'', gh_run = obj ''SayHello''\<rparr>]"
  using assms
  by (intro ext) (simp add: run_execute_def service2_of_def hello_like_def plain_method_def call_of_def)

text \<open>
  C21: a call of the second plugin's code.  In a header that compiles, an object of the class of a
  service is the generated service of the model; the generated client sends \<open>SayHello\<close> to the URL
  of this method, and a middleware with this service alone calls the member function
  \<open>SayHello\<close> of the object with the payload, provided the name of the service begins with
  \<open>FabricHello\<close>; otherwise the constant name that the plugin writes keeps the call from arriving.
\<close>

theorem second_generated_call:
  fixes obj :: "('s, 'u) service2_object"
  assumes "boost_laws B" and "proto_file file" and "\<forall>s \<in> set (fd_services file). hello_like file s"
    and "s \<in> set (fd_services file)"
  shows "\<exists>files svc u. Generate2 b B file = Inr files \<and>
    service_in_header A (first_file files) (sd_name s) obj = Some svc \<and>
    svc = generated2_service A ''helloworld'' (sd_name s) [\<lparr>gh_name = ''SayHello'', gh_run = obj ''SayHello''\<rparr>] \<and>
    url_in_header (first_file files) (sd_name s @ ''Client'') ''SayHello'' ''FabricRequest'' ''FabricResponse'' = Some u \<and>
    u = ''/helloworld.'' @ sd_name s @ ''/SayHello'' \<and>
    middleware_dispatch A [svc] u payload resp st =
      (if starts_with (sd_name s @ ''/SayHello'') ''FabricHello''
       then (let ((c, r), st') = obj ''SayHello'' payload (Some resp) st in ((c, pointee resp r), st'))
       else ((UnimplementedError A ''url not found'', resp), st))"
proof -
  have like: "hello_like file s" using assms(3,4) by blast
  then have p: "fd_package file = ''helloworld''" by (simp add: hello_like_def)
  have found: "find (\<lambda>c. s2_class c = sd_name s) (h2_services (header2_of file)) = Some (service2_of file s)"
    "find (\<lambda>k. k2_class k = sd_name s @ ''Client'') (h2_clients (header2_of file)) = Some (client2_of file s)"
    using find_distinct[OF assms(4), of sd_name] assms(2)
    by (simp_all add: proto_file_def header2_of_def find_map comp_def service2_of_def client2_of_def)
  let ?svc = "generated2_service A ''helloworld'' (sd_name s) [\<lparr>gh_name = ''SayHello'', gh_run = obj ''SayHello''\<rparr>]"
  let ?u = "''/helloworld.'' @ sd_name s @ ''/SayHello''"
  have svc: "service_in_header A (second_header file) (sd_name s) obj = Some ?svc"
    using generated_program2[OF assms(2)] assms(3) found(1) run_generated_execute[OF like, of A obj]
    by (simp add: service_in_header_def generated2_service_def generated_name_def p) (simp add: service2_of_def)
  have url: "url_in_header (second_header file) (sd_name s @ ''Client'') ''SayHello'' ''FabricRequest'' ''FabricResponse'' = Some ?u"
    using generated_program2[OF assms(2)] assms(3) found(2) like
    by (simp add: url_in_header_def client2_of_def hello_like_def plain_method_def no_streaming_def send_of_def
        method_url_def package_prefix_def)
  have "starts_with (tl ?u) generated_name \<longleftrightarrow> starts_with (sd_name s @ ''/SayHello'') ''FabricHello''"
    by (simp add: starts_with_def generated_name_def)
  then have "middleware_dispatch A [?svc] ?u payload resp st =
      (if starts_with (sd_name s @ ''/SayHello'') ''FabricHello''
       then (let ((c, r), st') = obj ''SayHello'' payload (Some resp) st in ((c, pointee resp r), st'))
       else ((UnimplementedError A ''url not found'', resp), st))"
    by (simp add: generated2_service_def method_url_def package_prefix_def)
  with svc url second_plugin_writes[OF assms(1,2), of b] show ?thesis by (simp add: first_file_def)
qed

theorem second_generated_call_witness:
  "\<exists>files svc u. Generate2 Debug boost_ref helloworld_proto = Inr files \<and>
    service_in_header pair_absl (first_file files) ''FabricHello''
      (\<lambda>f req r st. ((OkStatus pair_absl, Some (req @ f)), st + 1)) = Some svc \<and>
    url_in_header (first_file files) ''FabricHelloClient'' ''SayHello'' ''FabricRequest'' ''FabricResponse'' = Some u \<and>
    middleware_dispatch pair_absl [svc] u ''to '' '''' (0 :: nat) = ((OkStatus pair_absl, ''to SayHello''), 1)"
proof -
  let ?s = "hd (fd_services helloworld_proto)"
  have s: "?s \<in> set (fd_services helloworld_proto)" and n: "sd_name ?s = ''FabricHello''"
    and like: "\<forall>s \<in> set (fd_services helloworld_proto). hello_like helloworld_proto s"
    by (simp_all add: helloworld_proto_def hello_like_def)
  have prefix: "starts_with (''FabricHello'' @ ''/SayHello'') ''FabricHello''" by (rule starts_with_append)
  obtain files svc u where f: "Generate2 Debug boost_ref helloworld_proto = Inr files"
    "service_in_header pair_absl (first_file files) ''FabricHello''
      (\<lambda>f req r st. ((OkStatus pair_absl, Some (req @ f)), st + 1)) = Some svc"
    "url_in_header (first_file files) (''FabricHello'' @ ''Client'') ''SayHello'' ''FabricRequest'' ''FabricResponse'' = Some u"
    "middleware_dispatch pair_absl [svc] u ''to '' '''' (0 :: nat) =
      (let ((c, r), st') = ((OkStatus pair_absl, Some (''to '' @ ''SayHello'')), 0 + 1) in ((c, pointee '''' r), st'))"
    using second_generated_call[OF boost_ref_laws example_protos(1) like s, where b = Debug and A = pair_absl
        and obj = "\<lambda>f req r st. ((OkStatus pair_absl, Some (req @ f)), st + 1)" and payload = "''to ''"
        and resp = "''''" and st = "0 :: nat"]
    unfolding n if_P[OF prefix] by blast
  show ?thesis
    by (intro exI[of _ files] exI[of _ svc] exI[of _ u] conjI f(1,2))
      (use f(3,4) in \<open>simp_all del: middleware_dispatch.simps\<close>)
qed

end
