(* ===== verification/Spec2Isabelle.thy ===== *)
theory Spec2Isabelle
  imports Rpc_Properties Rpc2_Properties Generator_Properties Hello_Programs Generated_Semantics
    Second_Semantics
begin

text \<open>
  A verification development for fabric-rpc: RPC over the message transport of Service Fabric,
  as two C++ libraries with a protoc plugin each, and the example programs.

  \<^bold>\<open>The program.\<close>  A client serializes a request header (the URL of a method) and a body into one
  transport message; the transport delivers it to the message handler of a server, which routes
  it by URL to a function of a service and sends back a message with a reply header (status code
  and text) and a body.  The first library (src/src/fabric_rpc) works with callbacks: a request is
  begun by the transport, completed by the service on a thread of its own, and ended by the
  transport.  The second one (src/src/fabric_rpc2) puts requests into one queue per connection,
  from which the coroutines of \<open>ex_server\<close> take them and compute replies with a middleware.  The
  plugins (src/src/generator, src/src/generator2) write the classes between these libraries and
  the code of a user.  src/src/tool has the small objects that everybody hands to the transport.

  \<^bold>\<open>Shared theories.\<close>
  \<^item> \<open>Prelude\<close>: the error monad \<open>exec\<close>, whose faults are failed assertions (in a \<open>Debug\<close> build only),
    null pointers, reads out of bounds, \<open>std::terminate\<close>, uninitialised reads, broken library
    preconditions and endless waits; Windows integers as words; time-outs; \<open>std::to_string\<close>.
  \<^item> \<open>Foreign\<close>: protobuf messages, \<open>absl::Status\<close> and the string algorithms of boost.  They are not
    under src/, so they are parameters (\<open>codec\<close>, \<open>absl_api\<close>, \<open>boost_api\<close>) with their documented laws
    as named hypotheses (\<open>codec_laws\<close>, \<open>absl_laws\<close>, \<open>boost_laws\<close>), and an instance of each, which
    the witnesses use.
  \<^item> \<open>Transport_Message\<close>: both message classes and the functions that read the buffers of a message.
  \<^item> \<open>Simulation\<close>: the locale \<open>simulation\<close>, the proof rule by which both servers refine their
    specifications; it is interpreted in \<open>Handler_System\<close> and in \<open>Server_Spec\<close>.
  \<^item> \<open>Tools\<close>: src/src/tool, and how a thread waits for an operation of the transport; the locale
    \<open>sync_context\<close> is the contract of contexts that are complete when they are made.

  \<^bold>\<open>The first library.\<close>
  \<^item> \<open>Status\<close>, \<open>FRPC_Header\<close>: Status.hpp, StatusCode.hpp, FRPCHeader.hpp and its proto converter;
    the locale \<open>header_converter\<close> is what client and handler need of a converter.
  \<^item> \<open>Operation\<close>: Operation.hpp, exp/AsyncAnyContext.hpp and the generated \<open>Route\<close>; the locale
    \<open>middleware\<close> is what the request handler needs of a routing class.
  \<^item> \<open>Request_Handler\<close>: FRPCRequestHandler.cpp, with the router, the payload, the callback proxy,
    \<open>BeginProcessRequest\<close> and \<open>EndProcessRequest\<close> on every branch.
  \<^item> \<open>Client_Helpers\<close>: ClientHelpers.hpp.  \<open>Rpc_Call\<close> composes the two sides over a transport that
    delivers messages unchanged, and specifies the composition as a local call.
  \<^item> \<open>Request_Concurrency\<close>: one request as a step relation of its threads: the one in the begin
    call, the invocations of the callback proxy, as many and with whatever contexts the service
    makes them, and the transport's thread in the end call.  Run without interruption they are
    proved to be \<open>BeginProcessRequest\<close> (\<open>arrival_alone\<close>), the proxy and \<open>EndProcessRequest\<close>
    (\<open>end_alone\<close>), faults included.
  \<^item> \<open>Request_Invariant\<close>: what a service has to promise (\<open>operation_ok\<close>: the asynchronous protocol,
    and in \<open>completes_once\<close> one invocation of the callback with the context of the begin operation,
    before or after it returns), the invariant that then holds in every interleaving, and the
    bound \<open>threads_left\<close>.  A service that breaks the promises has its faults
    (\<open>mismatched_context_reached\<close>) or leaves its request unanswered (\<open>silent_service_unanswered\<close>).
  \<^item> \<open>Handler_System\<close>: any number of requests in progress, which share the services' state.  Every
    arrival runs the code of \<open>BeginProcessRequest\<close>; the calls of operations overlap, and each takes
    effect at some point between its call and its return.  The specification is a machine that
    calls the operations one at a time (\<open>call_step\<close>), in the order in which they take effect; the
    measure \<open>handler_left\<close> counts the steps that are left without new arrivals.
  \<^item> \<open>Example_Services\<close>: the hello service and the to-do service, the latter with state.
  \<^item> \<open>Rpc_Properties\<close>: the properties of this library.

  \<^bold>\<open>The second library.\<close>
  \<^item> \<open>Parse\<close>, \<open>Middleware\<close>: parse.cpp, middleware.hpp and the generated service class.
  \<^item> \<open>Item_Queue\<close>: basic_item_queue.hpp; the locale \<open>hand_over\<close> is its contract.
  \<^item> \<open>Request_Context\<close>, \<open>Connection_Manager\<close>: any_context.hpp, request.cpp, and the manager with the
    two handlers of the transport that call it.
  \<^item> \<open>Server\<close>: the coroutines of ex_server.cpp, basic_acceptor.hpp and basic_server_connection.hpp
    and the calls of the transport as step relations.  The invariant \<open>routes\<close> says who waits in
    which queue, \<open>work_inv\<close> where each request is.  The measure \<open>load\<close> bounds the steps that the
    server's thread can take without the transport: every internal step lowers it.
  \<^item> \<open>Server_Spec\<close>: what the server promises, as an abstract machine with a bag of requests, from
    which one after the other is taken and answered.  The step relations of \<open>Server\<close> refine it, so
    that a server with queues, events and coroutines computes what a sequential one does.
  \<^item> \<open>Server_Isolation\<close>: each queue belongs to one client for ever (\<open>belongs\<close>), and what becomes of
    the connection of a client that has gone (\<open>orphaned\<close>).
  \<^item> \<open>Acceptor\<close>: making, opening, closing and destroying, and \<open>ex_server\<close>.
  \<^item> \<open>Basic_Event\<close>, \<open>Client_Connection\<close>: basic_event.hpp, endpoint.cpp, basic_client_connection.hpp,
    basic_rpc_client.hpp, and the composition \<open>rpc2_call\<close> with the server's side.
  \<^item> \<open>Client_Request\<close>: one send of a client as a step relation of the operation's thread and the
    transport's callback; the function \<open>async_req_op\<close> is its specification, and the measure
    \<open>op_left\<close> bounds its steps.
  \<^item> \<open>Rpc2_Properties\<close>: the properties of this library.

  \<^bold>\<open>The plugins.\<close>
  \<^item> \<open>Printer\<close>, \<open>Templates\<close>: the class \<open>printer\<close>, which both plugins have, and the proof that its
    replacements one after the other are one simultaneous substitution.
  \<^item> \<open>Generator\<close>, \<open>Generator2\<close>: gen.hpp and code_generator.hpp, function by function, over records
    of the descriptor accessors that they call.
  \<^item> \<open>Generator_Text\<close>: rules for what a generator function writes and how it leaves the indentation.
    \<open>Generated_Code\<close>: the generated texts written out, and their parts.
  \<^item> \<open>Generator_Properties\<close>: the properties of the printer and of the texts.
  \<^item> \<open>Cxx_Tokens\<close>: the tokens of C++ text and the readers from which grammars are made.
    \<open>Router_Grammar\<close>, \<open>Source_Grammar\<close>, \<open>Second_Grammar\<close>: the C++ that the plugins write, as
    datatypes with the tokens of each construct and a reader; what was written is read back.
  \<^item> \<open>Generated_Program\<close>, \<open>Second_Program\<close>: for a file with the names that protoc accepts and no
    dotted package, the texts of \<open>Generated_Code\<close> have the tokens of the program that the descriptor
    stands for, so that they are read as this program.
  \<^item> \<open>Generated_Semantics\<close>, \<open>Second_Semantics\<close>: which of these programs pass the checks of a compiler
    that the plugins can fail (declarations, signatures, redeclarations, an \<open>else\<close> without \<open>if\<close>), and
    what they do: \<open>Route\<close> and \<open>execute\<close> are the routers of \<open>Operation\<close> and \<open>Middleware\<close>, and the
    clients send to the URLs that these serve.  The grammars and the checks are no code of the
    repository; they give the C++ meaning of the constructs that occur, and nothing else is read.

  \<^bold>\<open>The programs.\<close>  \<open>Hello_Programs\<close> has the main programs of the examples as functions of what the
  transport answers to the settings and addresses they give it.  The properties in this theory span
  the libraries: the two combinations of a client of one and a server of the other, the messages
  that both servers send, and the example programs on a network.

  \<^bold>\<open>Conventions.\<close>  No definition has fuel: loops are recursions over lists, and the server is a
  relation.  Every operation that asserts takes the build as an argument.  Clock readings are
  arguments.  Shared objects that are reached through pointers (request contexts, request queues)
  live in lists and are referred to by index.  Wide and narrow strings are both \<open>string\<close>.

  \<^bold>\<open>Not modelled.\<close>  COM reference counting and \<open>QueryInterface\<close>; the handle behind
  \<open>basic_event\<close>, of which the model keeps whether it is set; the creation of transport objects,
  which is a parameter, a function of the settings and the address; suspension inside a function
  of a user's service, which is taken as the function it computes; the inside of an operation of
  the first library's services, which takes effect at one point: a service that shares state
  between requests without a lock, as the to-do list of the tests does, is outside of this model
  when its operations run at the same time; clashes between the names of generated classes (a
  service \<open>Foo\<close> beside one called \<open>FooClient\<close>) and message types that are declared nowhere, which
  the checks of the generated programs do not look for; the bytes of protobuf messages
  beyond the laws of a codec; the entry points of the plugins, which call the plugin driver of
  protobuf; tests and the benchmark.
\<close>

section \<open>A client of the first library and a server of the second\<close>

text \<open>
  C12: the two libraries on one wire.  Both use the same headers, but the second library's server
  sends a success as the default header, which proto3 encodes as no bytes at all, and the first
  library's client takes an empty header for an error: it reports \<open>UNKNOWN\<close> for every call that
  succeeded, while a failure arrives with its code and its message.
\<close>

theorem old_client_of_new_server:
  assumes "absl_laws A" and "codec_laws R" and "roundtrips R \<lparr>status_code = 0, status_message = ''''\<rparr>"
    and "wire R \<lparr>status_code = 0, status_message = ''''\<rparr> = ''''"
    and "middleware_execute_inner A Q svcs req '''' st = Inr ((ec, resp), st')"
    and "sendable_status A R ec" and "length resp < 2 ^ 32"
  shows "\<exists>reply. middleware_execute b A Q R svcs req st = Inr (reply, st') \<and>
    ExecClientEnd (replying_client S_OK (Some reply)) (FabricRPCHeaderProtoConverter Q R) P (Some ()) () =
      Inr ((if st_ok A ec then Status2 (code_value UNKNOWN) ''Server returned empty header''
            else Status2 (raw_code A ec) (st_message A ec), None), ())"
proof -
  let ?h = "wire R (status_header A ec)" and ?conv = "FabricRPCHeaderProtoConverter Q R"
  have rt: "roundtrips R (status_header A ec)" using assms(6) by (simp add: sendable_status_def)
  note h = roundtripsD[OF assms(2) rt] and dflt = roundtripsD[OF assms(2,3)]
  have len: "length ?h < 2 ^ 32" using h(5) by simp
  have "?h = '''' \<longleftrightarrow> status_header A ec = \<lparr>status_code = 0, status_message = ''''\<rparr>"
    using h(3) dflt(3) assms(4) by auto
  then have empty: "?h = '''' \<longleftrightarrow> st_ok A ec"
    using absl_lawsD(3,4)[OF assms(1), of ec] by (auto simp: status_header_def)
  have "client_result ?conv P ?h resp =
      (if st_ok A ec then Status2 (code_value UNKNOWN) ''Server returned empty header''
       else Status2 (raw_code A ec) (st_message A ec), None)"
    using h(4) empty absl_lawsD(3)[OF assms(1), of ec]
    by (auto simp: client_result_def converter_defs header_defs status_header_def)
  moreover have "EndRequest (replying_client S_OK (Some (tool_message resp ?h))) (Some ()) () =
      ((S_OK, Some (tool_message resp ?h)), ())"
    by (simp add: replying_client_def)
  ultimately show ?thesis
    using middleware_execute_reply[OF assms(5,1,2,6), of b]
      ExecClientEnd_reply[of "replying_client S_OK (Some (tool_message resp ?h))" "Some ()" "()"
        "tool_message resp ?h" "()" ?conv P] len assms(7)
    by simp
qed

theorem old_client_of_new_server_witness:
  "\<exists>reply. middleware_execute Debug pair_absl request_header_codec reply_header_codec [demo_hello]
       (Some demo_request) () = Inr (reply, ()) \<and>
     ExecClientEnd (replying_client S_OK (Some reply))
       (FabricRPCHeaderProtoConverter request_header_codec reply_header_codec) text_codec (Some ()) () =
     Inr ((Status2 (code_value UNKNOWN) ''Server returned empty header'', None), ())"
proof -
  have ser: "SerializeAsString text_codec t = wire text_codec t"
    "SerializeAsString request_header_codec h = wire request_header_codec h" for t h
    by (simp_all add: text_codec_def request_header_codec_def)
  have dflt: "roundtrips reply_header_codec \<lparr>status_code = 0, status_message = ''''\<rparr>"
    "wire reply_header_codec \<lparr>status_code = 0, status_message = ''''\<rparr> = ''''"
    "sendable_status pair_absl reply_header_codec (0, '''')"
    by (simp, simp add: reply_header_codec_def string_field_def, simp)
  have "middleware_execute_inner pair_absl request_header_codec [demo_hello] (Some demo_request) '''' () =
      Inr (((0, ''''), wire text_codec ''Hellobob''), ())"
    using service_call_inner[where A = pair_absl and Q = request_header_codec and R = reply_header_codec
        and P = text_codec and P' = text_codec and u = "''/helloworld.FabricHello/SayHello''"
        and request = "''bob''" and svcs = "[demo_hello]" and package = "''helloworld''"
        and service = "''FabricHello''" and hs = demo_handlers and fn = demo_SayHello
        and st = "()" and ec = "(0, '''')" and reply = "''Hellobob''" and st' = "()"]
    by (simp add: demo_hello_def generated2_service_def generated_name_def starts_with_def handler_table_def
        demo_handlers_def method_url_def package_prefix_def demo_SayHello_def demo_request_def ser)
  from old_client_of_new_server[OF pair_absl_laws reply_header_codec_laws dflt(1,2) this dflt(3), of Debug text_codec]
  show ?thesis by (simp add: text_codec_def string_field_def)
qed

section \<open>A client of the second library and a server of the first\<close>

lemma tool_message_view: "tool_message d h = request_view h d"
  by (simp add: tool_message_def tool_GetHeaderAndBodyBuffer_def mk_tool_transport_msg_def request_view_def)

text \<open>How the second library reads a status of the first one.\<close>

definition as_absl :: "'s absl_api \<Rightarrow> Status \<Rightarrow> 's" where
  "as_absl A st =
     (if 0 \<le> GetErrorCode st \<and> GetErrorCode st \<le> kDoNotUse A
      then mk_status A (GetErrorCode st) (GetErrorMessage st)
      else mk_status A 3 (''reply_header has unknown statuscode: '' @ to_string (GetErrorCode st)))"

lemma rpc_result_carried:
  assumes "absl_laws A" and "codec_laws R" and "codec_laws P'" and "deliverable R st"
    and "failed st \<longleftrightarrow> response = None" and "\<And>p. response = Some p \<Longrightarrow> roundtrips P' p"
  shows "rpc_result A R P' (carried R P' st response) = (as_absl A st, response)"
proof -
  let ?h = "\<lparr>status_code = GetErrorCode st, status_message = GetErrorMessage st\<rparr>"
  have h: "roundtrips R ?h" using assms(4) by (simp add: deliverable_def Let_def)
  note laws = absl_lawsD[OF assms(1)]
  have texts: "header_text (carried R P' st response) = wire R ?h"
    "body_text (carried R P' st response) = (case response of None \<Rightarrow> '''' | Some p \<Rightarrow> wire P' p)"
    using h assms(6) by (auto simp: carried_def split: option.split)
  have st: "parse_reply_header A R (wire R ?h) = as_absl A st"
    using roundtripsD(3)[OF assms(2) h] laws absl_OkStatus[OF assms(1)]
    by (auto simp: parse_reply_header_def parse_proto_payload_def status_from_header_def as_absl_def Let_def)
  have ok: "st_ok A (as_absl A st) \<longleftrightarrow> \<not> failed st"
    using laws by (auto simp: as_absl_def failed_iff_code)
  show ?thesis
  proof (cases response)
    case None
    then show ?thesis using assms(5) ok texts st by (simp add: rpc_result_def)
  next
    case (Some p)
    then have "as_absl A st = OkStatus A" using assms(5) laws by (simp add: as_absl_def failed_iff_code)
    then show ?thesis
      using Some assms(5,6) ok texts st roundtripsD[OF assms(3), of p]
      by (simp add: rpc_result_def parse_proto_payload_def)
  qed
qed

text \<open>
  C11: the other direction works.  A client of the second library calls a server of the first one
  over a transport that delivers messages: it gets the response of the local call, and its status
  with the code and the message the service gave, except that a code beyond the range of
  \<open>absl::StatusCode\<close> becomes an invalid-argument error that names it.
\<close>

theorem new_client_of_old_server:
  assumes "absl_laws A" and "call_setting Q R P P' a request"
    and "Handler_Initialize b (map Service_Route svcs) (Some (FabricRPCHeaderProtoConverter Q R))
           mk_FRPCRequestHandler = Inr H"
    and "first_serves (map service_serves svcs) a =
           Some (BeginOperation_Invoke P bop, EndOperation_Invoke P' eop)"
    and "\<And>q t u. follows_protocol (bop q t u)"
    and "left = remaining_timeout (remaining_timeout 1000 clk) clk_op"
    and "local_call b bop eop request left u = Inr ((st, response), u')"
    and "failed st \<Longrightarrow> deliverable R st"
    and "\<And>p. response = Some p \<Longrightarrow> roundtrips P' p"
  shows "async_rpc_op A Q R P P' (loopback b H clk clk_op) 0 0 a request (u, None) =
    Inr ((0, as_absl A st, response), (u', None))"
proof -
  let ?conv = "FabricRPCHeaderProtoConverter Q R" and ?c = "loopback b H clk clk_op"
  let ?route = "FRPCRouter_Route (map Service_Route svcs)"
  have "svcs \<noteq> []" using assms(4) by auto
  then have H: "H = handler_of ?route ?conv"
    using assms(3) Handler_Initialize_ok[of "map Service_Route svcs" b ?conv] by simp
  have laws: "codec_laws R" "codec_laws P'" "deliverable R Status0"
    and ser: "SerializeAsString P request = wire P request" "SerializeAsString Q \<lparr>url = a\<rparr> = wire Q \<lparr>url = a\<rparr>"
    using assms(2) roundtripsD by (auto simp: call_setting_def)
  have "serve b H (request_view (wire Q \<lparr>url = a\<rparr>) (wire P request)) 1000 clk clk_op u =
      Inr ((S_OK, carried R P' st response), u')"
    unfolding H
    by (rule serve_local_call[where route = ?route and bop = bop and eop = eop, OF assms(2)
          service_route_hit[OF assms(4)] assms(5) assms(7)[unfolded assms(6)] assms(8,9)])
  then have "BeginRequest ?c (tool_message (SerializeAsString P request) (SerializeAsString Q \<lparr>url = a\<rparr>)) 1000 (u, None) =
      ((S_OK, Some ()), (u', Some (S_OK, carried R P' st response)))"
    by (simp add: loopback_def tool_message_view ser)
  moreover have "EndRequest ?c (Some ()) (u', Some (S_OK, carried R P' st response)) =
      ((S_OK, Some (carried R P' st response)), (u', None))"
    by (simp add: loopback_def)
  moreover have "wf_msg (carried R P' st response)" by (simp add: carried_def)
  ultimately have "async_rpc_op A Q R P P' ?c 0 0 a request (u, None) =
      Inr ((0, fst (rpc_result A R P' (carried R P' st response)), snd (rpc_result A R P' (carried R P' st response))),
        (u', None))"
    by (rule async_rpc_op_reply)
  moreover have "rpc_result A R P' (carried R P' st response) = (as_absl A st, response)"
    using rpc_result_carried[OF assms(1) laws(1,2)] local_call_result[OF assms(7)] assms(8,9) laws(3)
    by (cases "failed st") auto
  ultimately show ?thesis by simp
qed

theorem new_client_of_old_server_witness:
  "async_rpc_op pair_absl request_header_codec reply_header_codec text_codec text_codec
     (loopback Debug demo_handler (0, 0) (0, 0)) 0 0 demo_url ''bob'' ((), None) =
   Inr ((0, (0, ''''), Some ''hello bob''), ((), None))"
proof -
  have "async_rpc_op pair_absl request_header_codec reply_header_codec text_codec text_codec
      (loopback Debug demo_handler (0, 0) (0, 0)) 0 0 demo_url ''bob'' ((), None) =
    Inr ((0, as_absl pair_absl Status0, Some (''hello '' @ ''bob'')), ((), None))"
    by (rule new_client_of_old_server[OF pair_absl_laws demo_setting _ demo_routes _ refl demo_local_call])
      (simp_all add: Handler_Initialize_ok BeginSayHello_protocol demo_services_def demo_handler_def demo_converter_def)
  then show ?thesis by (simp add: as_absl_def)
qed

section \<open>What both servers send\<close>

lemma EndProcessRequest_view:
  assumes "EndProcessRequest b H p u = Inr ((hr, m), u')"
  shows "hr = S_OK \<and> (\<exists>v. FRPC_GetHeaderAndBodyBuffer m = Inr v \<and> wf_msg v)"
  using assms by (auto simp: EndProcessRequest_def ebind_Inr_iff Let_def case_prod_unfold)

lemma context_reply_wf:
  assumes "work_inv b A Q R svcs s" and "n \<in> set (notifications s)"
  shows "wf_msg (context_reply (contexts s ! n))"
proof -
  have "answers b A Q R svcs (rq_msg (posted s ! n)) (contexts s ! n)"
    using assms unfolding work_inv_def by blast
  then show ?thesis
    by (auto simp: answers_def context_reply_def middleware_execute_def ebind_Inr_iff Let_def case_prod_unfold)
qed

text \<open>
  C26: every reply is a well-formed message.  Whatever a service does, what the first library's
  handler returns has its buffers, and what the transport fetches from the second library's
  server for a request it was notified of is a message: it has as many buffers as it says, none
  claims more bytes than it has, and the readers of both libraries read header and body.
\<close>

theorem replies_well_formed:
  "(\<forall>hr m u'. EndProcessRequest b H p u = Inr ((hr, m), u') \<longrightarrow>
      hr = S_OK \<and> (\<exists>v. FRPC_GetHeaderAndBodyBuffer m = Inr v \<and> wf_msg v)) \<and>
   (\<forall>s n. server_reachable bld A Q R svcs st (Inr s) \<longrightarrow> replies_ready A R \<longrightarrow> n \<in> set (notifications s) \<longrightarrow>
      (\<exists>reply. Msg_EndProcessRequest bld (contexts s ! n) = Inr (S_OK, Some reply) \<and> wf_msg reply \<and>
        returns (get_header (Some reply)) \<and> returns (get_body (Some reply))))"
proof (intro conjI allI impI)
  fix hr m u' assume e: "EndProcessRequest b H p u = Inr ((hr, m), u')"
  show "hr = S_OK" "\<exists>v. FRPC_GetHeaderAndBodyBuffer m = Inr v \<and> wf_msg v"
    using EndProcessRequest_view[OF e] by auto
next
  fix s n assume r: "server_reachable bld A Q R svcs st (Inr s)" "replies_ready A R" "n \<in> set (notifications s)"
  have w: "work_inv bld A Q R svcs s" using reachable_sequential(1)[OF r(1,2)] by (simp add: server_ok_def)
  show "\<exists>reply. Msg_EndProcessRequest bld (contexts s ! n) = Inr (S_OK, Some reply) \<and> wf_msg reply \<and>
      returns (get_header (Some reply)) \<and> returns (get_body (Some reply))"
    using answered_context[OF w r(3)] context_reply_wf[OF w r(3)] by (auto simp: get_header_wf get_body_wf)
qed

theorem replies_well_formed_witness:
  "(\<exists>hr m u'. EndProcessRequest Debug demo_handler (complete_payload demo_end ''hello bob'') () = Inr ((hr, m), u') \<and>
      (\<exists>v. FRPC_GetHeaderAndBodyBuffer m = Inr v \<and> wf_msg v)) \<and>
   (\<exists>(s :: unit server) reply. Msg_EndProcessRequest Debug (contexts s ! 0) = Inr (S_OK, Some reply) \<and> wf_msg reply)"
proof -
  obtain s :: "unit server" where s: "server_reachable Debug pair_absl request_header_codec reply_header_codec
      [demo_hello] () (Inr s)" "0 \<in> set (notifications s)"
    by (rule demo_answered)
  note r = replies_well_formed[of Debug demo_handler "complete_payload demo_end ''hello bob''" "()"
      Debug pair_absl request_header_codec reply_header_codec "[demo_hello]" "()"]
  have "\<exists>reply. Msg_EndProcessRequest Debug (contexts s ! 0) = Inr (S_OK, Some reply) \<and> wf_msg reply"
    using r s demo_ready by blast
  moreover have "\<exists>hr m u'. EndProcessRequest Debug demo_handler (complete_payload demo_end ''hello bob'') () =
      Inr ((hr, m), u') \<and> (\<exists>v. FRPC_GetHeaderAndBodyBuffer m = Inr v \<and> wf_msg v)"
    using r demo_EndProcessRequest[of Debug "()"] by blast
  ultimately show ?thesis by blast
qed

section \<open>The example programs\<close>

lemma hello_rpc:
  assumes "call_setting Q R Req Resp ''/helloworld.FabricHello/SayHello'' name"
    and "roundtrips Resp (''hello '' @ name)"
    and "hello_server_main b Q R Req Resp create opening str closing = Inr (report, H)"
  shows "rpc_call b H (FabricRPCHeaderProtoConverter Q R) Req Resp 1000
      ''/helloworld.FabricHello/SayHello'' name clk_client clk clk_op u =
    Inr ((Status0, Some (''hello '' @ name)), u)"
proof -
  have serves: "first_serves (map service_serves [hello_service Req Resp]) ''/helloworld.FabricHello/SayHello'' =
      Some (BeginOperation_Invoke Req BeginSayHello, EndOperation_Invoke Resp EndSayHello)"
    by (simp add: service_serves_def hello_service_def method_url_def package_prefix_def)
  then have route: "FRPCRouter_Route [Service_Route (hello_service Req Resp)]
      ''/helloworld.FabricHello/SayHello'' (None, None) =
      (Status0, Some (BeginOperation_Invoke Req BeginSayHello), Some (EndOperation_Invoke Resp EndSayHello))"
    using service_route_hit[of "[hello_service Req Resp]" _ _ _ "(None, None)"] by (simp only: list.map)
  have "local_call b BeginSayHello EndSayHello name left u = Inr ((Status0, Some (''hello '' @ name)), u)" for left
    by (simp add: local_call_def BeginSayHello_def EndSayHello_def Let_def)
  then show ?thesis
    unfolding hello_server_handler[OF assms(3)] using assms(2)
    by (intro rpc_call_local_call[where route = "FRPCRouter_Route [Service_Route (hello_service Req Resp)]"
          and bop = BeginSayHello and eop = EndSayHello, OF assms(1) route refl BeginSayHello_protocol]) auto
qed

text \<open>
  C16: the first example.  On a network that connects clients of the address the server program
  listens on to the handler that it makes, in either build and whatever time the call takes, the
  client program prints the greeting, nothing on its error stream, and exits with success.
\<close>

theorem hello_programs_talk:
  assumes "call_setting Q R Req Resp ''/helloworld.FabricHello/SayHello'' ''world''"
    and "roundtrips Resp ''hello world''"
    and "hello_server_main b Q R Req Resp create opening str closing = Inr (report, H)"
    and "hs_begin hs = S_OK" and "hs_invokes hs = 1" and "hs_end hs = S_OK"
  shows "hello_client_main b (network hello_listen_addr (loopback b H clk clk_op)) hs 1
      (FabricRPCHeaderProtoConverter Q R) Req Resp clk_client (u, None) =
    Inr (\<lparr>exit_code = 0, std_out = ''Reply: hello world'' @ endl, std_err = ''''\<rparr>, (u, None))"
proof -
  let ?conv = "FabricRPCHeaderProtoConverter Q R" and ?c = "loopback b H clk clk_op"
  have "rpc_call b H ?conv Req Resp 1000 ''/helloworld.FabricHello/SayHello'' ''world'' clk_client clk clk_op u =
      Inr ((Status0, Some ''hello world''), u)"
    using hello_rpc[OF assms(1) _ assms(3)] assms(2) by simp
  from rpc_call_over_loopback[OF assms(1) this] obtain w where "ExecClientBegin b ?c ?conv Req 1000 ''/helloworld.FabricHello/SayHello'' ''world''
      clk_client (u, None) = Inr ((Status0, Some ()), w)"
    and "ExecClientEnd ?c ?conv Resp (Some ()) w = Inr ((Status0, Some ''hello world''), (u, None))"
    by blast
  then show ?thesis
    using assms(4-6) by (simp add: hello_client_main_def EXIT_SUCCESS_def)
qed

theorem hello_programs_talk_witness:
  "\<exists>report H. hello_server_main Debug request_header_codec reply_header_codec text_codec text_codec
       (\<lambda>_ _. S_OK) demo_handshake ''localhost:12345+/'' demo_handshake = Inr (report, H) \<and>
     hello_client_main Debug (network hello_listen_addr (loopback Debug H (0, 0) (0, 0))) demo_handshake 1
       (FabricRPCHeaderProtoConverter request_header_codec reply_header_codec) text_codec text_codec (0, 0)
       ((), None) =
     Inr (\<lparr>exit_code = 0, std_out = ''Reply: hello world'' @ endl, std_err = ''''\<rparr>, ((), None))"
proof -
  have s: "call_setting request_header_codec reply_header_codec text_codec text_codec
      ''/helloworld.FabricHello/SayHello'' ''world''"
    by (simp add: call_setting_def) (simp add: request_header_codec_def string_field_def)
  obtain report and H :: "(string, unit) FRPCRequestHandler"
    where m: "hello_server_main Debug request_header_codec reply_header_codec text_codec
      text_codec (\<lambda>_ _. S_OK) demo_handshake ''localhost:12345+/'' demo_handshake = Inr (report, H)"
    by (simp add: hello_server_main_def CreateFabricRPCRequestHandler_def Handler_Initialize_ok
        demo_handshake_def)
  show ?thesis
    using hello_programs_talk[OF s _ m, of demo_handshake "(0, 0)" "(0, 0)" "(0, 0)"] m
    by (auto simp: demo_handshake_def)
qed

text \<open>
  C17: the second example.  On the same network, with the service of the second server program
  behind the middleware, the second client program prints the greeting, nothing on its error
  stream, and exits with success, in a debug build if the transport opens synchronously.
\<close>

theorem second_hello_programs_talk:
  assumes "absl_laws A" and "codec_laws Q" and "codec_laws R" and "codec_laws Req" and "codec_laws Resp"
    and "roundtrips Q \<lparr>url = ''/helloworld.FabricHello/SayHello''\<rparr>" and "roundtrips Req ''myname''"
    and "roundtrips Resp ''Hellomyname''" and "sendable_status A R (OkStatus A)"
    and "hs_begin hs = S_OK" and "hs_invokes hs = 1" and "hs_end hs = S_OK"
    and "b = Release \<or> hs_completed hs \<and> hs_sync hs"
  shows "client2_main b A to_text message what Q R Req Resp
      (network hello_listen_addr (loopback2 b A Q R [fabric_hello A Req Resp])) hs 0 (u, None) =
    Inr (\<lparr>exit_code = 0, std_out = ''Reply: Hellomyname'' @ endl, std_err = ''''\<rparr>, (u, None))"
proof -
  let ?c = "loopback2 b A Q R [fabric_hello A Req Resp]" and ?u = "''/helloworld.FabricHello/SayHello''"
  let ?m = "tool_message (wire Req ''myname'') (wire Q \<lparr>url = ?u\<rparr>)"
  let ?reply = "tool_message (wire Resp ''Hellomyname'') (wire R (status_header A (OkStatus A)))"
  have ser: "SerializeAsString Req ''myname'' = wire Req ''myname''"
    "SerializeAsString Q \<lparr>url = ?u\<rparr> = wire Q \<lparr>url = ?u\<rparr>"
    using assms(2,4,6,7) roundtripsD by auto
  have "middleware_execute_inner A Q [fabric_hello A Req Resp]
      (Some (tool_message (SerializeAsString Req ''myname'') (SerializeAsString Q \<lparr>url = ?u\<rparr>))) '''' u =
      Inr ((OkStatus A, if st_ok A (OkStatus A) then wire Resp ''Hellomyname'' else ''''), u)"
    by (rule service_call_inner[where package = "''helloworld''" and service = "''FabricHello''"
          and hs = "fabric_hello_handlers A Req Resp" and fn = "fabric_hello_impl_SayHello A" and R = R])
      (use assms(1-9) in \<open>simp_all add: fabric_hello_def generated2_service_def generated_name_def starts_with_def
        handler_table_def fabric_hello_handlers_def method_url_def package_prefix_def fabric_hello_impl_SayHello_def\<close>)
  then have "middleware_execute_inner A Q [fabric_hello A Req Resp] (Some ?m) '''' u =
      Inr ((OkStatus A, wire Resp ''Hellomyname''), u)"
    using absl_OkStatus[OF assms(1)] by (simp add: ser)
  note serves = middleware_execute_reply[OF this assms(1,3,9), of b]
  have "rpc_result A R Resp ?reply = (OkStatus A, Some ''Hellomyname'')"
    using parse_reply_header_sendable[OF assms(1,3,9)] absl_OkStatus[OF assms(1)] assms(8,9)
      roundtripsD[OF assms(5,8)]
    by (simp add: rpc_result_def parse_proto_payload_def sendable_status_def)
  moreover have "BeginRequest ?c (tool_message (SerializeAsString Req ''myname'') (SerializeAsString Q \<lparr>url = ?u\<rparr>))
      1000 (u, None) = ((S_OK, Some ()), (u, Some ?reply))"
    using serves by (simp add: loopback2_def ser)
  moreover have "EndRequest ?c (Some ()) (u, Some ?reply) = ((S_OK, Some ?reply), (u, None))"
    by (simp add: loopback2_def)
  ultimately have "async_rpc_op A Q R Req Resp ?c 0 0 ?u ''myname'' (u, None) =
      Inr ((0, OkStatus A, Some ''Hellomyname''), (u, None))"
    using async_rpc_op_reply[of ?c Req "''myname''" Q ?u "(u, None)" "Some ()" "(u, Some ?reply)" ?reply "(u, None)" A R Resp]
    by simp
  moreover have "connection_open b (network hello_listen_addr ?c) hs (mk_endpoint ''localhost'' 12345)
      mk_client_connection = Inr (0, \<lparr>conn_client = Some ?c\<rparr>)"
    using assms(10-13) by (auto simp: connection_open_def mk_client_connection_def created_def S_OK_def cxx_assert_cong)
  ultimately show ?thesis
    using client2_opened[where A = A and Q = Q and R = R and Req = Req and Resp = Resp and b = b
        and create = "network hello_listen_addr ?c" and conn = "\<lparr>conn_client = Some ?c\<rparr>" and hs = hs and ec_wait = 0
        and w = "(u, None)" and ec = 0 and st = "OkStatus A" and reply = "Some ''Hellomyname''" and w' = "(u, None)"]
      absl_OkStatus[OF assms(1)]
    by (simp add: rpc_client_async_send_def EXIT_SUCCESS_def)
qed

theorem second_hello_programs_talk_witness:
  "client2_main Debug pair_absl snd (\<lambda>_. ''broken'') (\<lambda>_. ''broken'') request_header_codec reply_header_codec
     text_codec text_codec
     (network hello_listen_addr (loopback2 Debug pair_absl request_header_codec reply_header_codec
       [fabric_hello pair_absl text_codec text_codec])) demo_handshake 0 ((), None) =
   Inr (\<lparr>exit_code = 0, std_out = ''Reply: Hellomyname'' @ endl, std_err = ''''\<rparr>, ((), None))"
  by (rule second_hello_programs_talk) (simp_all add: demo_handshake_def)

text \<open>
  What the exit codes of the two client programs mean.  The first one exits with success
  exactly when it has printed a reply, and then with nothing on its error stream.  The second one
  exits with success whenever its connection could be opened: a call that fails is reported on
  the error stream only, and when the server refused it an empty reply is printed as well.
\<close>

lemma client_exit_codes:
  assumes "absl_laws A"
    and "connection_open b create opening (mk_endpoint ''localhost'' 12345) mk_client_connection = Inr (oc, conn)"
    and "rpc_client_async_send A Q R Req Resp conn ec_wait ''/helloworld.FabricHello/SayHello'' ''myname'' v =
      Inr ((ec, st, reply), v')"
  shows "(\<forall>report w'. hello_client_main b create1 opening calls conv Req Resp clk w = Inr (report, w') \<longrightarrow>
       (exit_code report = 0 \<longleftrightarrow> std_err report = '''') \<and> (exit_code report = 0 \<longleftrightarrow> std_out report \<noteq> '''')) \<and>
    (\<exists>report. client2_main b A to_text message what Q R Req Resp create opening ec_wait v =
         Inr (report, if oc = 0 then v' else v) \<and>
       (exit_code report = 0 \<longleftrightarrow> oc = 0) \<and>
       (std_err report = '''' \<longleftrightarrow> oc = 0 \<and> ec = 0 \<and> st_ok A st) \<and>
       (std_out report \<noteq> '''' \<longleftrightarrow> oc = 0 \<and> ec = 0))"
proof -
  have unknown: "\<not> st_ok A (UnknownError A m)" for m
    using absl_lawsD[OF assms(1)] by simp
  have "\<exists>report. client2_main b A to_text message what Q R Req Resp create opening ec_wait v =
         Inr (report, if oc = 0 then v' else v) \<and>
       (exit_code report = 0 \<longleftrightarrow> oc = 0) \<and>
       (std_err report = '''' \<longleftrightarrow> oc = 0 \<and> ec = 0 \<and> st_ok A st) \<and>
       (std_out report \<noteq> '''' \<longleftrightarrow> oc = 0 \<and> ec = 0)"
  proof (cases "oc = 0")
    case True
    then show ?thesis
      using client2_opened[OF assms(2)[unfolded True] assms(3), of to_text message what]
      by (simp add: EXIT_SUCCESS_def unknown)
  next
    case False
    then show ?thesis
      using client2_not_opened[OF assms(2) False, of A to_text message what Q R Req Resp ec_wait v]
      by (simp add: fails_with_def EXIT_FAILURE_def)
  qed
  moreover have "(exit_code report = 0 \<longleftrightarrow> std_err report = '''') \<and> (exit_code report = 0 \<longleftrightarrow> std_out report \<noteq> '''')"
    if "hello_client_main b create1 opening calls conv Req Resp clk w = Inr (report, w')" for report w'
    using hello_client_streams[OF that] unfolding EXIT_SUCCESS_def .
  ultimately show ?thesis by blast
qed

end
